(* ===== verification/Prelude.thy ===== *)
theory Prelude
  imports Main "HOL-Library.Word" "HOL-Library.Multiset"
begin

text \<open>
  Shared vocabulary of the development: Go's sized integers, \<open>time.Time\<close> and
  \<open>time.Duration\<close>, Go maps and the unspecified order in which \<open>range\<close> visits them,
  decimal printing, and the generic transition-system locale that every interleaving
  model of the development instantiates.
\<close>

named_theorems go_int \<open>wrap-around of sized integers\<close>
named_theorems go_map \<open>Go maps and their iteration\<close>
named_theorems frame \<open>parts of the state an operation leaves alone\<close>

section \<open>Sized integers\<close>

text \<open>
  A Go \<open>int\<close> or \<open>int64\<close> is an integer in the range of 64-bit two's complement, and an
  \<open>int32\<close> one in the range of 32 bits. They are kept as \<open>int\<close>; \<open>wrap64\<close> and
  \<open>wrap32\<close> are applied where the source computes or converts.
\<close>

definition wrap64 :: "int \<Rightarrow> int" where
  "wrap64 x = signed_take_bit 63 x"

definition wrap32 :: "int \<Rightarrow> int" where
  "wrap32 x = signed_take_bit 31 x"

abbreviation max_int64 :: int where "max_int64 \<equiv> 9223372036854775807"
abbreviation min_int64 :: int where "min_int64 \<equiv> - 9223372036854775808"

definition in64 :: "int \<Rightarrow> bool" where
  "in64 x \<longleftrightarrow> min_int64 \<le> x \<and> x \<le> max_int64"

definition in32 :: "int \<Rightarrow> bool" where
  "in32 x \<longleftrightarrow> - 2147483648 \<le> x \<and> x \<le> 2147483647"

lemma wrap64_id [go_int]: "in64 x \<Longrightarrow> wrap64 x = x"
  unfolding wrap64_def in64_def by (rule signed_take_bit_int_eq_self) simp_all

lemma wrap32_id [go_int]: "in32 x \<Longrightarrow> wrap32 x = x"
  unfolding wrap32_def in32_def by (rule signed_take_bit_int_eq_self) simp_all

lemma in64_wrap64 [simp, intro]: "in64 (wrap64 x)"
  using signed_take_bit_int_greater_eq_minus_exp [of 63 x] signed_take_bit_int_less_exp [of 63 x]
  by (simp add: in64_def wrap64_def)

lemma in32_wrap32 [simp, intro]: "in32 (wrap32 x)"
  using signed_take_bit_int_greater_eq_minus_exp [of 31 x] signed_take_bit_int_less_exp [of 31 x]
  by (simp add: in32_def wrap32_def)

lemma in32_in64 [intro]: "in32 x \<Longrightarrow> in64 x"
  by (simp add: in32_def in64_def)

lemma wrap64_idem [simp]: "wrap64 (wrap64 x) = wrap64 x"
  by (simp add: wrap64_id)

lemma wrap32_idem [simp]: "wrap32 (wrap32 x) = wrap32 x"
  by (simp add: wrap32_id)

lemma wrap64_small [simp]: "wrap64 0 = 0" "wrap64 1 = 1"
  by (simp_all add: wrap64_id in64_def)

text \<open>Go's integer division truncates towards zero.\<close>

definition go_quot :: "int \<Rightarrow> int \<Rightarrow> int" where
  "go_quot a b = sgn a * sgn b * (\<bar>a\<bar> div \<bar>b\<bar>)"

lemma go_quot_nonneg: "0 \<le> a \<Longrightarrow> 0 < b \<Longrightarrow> go_quot a b = a div b"
  by (cases "a = 0") (simp_all add: go_quot_def)

section \<open>Time\<close>

text \<open>
  A \<open>time.Time\<close> is its number of nanoseconds since the Unix epoch, a
  \<open>time.Duration\<close> a 64-bit number of nanoseconds. \<open>Sub\<close> saturates, as Go's does. The
  zero \<open>time.Time\<close> is the first of January of year 1.
\<close>

type_synonym time = int
type_synonym duration = int

definition second :: duration where "second = 1000000000"

definition zero_time :: time where "zero_time = - 62135596800000000000"

definition time_sub :: "time \<Rightarrow> time \<Rightarrow> duration" where
  "time_sub t u = max min_int64 (min max_int64 (t - u))"

lemma in64_time_sub [simp, intro]: "in64 (time_sub t u)"
  by (simp add: time_sub_def in64_def)

lemma time_sub_exact: "in64 (t - u) \<Longrightarrow> time_sub t u = t - u"
  by (simp add: time_sub_def in64_def)

lemma time_sub_less_iff: "in64 d \<Longrightarrow> d < max_int64 \<Longrightarrow> d < time_sub t u \<longleftrightarrow> d < t - u"
  by (auto simp: time_sub_def in64_def)

section \<open>Bytes and decimal numerals\<close>

type_synonym bytes = "8 word list"

fun show_nat :: "nat \<Rightarrow> string" where
  "show_nat n =
     (if n < 10 then [char_of (48 + n)] else show_nat (n div 10) @ [char_of (48 + n mod 10)])"

declare show_nat.simps [simp del]

definition show_int :: "int \<Rightarrow> string" where
  "show_int i = (if i < 0 then CHR ''-'' # show_nat (nat (- i)) else show_nat (nat i))"

section \<open>Go maps\<close>

text \<open>
  A Go map is a partial function with a finite domain. \<open>range\<close> visits the entries in an
  order that the language leaves open and the runtime shuffles, so every iteration of the
  model takes the order as an argument: a list \<open>ks\<close> of the keys with \<open>iterates ks m\<close>.
\<close>

type_synonym metadata = "string \<rightharpoonup> string"

definition go_len :: "('k \<rightharpoonup> 'v) \<Rightarrow> int" where
  "go_len m = int (card (dom m))"

definition go_delete :: "'k \<Rightarrow> ('k \<rightharpoonup> 'v) \<Rightarrow> ('k \<rightharpoonup> 'v)" where
  "go_delete k m = m(k := None)"

definition iterates :: "'k list \<Rightarrow> ('k \<rightharpoonup> 'v) \<Rightarrow> bool" where
  "iterates ks m \<longleftrightarrow> distinct ks \<and> set ks = dom m"

fun go_values :: "('k \<rightharpoonup> 'v) \<Rightarrow> 'k list \<Rightarrow> 'v list" where
  "go_values m [] = []"
| "go_values m (k # ks) =
     (case m k of None \<Rightarrow> go_values m ks | Some v \<Rightarrow> v # go_values m ks)"

lemma go_delete_apply [simp]: "go_delete k m k' = (if k' = k then None else m k')"
  by (simp add: go_delete_def)

lemma dom_go_delete [simp]: "dom (go_delete k m) = dom m - {k}"
  by (auto simp: go_delete_def)

lemma iterates_finite: "iterates ks m \<Longrightarrow> finite (dom m)"
  by (metis iterates_def List.finite_set)

lemma set_go_values: "set (go_values m ks) = {v. \<exists>k \<in> set ks. m k = Some v}"
  by (induction ks) (auto split: option.splits)

lemma set_go_values_ran [go_map]: "iterates ks m \<Longrightarrow> set (go_values m ks) = ran m"
  by (auto simp: set_go_values iterates_def ran_def)

lemma go_values_eq_map: "set ks \<subseteq> dom m \<Longrightarrow> go_values m ks = map (\<lambda>k. the (m k)) ks"
  by (induction ks) auto

lemma length_go_values [go_map]: "iterates ks m \<Longrightarrow> length (go_values m ks) = card (dom m)"
  by (simp add: go_values_eq_map iterates_def distinct_card [symmetric])

text \<open>The order of iteration never changes what is visited, only when.\<close>

lemma mset_go_values:
  assumes "iterates ks m" "iterates ks' m"
  shows "mset (go_values m ks) = mset (go_values m ks')"
proof -
  from assms have "mset ks = mset ks'"
    by (simp add: iterates_def set_eq_iff_mset_eq_distinct [symmetric])
  moreover from assms have "set ks \<subseteq> dom m" "set ks' \<subseteq> dom m"
    by (simp_all add: iterates_def)
  ultimately show ?thesis
    by (simp add: go_values_eq_map mset_map [symmetric] del: mset_map)
       (simp only: mset_map)
qed

section \<open>Transition systems\<close>

inductive reach :: "('s \<Rightarrow> bool) \<Rightarrow> ('s \<Rightarrow> 'l \<Rightarrow> 's \<Rightarrow> bool) \<Rightarrow> 's \<Rightarrow> bool" for ini stp where
  reach_init: "ini s \<Longrightarrow> reach ini stp s"
| reach_step: "reach ini stp s \<Longrightarrow> stp s l t \<Longrightarrow> reach ini stp t"

text \<open>Runs that start in a given state, and their composition.\<close>

lemma reach_self: "reach (\<lambda>u. u = s) stp s"
  by (rule reach_init) simp

lemma reach_one: "stp s l t \<Longrightarrow> reach (\<lambda>u. u = s) stp t"
  by (rule reach_step [OF reach_self])

lemma reach_trans:
  assumes "reach ini stp s" and "reach (\<lambda>u. u = s) stp t"
  shows "reach ini stp t"
  using assms(2)
proof (induction rule: reach.induct)
  case (reach_init u)
  with assms(1) show ?case by simp
next
  case (reach_step u l v)
  from reach_step.IH reach_step.hyps(2) show ?case by (rule reach.reach_step)
qed

text \<open>
  The contract every interleaving model is proved against: an initial condition and a
  labelled step relation that keep an invariant. The client's lemma is that the invariant
  holds wherever the system can get to.
\<close>

locale invariant_system =
  fixes ini :: "'s \<Rightarrow> bool"
    and stp :: "'s \<Rightarrow> 'l \<Rightarrow> 's \<Rightarrow> bool"
    and inva :: "'s \<Rightarrow> bool"
  assumes ini_inva: "ini s \<Longrightarrow> inva s"
    and stp_inva: "inva s \<Longrightarrow> stp s l t \<Longrightarrow> inva t"
begin

lemma reach_inva: "reach ini stp s \<Longrightarrow> inva s"
  by (induction rule: reach.induct) (auto intro: ini_inva stp_inva)

lemma reach_weaken: "reach ini stp s \<Longrightarrow> (\<And>u. inva u \<Longrightarrow> Q u) \<Longrightarrow> Q s"
  using reach_inva by blast

end

text \<open>
  A detailed system refines an abstract one along a function on states: it starts where the abstract
  one may start, and each of its steps from a reachable state is invisible or a step of the abstract
  one. What holds in all reachable states of the abstract system then holds of the detailed one.
\<close>

locale simulation =
  fixes ini :: "'s \<Rightarrow> bool"
    and stp :: "'s \<Rightarrow> 'l \<Rightarrow> 's \<Rightarrow> bool"
    and sini :: "'t \<Rightarrow> bool"
    and sstp :: "'t \<Rightarrow> 'e \<Rightarrow> 't \<Rightarrow> bool"
    and img :: "'s \<Rightarrow> 't"
  assumes ini_sim: "ini s \<Longrightarrow> sini (img s)"
    and stp_sim: "reach ini stp s \<Longrightarrow> stp s l t \<Longrightarrow> img t = img s \<or> (\<exists>e. sstp (img s) e (img t))"
begin

lemma reach_img: "reach ini stp s \<Longrightarrow> reach sini sstp (img s)"
proof (induction rule: reach.induct)
  case (reach_init s)
  then show ?case by (intro reach.reach_init ini_sim)
next
  case (reach_step s l t)
  with stp_sim [of s l t] show ?case by (metis reach.reach_step)
qed

lemma transfer: "reach ini stp s \<Longrightarrow> (\<And>a. reach sini sstp a \<Longrightarrow> Q a) \<Longrightarrow> Q (img s)"
  using reach_img by blast

end

end
