(* ===== verification/Channels.thy ===== *)
theory Channels
  imports Prelude
begin

text \<open>
  Go's buffered channels as the scheduler uses them (\<open>make(chan T, n)\<close>, a send and a
  receive under \<open>select\<close> with a default, \<open>len\<close>), and the interface of a bounded first-in
  first-out queue, which the scheduler's queue of pending tasks also offers.
\<close>

section \<open>Buffered channels\<close>

datatype 'a chan = Chan (chan_buf: "'a list") (chan_cap: int)

definition chan_make :: "int \<Rightarrow> 'a chan" where
  "chan_make n = Chan [] n"

text \<open>\<open>select { case c <- x: \<dots> default: \<dots> }\<close>: \<open>None\<close> is the default branch.\<close>

definition chan_send :: "'a \<Rightarrow> 'a chan \<Rightarrow> 'a chan option" where
  "chan_send x c =
     (if int (length (chan_buf c)) < chan_cap c
      then Some (Chan (chan_buf c @ [x]) (chan_cap c)) else None)"

text \<open>A receive: \<open>None\<close> is an empty channel, on which the receiver waits.\<close>

fun chan_recv :: "'a chan \<Rightarrow> ('a \<times> 'a chan) option" where
  "chan_recv (Chan [] n) = None"
| "chan_recv (Chan (x # xs) n) = Some (x, Chan xs n)"

definition chan_len :: "'a chan \<Rightarrow> int" where
  "chan_len c = int (length (chan_buf c))"

section \<open>The interface of a bounded queue\<close>

fun send_all :: "('a \<Rightarrow> 'q \<Rightarrow> 'q option) \<Rightarrow> 'a list \<Rightarrow> 'q \<Rightarrow> 'q option" where
  "send_all send [] q = Some q"
| "send_all send (x # xs) q = Option.bind (send x q) (send_all send xs)"

fun recv_n :: "('q \<Rightarrow> ('a \<times> 'q) option) \<Rightarrow> nat \<Rightarrow> 'q \<Rightarrow> ('a list \<times> 'q) option" where
  "recv_n recv 0 q = Some ([], q)"
| "recv_n recv (Suc n) q =
     Option.bind (recv q) (\<lambda>(x, q'). map_option (\<lambda>(xs, r). (x # xs, r)) (recv_n recv n q'))"

locale bounded_queue =
  fixes contents :: "'q \<Rightarrow> 'a list"
    and capacity :: "'q \<Rightarrow> int"
    and send :: "'a \<Rightarrow> 'q \<Rightarrow> 'q option"
    and recv :: "'q \<Rightarrow> ('a \<times> 'q) option"
  assumes send_full: "capacity q \<le> int (length (contents q)) \<Longrightarrow> send x q = None"
    and send_room: "int (length (contents q)) < capacity q \<Longrightarrow> send x q \<noteq> None"
    and send_contents: "send x q = Some q' \<Longrightarrow> contents q' = contents q @ [x]"
    and send_capacity: "send x q = Some q' \<Longrightarrow> capacity q' = capacity q"
    and recv_empty: "contents q = [] \<Longrightarrow> recv q = None"
    and recv_first: "contents q = x # xs \<Longrightarrow> \<exists>q'. recv q = Some (x, q') \<and> contents q' = xs"
    and recv_capacity: "recv q = Some (x, q') \<Longrightarrow> capacity q' = capacity q"
begin

lemma send_Some_iff: "(\<exists>q'. send x q = Some q') \<longleftrightarrow> int (length (contents q)) < capacity q"
  using send_full [of q x] send_room [of q x] by fastforce

lemma recv_SomeD: "recv q = Some (x, q') \<Longrightarrow> contents q = x # contents q'"
  using recv_empty [of q] recv_first [of q] by (cases "contents q") fastforce+

lemma recv_None_iff: "recv q = None \<longleftrightarrow> contents q = []"
  using recv_empty [of q] recv_first [of q] by (cases "contents q") fastforce+

lemma send_all_contents: "send_all send xs q = Some q' \<Longrightarrow> contents q' = contents q @ xs"
  by (induction xs arbitrary: q) (auto simp: send_contents bind_eq_Some_conv)

lemma send_all_capacity: "send_all send xs q = Some q' \<Longrightarrow> capacity q' = capacity q"
  by (induction xs arbitrary: q) (auto simp: send_capacity bind_eq_Some_conv)

lemma send_all_room:
  "int (length (contents q)) + int (length xs) \<le> capacity q \<Longrightarrow> \<exists>q'. send_all send xs q = Some q'"
proof (induction xs arbitrary: q)
  case Nil
  then show ?case by simp
next
  case (Cons x xs)
  then have "int (length (contents q)) < capacity q" by simp
  then obtain q1 where q1: "send x q = Some q1"
    using send_Some_iff by blast
  with Cons.prems have "int (length (contents q1)) + int (length xs) \<le> capacity q1"
    by (simp add: send_contents send_capacity)
  then show ?case using Cons.IH q1 by simp
qed

lemma recv_n_contents:
  "n \<le> length (contents q) \<Longrightarrow>
   \<exists>q'. recv_n recv n q = Some (take n (contents q), q') \<and> contents q' = drop n (contents q)"
proof (induction n arbitrary: q)
  case 0
  then show ?case by simp
next
  case (Suc n)
  then obtain x xs where c: "contents q = x # xs"
    by (cases "contents q") auto
  then obtain q1 where q1: "recv q = Some (x, q1)" "contents q1 = xs"
    using recv_first by blast
  with Suc.prems c have "\<exists>q'. recv_n recv n q1 = Some (take n xs, q') \<and> contents q' = drop n xs"
    using Suc.IH [of q1] by simp
  with c q1 show ?case by auto
qed

text \<open>First in, first out: what is received is what was sent, in the order it was sent.\<close>

lemma fifo:
  assumes "contents q = []" and "send_all send xs q = Some q'"
  shows "\<exists>q''. recv_n recv (length xs) q' = Some (xs, q'') \<and> contents q'' = []"
  using recv_n_contents [of "length xs" q'] send_all_contents [OF assms(2)] assms(1) by simp

end

lemma chan_send_simps [simp]:
  "chan_send x c = None \<longleftrightarrow> chan_cap c \<le> int (length (chan_buf c))"
  "chan_send x c = Some d \<longleftrightarrow>
     int (length (chan_buf c)) < chan_cap c \<and> d = Chan (chan_buf c @ [x]) (chan_cap c)"
  by (auto simp: chan_send_def)

lemma chan_recv_simps [simp]:
  "chan_recv c = None \<longleftrightarrow> chan_buf c = []"
  "chan_recv c = Some (x, d) \<longleftrightarrow> chan_buf c = x # chan_buf d \<and> chan_cap d = chan_cap c"
  by (cases c rule: chan_recv.cases; cases d; auto)+

interpretation go_chan: bounded_queue chan_buf chan_cap chan_send chan_recv
proof unfold_locales
  fix q :: "'a chan" and x xs
  assume "chan_buf q = x # xs"
  then have "chan_recv q = Some (x, Chan xs (chan_cap q))" by simp
  then show "\<exists>q'. chan_recv q = Some (x, q') \<and> chan_buf q' = xs" by fastforce
qed auto

end
