(* ===== verification/Types.thy ===== *)
theory Types
  imports Prelude
begin

text \<open>
  The data shared by master and worker: \<open>pkg/types/task.go\<close> (\<open>Task\<close>, \<open>TaskStatus\<close>) and
  \<open>pkg/types/result.go\<close> (\<open>Result\<close>, \<open>ResultStatus\<close>).
\<close>

section \<open>Task status\<close>

text \<open>
  A Go \<open>TaskStatus\<close> is an \<open>int\<close>; the constants are its seven named values, and
  \<open>TaskStatusOther\<close> is any other value of the underlying type.
\<close>

datatype TaskStatus =
    TaskStatusCreated
  | TaskStatusPending
  | TaskStatusRunning
  | TaskStatusCompleted
  | TaskStatusFailed
  | TaskStatusCancelled
  | TaskStatusTimeout
  | TaskStatusOther int

fun TaskStatus_String :: "TaskStatus \<Rightarrow> string" where
  "TaskStatus_String TaskStatusCreated = ''CREATED''"
| "TaskStatus_String TaskStatusPending = ''PENDING''"
| "TaskStatus_String TaskStatusRunning = ''RUNNING''"
| "TaskStatus_String TaskStatusCompleted = ''COMPLETED''"
| "TaskStatus_String TaskStatusFailed = ''FAILED''"
| "TaskStatus_String TaskStatusCancelled = ''CANCELLED''"
| "TaskStatus_String TaskStatusTimeout = ''TIMEOUT''"
| "TaskStatus_String (TaskStatusOther _) = ''UNKNOWN''"

section \<open>Tasks\<close>

record Task =
  task_ID :: string
  task_Type :: string
  task_Payload :: bytes
  task_Priority :: int
  task_Timeout :: duration
  task_Retries :: int
  task_MaxRetries :: int
  task_CreatedAt :: time
  task_StartedAt :: "time option"
  task_CompletedAt :: "time option"
  task_Status :: TaskStatus
  task_WorkerID :: string
  task_Metadata :: metadata

text \<open>Go's zero value of the struct, and the constructor; \<open>now\<close> is \<open>time.Now()\<close>.\<close>

definition zero_task :: Task where
  "zero_task = \<lparr>task_ID = '''', task_Type = '''', task_Payload = [], task_Priority = 0,
     task_Timeout = 0, task_Retries = 0, task_MaxRetries = 0, task_CreatedAt = zero_time,
     task_StartedAt = None, task_CompletedAt = None, task_Status = TaskStatusCreated,
     task_WorkerID = '''', task_Metadata = Map.empty\<rparr>"

definition NewTask :: "string \<Rightarrow> string \<Rightarrow> bytes \<Rightarrow> time \<Rightarrow> Task" where
  "NewTask i ty payload now = \<lparr>task_ID = i, task_Type = ty, task_Payload = payload,
     task_Priority = 0, task_Timeout = 30 * second, task_Retries = 0, task_MaxRetries = 3,
     task_CreatedAt = now, task_StartedAt = None, task_CompletedAt = None,
     task_Status = TaskStatusCreated, task_WorkerID = '''', task_Metadata = Map.empty\<rparr>"

definition IsTerminal :: "Task \<Rightarrow> bool" where
  "IsTerminal t = (case task_Status t of
       TaskStatusCompleted \<Rightarrow> True | TaskStatusFailed \<Rightarrow> True
     | TaskStatusCancelled \<Rightarrow> True | TaskStatusTimeout \<Rightarrow> True | _ \<Rightarrow> False)"

definition CanRetry :: "Task \<Rightarrow> bool" where
  "CanRetry t \<longleftrightarrow> task_Retries t < task_MaxRetries t \<and> task_Status t = TaskStatusFailed"

lemma CanRetry_terminal: "CanRetry t \<Longrightarrow> IsTerminal t"
  by (simp add: CanRetry_def IsTerminal_def)

section \<open>Results\<close>

datatype ResultStatus =
    ResultStatusSuccess
  | ResultStatusFailure
  | ResultStatusTimeout
  | ResultStatusCancelled
  | ResultStatusOther int

fun ResultStatus_String :: "ResultStatus \<Rightarrow> string" where
  "ResultStatus_String ResultStatusSuccess = ''SUCCESS''"
| "ResultStatus_String ResultStatusFailure = ''FAILURE''"
| "ResultStatus_String ResultStatusTimeout = ''TIMEOUT''"
| "ResultStatus_String ResultStatusCancelled = ''CANCELLED''"
| "ResultStatus_String (ResultStatusOther _) = ''UNKNOWN''"

record Result =
  res_TaskID :: string
  res_Status :: ResultStatus
  res_Output :: bytes
  res_Error :: string
  res_ExitCode :: int
  res_Duration :: duration
  res_WorkerID :: string
  res_CompletedAt :: time
  res_Metadata :: metadata

definition NewResult :: "string \<Rightarrow> time \<Rightarrow> Result" where
  "NewResult i now = \<lparr>res_TaskID = i, res_Status = ResultStatusSuccess, res_Output = [],
     res_Error = '''', res_ExitCode = 0, res_Duration = 0, res_WorkerID = '''',
     res_CompletedAt = now, res_Metadata = Map.empty\<rparr>"

definition Success :: "string \<Rightarrow> bytes \<Rightarrow> duration \<Rightarrow> time \<Rightarrow> Result" where
  "Success i out dur now = \<lparr>res_TaskID = i, res_Status = ResultStatusSuccess, res_Output = out,
     res_Error = '''', res_ExitCode = 0, res_Duration = dur, res_WorkerID = '''',
     res_CompletedAt = now, res_Metadata = Map.empty\<rparr>"

definition Failure :: "string \<Rightarrow> string \<Rightarrow> int \<Rightarrow> duration \<Rightarrow> time \<Rightarrow> Result" where
  "Failure i err code dur now = \<lparr>res_TaskID = i, res_Status = ResultStatusFailure,
     res_Output = [], res_Error = err, res_ExitCode = code, res_Duration = dur,
     res_WorkerID = '''', res_CompletedAt = now, res_Metadata = Map.empty\<rparr>"

definition IsSuccess :: "Result \<Rightarrow> bool" where
  "IsSuccess r \<longleftrightarrow> res_Status r = ResultStatusSuccess"

lemma IsSuccess_constructors [simp]:
  "IsSuccess (NewResult i now)" "IsSuccess (Success i out dur now)"
  "\<not> IsSuccess (Failure i err code dur now)"
  by (simp_all add: IsSuccess_def NewResult_def Success_def Failure_def)

end
