(* ===== verification/Paging.thy ===== *)
theory Paging
  imports Prelude
begin

text \<open>
  The filter / offset / limit loop that \<open>Store.ListJobs\<close> and \<open>Scheduler.ListTasks\<close>
  share word for word, and the closed form it computes. \<open>keep\<close> is the negation of the
  \<open>continue\<close> test on the status filter, \<open>i\<close> the loop's counter and \<open>acc\<close> the slice
  \<open>result\<close>.
\<close>

fun page_loop :: "('a \<Rightarrow> bool) \<Rightarrow> int \<Rightarrow> int \<Rightarrow> int \<Rightarrow> 'a list \<Rightarrow> 'a list \<Rightarrow> 'a list" where
  "page_loop keep limit offset i acc [] = acc"
| "page_loop keep limit offset i acc (x # xs) =
     (if \<not> keep x then page_loop keep limit offset i acc xs
      else if i < offset then page_loop keep limit offset (i + 1) acc xs
      else if limit \<le> int (length (acc @ [x])) then acc @ [x]
      else page_loop keep limit offset (i + 1) (acc @ [x]) xs)"

text \<open>Past the offset the loop copies, up to the limit and at least one element.\<close>

lemma page_loop_copy:
  assumes "offset \<le> i" and "int (length acc) < max 1 limit"
  shows "page_loop keep limit offset i acc xs =
         acc @ take (nat (max 1 limit) - length acc) (filter keep xs)"
  using assms
proof (induction xs arbitrary: i acc)
  case Nil
  then show ?case by simp
next
  case (Cons x xs)
  show ?case
  proof (cases "keep x")
    case False
    with Cons show ?thesis by simp
  next
    case keep: True
    show ?thesis
    proof (cases "limit \<le> int (length acc + 1)")
      case True
      with Cons.prems have "nat (max 1 limit) - length acc = 1" by linarith
      with True keep Cons.prems show ?thesis by simp
    next
      case False
      then have "nat (max 1 limit) - length acc = Suc (nat (max 1 limit) - length (acc @ [x]))"
        by simp
      with False keep Cons.prems Cons.IH [of "i + 1" "acc @ [x]"] show ?thesis by simp
    qed
  qed
qed

lemma page_loop_skip:
  assumes "i \<le> offset"
  shows "page_loop keep limit offset i [] xs =
         take (nat (max 1 limit)) (drop (nat (offset - i)) (filter keep xs))"
  using assms
proof (induction xs arbitrary: i)
  case Nil
  then show ?case by simp
next
  case (Cons x xs)
  show ?case
  proof (cases "keep x \<and> i < offset")
    case True
    then have "nat (offset - i) = Suc (nat (offset - (i + 1)))" by linarith
    with True Cons.IH [of "i + 1"] show ?thesis by simp
  next
    case False
    with Cons show ?thesis
      using page_loop_copy [of offset i "[]" limit keep "x # xs"] by auto
  qed
qed

lemma page_loop_eq:
  "page_loop keep limit offset 0 [] xs =
   take (nat (max 1 limit)) (drop (nat offset) (filter keep xs))"
proof (cases "0 \<le> offset")
  case True
  then show ?thesis using page_loop_skip [of 0 offset] by simp
next
  case False
  then show ?thesis using page_loop_copy [of offset 0 "[]" limit keep xs] by simp
qed

text \<open>Two neighbouring pages of the same visit are one page of twice the size.\<close>

lemma page_loop_append:
  assumes "1 \<le> limit" and "0 \<le> offset"
  shows "page_loop keep limit offset 0 [] xs @ page_loop keep limit (offset + limit) 0 [] xs =
         page_loop keep (2 * limit) offset 0 [] xs"
proof -
  define n where "n = nat limit"
  define m where "m = nat offset"
  have eqs: "nat (max 1 limit) = n" "nat (offset + limit) = n + m"
    "nat (max 1 (2 * limit)) = n + n"
    using assms by (simp_all add: n_def m_def)
  show ?thesis
    unfolding page_loop_eq eqs m_def [symmetric] take_add by simp
qed

end
