(* ===== verification/Scheduler.thy ===== *)
theory Scheduler
  imports Channels Types Paging
begin

text \<open>
  \<open>internal/master/scheduler.go\<close>: the queue of pending tasks and the table of all tasks.

  The channel, the table and every dispatch goroutine share \<open>*types.Task\<close> pointers, and the
  code relies on it: \<open>MarkFailed\<close> writes through the table what \<open>CanRetry\<close> then reads
  through the goroutine's pointer. Task objects therefore live in a heap; a pointer is an
  address, and an address below \<open>sched_next\<close> has been allocated.
\<close>

section \<open>State\<close>

datatype sched_error = ErrQueueFull | ErrTaskExists | ErrTaskNotFound

type_synonym task_ref = nat

record Scheduler =
  sched_heap :: "task_ref \<Rightarrow> Task"
  sched_next :: task_ref
  sched_pending :: "task_ref chan"
  sched_tasks :: "string \<rightharpoonup> task_ref"
  sched_maxQueue :: int

definition NewScheduler :: "int \<Rightarrow> Scheduler" where
  "NewScheduler maxQueueSize =
     (let n = (if maxQueueSize \<le> 0 then 10000 else maxQueueSize)
      in \<lparr>sched_heap = (\<lambda>_. zero_task), sched_next = 0, sched_pending = chan_make n,
          sched_tasks = Map.empty, sched_maxQueue = n\<rparr>)"

text \<open>Allocation of a task object (\<open>types.NewTask\<close> returns a fresh pointer), and a write.\<close>

definition task_alloc :: "Task \<Rightarrow> Scheduler \<Rightarrow> task_ref \<times> Scheduler" where
  "task_alloc t s = (sched_next s,
     s\<lparr>sched_heap := (sched_heap s)(sched_next s := t), sched_next := Suc (sched_next s)\<rparr>)"

definition task_upd :: "task_ref \<Rightarrow> (Task \<Rightarrow> Task) \<Rightarrow> Scheduler \<Rightarrow> Scheduler" where
  "task_upd r f s = s\<lparr>sched_heap := (sched_heap s)(r := f (sched_heap s r))\<rparr>"

section \<open>Operations\<close>

text \<open>
  \<open>Enqueue\<close> is two critical sections with a channel operation between them. Each part is a
  definition, so that the interleaving model can run other goroutines in between.
\<close>

definition enqueue_insert :: "task_ref \<Rightarrow> Scheduler \<Rightarrow> sched_error option \<times> Scheduler" where
  "enqueue_insert r s =
     (let i = task_ID (sched_heap s r) in
      if sched_tasks s i \<noteq> None then (Some ErrTaskExists, s)
      else (None, (task_upd r (\<lambda>t. t\<lparr>task_Status := TaskStatusPending\<rparr>) s)
                    \<lparr>sched_tasks := (sched_tasks s)(i \<mapsto> r)\<rparr>))"

definition sched_send :: "task_ref \<Rightarrow> Scheduler \<Rightarrow> Scheduler option" where
  "sched_send r s = map_option (\<lambda>c. s\<lparr>sched_pending := c\<rparr>) (chan_send r (sched_pending s))"

definition enqueue_undo :: "task_ref \<Rightarrow> Scheduler \<Rightarrow> Scheduler" where
  "enqueue_undo r s = s\<lparr>sched_tasks := go_delete (task_ID (sched_heap s r)) (sched_tasks s)\<rparr>"

definition Enqueue :: "task_ref \<Rightarrow> Scheduler \<Rightarrow> sched_error option \<times> Scheduler" where
  "Enqueue r s =
     (case enqueue_insert r s of
        (Some e, s1) \<Rightarrow> (Some e, s1)
      | (None, s1) \<Rightarrow>
          (case sched_send r s1 of
             Some s2 \<Rightarrow> (None, s2)
           | None \<Rightarrow> (Some ErrQueueFull, enqueue_undo r s1)))"

definition sched_recv :: "Scheduler \<Rightarrow> (task_ref \<times> Scheduler) option" where
  "sched_recv s = map_option (\<lambda>(r, c). (r, s\<lparr>sched_pending := c\<rparr>)) (chan_recv (sched_pending s))"

text \<open>
  \<open>Dequeue\<close> selects between \<open>ctx.Done()\<close> and the channel. When both are ready Go picks
  either one: \<open>pick_done\<close> is that choice. \<open>DequeueBlocked\<close> is a call that has to wait.
\<close>

datatype dequeue_result =
  DequeueBlocked | DequeueCancelled | Dequeued task_ref Scheduler

definition Dequeue :: "bool \<Rightarrow> bool \<Rightarrow> Scheduler \<Rightarrow> dequeue_result" where
  "Dequeue ctx_done pick_done s =
     (case sched_recv s of
        None \<Rightarrow> (if ctx_done then DequeueCancelled else DequeueBlocked)
      | Some (r, s') \<Rightarrow> (if ctx_done \<and> pick_done then DequeueCancelled else Dequeued r s'))"

definition MarkRunning :: "string \<Rightarrow> string \<Rightarrow> time \<Rightarrow> Scheduler \<Rightarrow> sched_error option \<times> Scheduler" where
  "MarkRunning taskID workerID now s =
     (case sched_tasks s taskID of
        None \<Rightarrow> (Some ErrTaskNotFound, s)
      | Some r \<Rightarrow> (None, task_upd r (\<lambda>t. t\<lparr>task_Status := TaskStatusRunning,
                    task_StartedAt := Some now, task_WorkerID := workerID\<rparr>) s))"

text \<open>\<open>MarkComplete\<close> and \<open>MarkFailed\<close> take a result and an error that they do not read.\<close>

definition MarkComplete :: "string \<Rightarrow> Result \<Rightarrow> time \<Rightarrow> Scheduler \<Rightarrow> sched_error option \<times> Scheduler" where
  "MarkComplete taskID result now s =
     (case sched_tasks s taskID of
        None \<Rightarrow> (Some ErrTaskNotFound, s)
      | Some r \<Rightarrow> (None, task_upd r (\<lambda>t. t\<lparr>task_Status := TaskStatusCompleted,
                    task_CompletedAt := Some now\<rparr>) s))"

definition MarkFailed :: "string \<Rightarrow> 'e \<Rightarrow> time \<Rightarrow> Scheduler \<Rightarrow> sched_error option \<times> Scheduler" where
  "MarkFailed taskID err now s =
     (case sched_tasks s taskID of
        None \<Rightarrow> (Some ErrTaskNotFound, s)
      | Some r \<Rightarrow> (None, task_upd r (\<lambda>t. t\<lparr>task_Status := TaskStatusFailed,
                    task_CompletedAt := Some now\<rparr>) s))"

definition requeue_reset :: "task_ref \<Rightarrow> Scheduler \<Rightarrow> Scheduler" where
  "requeue_reset r = task_upd r (\<lambda>t. t\<lparr>task_Retries := wrap64 (task_Retries t + 1),
     task_Status := TaskStatusPending, task_WorkerID := '''', task_StartedAt := None\<rparr>)"

definition Requeue :: "task_ref \<Rightarrow> Scheduler \<Rightarrow> sched_error option \<times> Scheduler" where
  "Requeue r s =
     (let s1 = requeue_reset r s in
      case sched_send r s1 of
        Some s2 \<Rightarrow> (None, s2)
      | None \<Rightarrow> (Some ErrQueueFull, s1))"

definition GetTask :: "string \<Rightarrow> Scheduler \<Rightarrow> task_ref option" where
  "GetTask i s = sched_tasks s i"

definition PendingCount :: "Scheduler \<Rightarrow> int" where
  "PendingCount s = chan_len (sched_pending s)"

text \<open>\<open>statusFilter = 0\<close>, that is \<open>TaskStatusCreated\<close>, lists every task; \<open>ks\<close> is the order
  in which the runtime visits the table.\<close>

definition ListTasks :: "TaskStatus \<Rightarrow> int \<Rightarrow> int \<Rightarrow> string list \<Rightarrow> Scheduler \<Rightarrow> task_ref list" where
  "ListTasks statusFilter limit offset ks s =
     page_loop (\<lambda>r. \<not> (statusFilter \<noteq> TaskStatusCreated \<and>
                        task_Status (sched_heap s r) \<noteq> statusFilter))
       limit offset 0 [] (go_values (sched_tasks s) ks)"

text \<open>
  \<open>Run\<close> loops over a \<open>select\<close>. The list says which ready case each round picks; the loop
  returns (\<open>None\<close> for the rest) on \<open>ctx.Done()\<close>, and waits when it picks an empty channel.
\<close>

datatype select_case = PickDone | PickTask

fun sched_run :: "(task_ref \<Rightarrow> Scheduler \<Rightarrow> Scheduler) \<Rightarrow> select_case list \<Rightarrow> Scheduler \<Rightarrow> bool \<times> Scheduler" where
  "sched_run dispatch [] s = (False, s)"
| "sched_run dispatch (PickDone # ps) s = (True, s)"
| "sched_run dispatch (PickTask # ps) s =
     (case sched_recv s of
        None \<Rightarrow> (False, s)
      | Some (r, s') \<Rightarrow> sched_run dispatch ps (dispatch r s'))"

section \<open>The queue of pending tasks offers the queue interface\<close>

abbreviation pending_refs :: "Scheduler \<Rightarrow> task_ref list" where
  "pending_refs s \<equiv> chan_buf (sched_pending s)"

abbreviation queue_cap :: "Scheduler \<Rightarrow> int" where
  "queue_cap s \<equiv> chan_cap (sched_pending s)"

lemma sched_send_simps:
  "sched_send r s = None \<longleftrightarrow> queue_cap s \<le> int (length (pending_refs s))"
  "sched_send r s = Some s' \<longleftrightarrow> int (length (pending_refs s)) < queue_cap s \<and>
     s' = s\<lparr>sched_pending := Chan (pending_refs s @ [r]) (queue_cap s)\<rparr>"
  by (auto simp: sched_send_def chan_send_def)

lemma sched_recv_simps:
  "sched_recv s = None \<longleftrightarrow> pending_refs s = []"
  "sched_recv s = Some (r, s') \<longleftrightarrow> (\<exists>xs. pending_refs s = r # xs \<and>
     s' = s\<lparr>sched_pending := Chan xs (queue_cap s)\<rparr>)"
  by (auto simp: sched_recv_def) (metis chan.collapse chan.sel)+

interpretation pending: bounded_queue pending_refs queue_cap sched_send sched_recv
proof unfold_locales
  fix q :: Scheduler and x xs
  assume "pending_refs q = x # xs"
  then have "sched_recv q = Some (x, q\<lparr>sched_pending := Chan xs (queue_cap q)\<rparr>)"
    by (simp add: sched_recv_simps)
  then show "\<exists>q'. sched_recv q = Some (x, q') \<and> pending_refs q' = xs" by fastforce
qed (auto simp: sched_send_simps sched_recv_simps)

section \<open>Well-formed schedulers\<close>

text \<open>
  Table and channel agree with the heap: an entry points to an allocated task that carries
  the entry's key, a queued pointer is the table's entry for its task, and the channel holds
  at most \<open>maxQueue\<close> pointers.
\<close>

definition table_ok :: "Scheduler \<Rightarrow> bool" where
  "table_ok s \<longleftrightarrow> finite (dom (sched_tasks s)) \<and>
     (\<forall>i r. sched_tasks s i = Some r \<longrightarrow> r < sched_next s \<and> i = task_ID (sched_heap s r))"

definition known :: "task_ref \<Rightarrow> Scheduler \<Rightarrow> bool" where
  "known r s \<longleftrightarrow> sched_tasks s (task_ID (sched_heap s r)) = Some r"

definition queue_ok :: "Scheduler \<Rightarrow> bool" where
  "queue_ok s \<longleftrightarrow> (\<forall>r \<in> set (pending_refs s). known r s) \<and>
     int (length (pending_refs s)) \<le> queue_cap s \<and>
     queue_cap s = sched_maxQueue s \<and> 0 < sched_maxQueue s"

definition sched_wf :: "Scheduler \<Rightarrow> bool" where
  "sched_wf s \<longleftrightarrow> table_ok s \<and> queue_ok s"

lemma table_okI:
  "finite (dom (sched_tasks s)) \<Longrightarrow>
   (\<And>i r. sched_tasks s i = Some r \<Longrightarrow> r < sched_next s \<and> i = task_ID (sched_heap s r)) \<Longrightarrow>
   table_ok s"
  unfolding table_ok_def by blast

lemma sched_wf_finite [simp]: "sched_wf s \<Longrightarrow> finite (dom (sched_tasks s))"
  unfolding sched_wf_def table_ok_def by blast

lemma sched_wf_tableD:
  "sched_wf s \<Longrightarrow> sched_tasks s i = Some r \<Longrightarrow> r < sched_next s \<and> task_ID (sched_heap s r) = i"
  unfolding sched_wf_def table_ok_def by blast

lemma sched_wf_pendingD: "sched_wf s \<Longrightarrow> r \<in> set (pending_refs s) \<Longrightarrow> known r s"
  unfolding sched_wf_def queue_ok_def by blast

lemma sched_wf_boundD:
  "sched_wf s \<Longrightarrow> int (length (pending_refs s)) \<le> sched_maxQueue s \<and> queue_cap s = sched_maxQueue s"
  unfolding sched_wf_def queue_ok_def by simp

lemma known_allocated: "sched_wf s \<Longrightarrow> known r s \<Longrightarrow> r < sched_next s"
  by (auto simp: known_def dest: sched_wf_tableD)

text \<open>
  A write that keeps the task's ID, which is every write the scheduler makes, keeps the
  invariant and whatever the table knows.
\<close>

lemma task_upd_frame [frame, simp]:
  "sched_tasks (task_upd r f s) = sched_tasks s"
  "sched_pending (task_upd r f s) = sched_pending s"
  "sched_next (task_upd r f s) = sched_next s"
  "sched_maxQueue (task_upd r f s) = sched_maxQueue s"
  "sched_heap (task_upd r f s) = (sched_heap s)(r := f (sched_heap s r))"
  by (simp_all add: task_upd_def)

lemma known_task_upd:
  "(\<And>t. task_ID (f t) = task_ID t) \<Longrightarrow> known q (task_upd r f s) = known q s"
  by (simp add: known_def)

lemma sched_wf_task_upd:
  assumes "\<And>t. task_ID (f t) = task_ID t"
  shows "sched_wf (task_upd r f s) = sched_wf s"
proof -
  have "task_ID (sched_heap (task_upd r f s) q) = task_ID (sched_heap s q)" for q
    by (simp add: assms)
  then show ?thesis
    by (simp only: sched_wf_def table_ok_def queue_ok_def known_def task_upd_frame(1-4))
qed

lemma sched_wf_New: "sched_wf (NewScheduler n)"
  by (simp add: sched_wf_def table_ok_def queue_ok_def NewScheduler_def chan_make_def Let_def)

lemma task_alloc_frame [frame, simp]:
  "sched_tasks (snd (task_alloc t s)) = sched_tasks s"
  "sched_pending (snd (task_alloc t s)) = sched_pending s"
  "sched_maxQueue (snd (task_alloc t s)) = sched_maxQueue s"
  "sched_next (snd (task_alloc t s)) = Suc (sched_next s)"
  "sched_heap (snd (task_alloc t s)) = (sched_heap s)(sched_next s := t)"
  "fst (task_alloc t s) = sched_next s"
  by (simp_all add: task_alloc_def)

lemma known_alloc: "r < sched_next s \<Longrightarrow> known r (snd (task_alloc t s)) = known r s"
  by (simp add: known_def)

lemma sched_wf_alloc:
  assumes wf: "sched_wf s"
  shows "sched_wf (snd (task_alloc t s))"
proof -
  let ?s = "snd (task_alloc t s)"
  have tab: "r < sched_next ?s \<and> i = task_ID (sched_heap ?s r)" if "sched_tasks ?s i = Some r" for i r
    using sched_wf_tableD [OF wf, of i r] that by auto
  have fin: "finite (dom (sched_tasks ?s))" by (simp add: wf)
  have "table_ok ?s" by (rule table_okI [OF fin tab])
  moreover have "known r ?s" if "r \<in> set (pending_refs s)" for r
    using sched_wf_pendingD [OF wf that] known_allocated [OF wf] by (simp add: known_alloc)
  then have "queue_ok ?s"
    using wf by (simp add: sched_wf_def queue_ok_def)
  ultimately show ?thesis by (simp add: sched_wf_def)
qed

lemma known_pending_update [simp]: "known r (s\<lparr>sched_pending := c\<rparr>) = known r s"
  by (simp add: known_def)

lemma table_ok_pending_update [simp]: "table_ok (s\<lparr>sched_pending := c\<rparr>) = table_ok s"
  by (simp add: table_ok_def)

lemma sched_wf_send: "sched_wf s \<Longrightarrow> known r s \<Longrightarrow> sched_send r s = Some s' \<Longrightarrow> sched_wf s'"
  by (auto simp: sched_wf_def queue_ok_def sched_send_simps)

lemma sched_wf_recv: "sched_wf s \<Longrightarrow> sched_recv s = Some (r, s') \<Longrightarrow> sched_wf s' \<and> known r s'"
  by (auto simp: sched_wf_def queue_ok_def sched_recv_simps)

lemma enqueue_insert_cases:
  obtains (exists) "sched_tasks s (task_ID (sched_heap s r)) \<noteq> None"
      "enqueue_insert r s = (Some ErrTaskExists, s)"
  | (new) "sched_tasks s (task_ID (sched_heap s r)) = None"
      "enqueue_insert r s = (None, (task_upd r (\<lambda>t. t\<lparr>task_Status := TaskStatusPending\<rparr>) s)
         \<lparr>sched_tasks := (sched_tasks s)(task_ID (sched_heap s r) \<mapsto> r)\<rparr>)"
  by (cases "sched_tasks s (task_ID (sched_heap s r))") (auto simp: enqueue_insert_def Let_def)

lemma sched_wf_table_insert:
  assumes wf: "sched_wf s" and r: "r < sched_next s"
    and new: "sched_tasks s (task_ID (sched_heap s r)) = None"
  shows "sched_wf (s\<lparr>sched_tasks := (sched_tasks s)(task_ID (sched_heap s r) \<mapsto> r)\<rparr>)"
proof -
  let ?s = "s\<lparr>sched_tasks := (sched_tasks s)(task_ID (sched_heap s r) \<mapsto> r)\<rparr>"
  have tab: "q < sched_next ?s \<and> i = task_ID (sched_heap ?s q)" if "sched_tasks ?s i = Some q" for i q
    using that r sched_wf_tableD [OF wf, of i q] by (auto split: if_splits)
  have fin: "finite (dom (sched_tasks ?s))" by (simp add: wf)
  have "table_ok ?s" by (rule table_okI [OF fin tab])
  moreover have "known q ?s" if "q \<in> set (pending_refs s)" for q
    using sched_wf_pendingD [OF wf that] new by (auto simp: known_def)
  then have "queue_ok ?s"
    using wf by (simp add: sched_wf_def queue_ok_def)
  ultimately show ?thesis by (simp add: sched_wf_def)
qed

lemma sched_wf_insert:
  assumes wf: "sched_wf s" and r: "r < sched_next s" and ins: "enqueue_insert r s = (None, s')"
  shows "sched_wf s'" and "known r s'"
proof -
  define s1 where "s1 = task_upd r (\<lambda>t. t\<lparr>task_Status := TaskStatusPending\<rparr>) s"
  have i1: "task_ID (sched_heap s1 r) = task_ID (sched_heap s r)" by (simp add: s1_def)
  from ins have new: "sched_tasks s1 (task_ID (sched_heap s1 r)) = None"
    and s': "s' = s1\<lparr>sched_tasks := (sched_tasks s1)(task_ID (sched_heap s1 r) \<mapsto> r)\<rparr>"
    by (auto simp: enqueue_insert_def Let_def s1_def split: if_splits)
  have "sched_wf s1" using wf by (simp add: s1_def sched_wf_task_upd)
  moreover have "r < sched_next s1" using r by (simp add: s1_def)
  ultimately show "sched_wf s'" unfolding s' using new by (rule sched_wf_table_insert)
  show "known r s'" by (simp add: s' known_def)
qed

lemma sched_wf_undo:
  assumes wf: "sched_wf s" and r: "r \<notin> set (pending_refs s)" and k: "known r s"
  shows "sched_wf (enqueue_undo r s)"
proof -
  let ?s = "enqueue_undo r s"
  have tab: "q < sched_next ?s \<and> i = task_ID (sched_heap ?s q)" if "sched_tasks ?s i = Some q" for i q
    using that sched_wf_tableD [OF wf, of i q] by (simp add: enqueue_undo_def split: if_splits)
  have fin: "finite (dom (sched_tasks ?s))" by (simp add: wf enqueue_undo_def)
  have "table_ok ?s" by (rule table_okI [OF fin tab])
  moreover have "known q ?s" if "q \<in> set (pending_refs s)" for q
  proof -
    from that r have "q \<noteq> r" by blast
    moreover from that have "known q s" by (rule sched_wf_pendingD [OF wf])
    ultimately show ?thesis using k by (auto simp: known_def enqueue_undo_def)
  qed
  moreover have "sched_pending ?s = sched_pending s" "sched_maxQueue ?s = sched_maxQueue s"
    by (simp_all add: enqueue_undo_def)
  ultimately show ?thesis
    using wf unfolding sched_wf_def queue_ok_def by simp
qed

lemma sched_wf_mark:
  "sched_wf s \<Longrightarrow> sched_wf (snd (MarkRunning i w now s))"
  "sched_wf s \<Longrightarrow> sched_wf (snd (MarkComplete i res now s))"
  "sched_wf s \<Longrightarrow> sched_wf (snd (MarkFailed i e now s))"
  by (auto simp: MarkRunning_def MarkComplete_def MarkFailed_def sched_wf_task_upd
      split: option.splits)

lemma sched_wf_requeue_reset: "sched_wf (requeue_reset r s) = sched_wf s"
  by (simp add: requeue_reset_def sched_wf_task_upd)

lemma known_requeue_reset: "known q (requeue_reset r s) = known q s"
  by (simp add: requeue_reset_def known_task_upd)

lemma sched_wf_Requeue:
  assumes "sched_wf s" and "known r s"
  shows "sched_wf (snd (Requeue r s))"
proof (cases "sched_send r (requeue_reset r s)")
  case None
  with assms show ?thesis by (simp add: Requeue_def Let_def sched_wf_requeue_reset)
next
  case (Some s2)
  have "sched_wf s2"
    by (rule sched_wf_send [OF _ _ Some])
       (simp_all add: assms sched_wf_requeue_reset known_requeue_reset)
  with Some show ?thesis by (simp add: Requeue_def Let_def)
qed

lemma sched_wf_Enqueue:
  assumes wf: "sched_wf s" and r: "r < sched_next s"
  shows "sched_wf (snd (Enqueue r s))"
proof (cases rule: enqueue_insert_cases [of s r])
  case exists
  with wf show ?thesis by (simp add: Enqueue_def)
next
  case new
  define s1 where "s1 = snd (enqueue_insert r s)"
  from new have ins: "enqueue_insert r s = (None, s1)" by (simp add: s1_def)
  note w = sched_wf_insert [OF wf r ins]
  have "pending_refs s1 = pending_refs s" using new(2) by (simp add: s1_def)
  moreover have "r \<notin> set (pending_refs s)"
    using new(1) sched_wf_pendingD [OF wf, of r] by (auto simp: known_def)
  ultimately have "sched_wf (enqueue_undo r s1)" by (intro sched_wf_undo w) simp
  with w ins show ?thesis
    by (cases "sched_send r s1") (simp_all add: Enqueue_def sched_wf_send)
qed

section \<open>What the queue promises\<close>

lemma Enqueue_exists:
  "sched_tasks s (task_ID (sched_heap s r)) \<noteq> None \<Longrightarrow> Enqueue r s = (Some ErrTaskExists, s)"
  by (simp add: Enqueue_def enqueue_insert_def)

lemma Enqueue_full:
  assumes "sched_tasks s (task_ID (sched_heap s r)) = None"
    and "queue_cap s \<le> int (length (pending_refs s))"
  shows "Enqueue r s = (Some ErrQueueFull, task_upd r (\<lambda>t. t\<lparr>task_Status := TaskStatusPending\<rparr>) s)"
proof -
  let ?s1 = "task_upd r (\<lambda>t. t\<lparr>task_Status := TaskStatusPending\<rparr>) s"
  let ?s2 = "?s1\<lparr>sched_tasks := (sched_tasks s)(task_ID (sched_heap s r) \<mapsto> r)\<rparr>"
  have "enqueue_insert r s = (None, ?s2)"
    using assms(1) by (simp add: enqueue_insert_def)
  moreover have "sched_send r ?s2 = None"
    using assms(2) by (simp add: sched_send_simps)
  moreover have "go_delete (task_ID (sched_heap s r)) ((sched_tasks s)(task_ID (sched_heap s r) \<mapsto> r)) = sched_tasks s"
    using assms(1) by (auto simp: fun_eq_iff)
  then have "enqueue_undo r ?s2 = ?s1"
    by (simp add: enqueue_undo_def task_upd_def)
  ultimately show ?thesis by (simp add: Enqueue_def)
qed

lemma Enqueue_room:
  assumes "sched_tasks s (task_ID (sched_heap s r)) = None"
    and "int (length (pending_refs s)) < queue_cap s"
  shows "Enqueue r s = (None, (task_upd r (\<lambda>t. t\<lparr>task_Status := TaskStatusPending\<rparr>) s)
     \<lparr>sched_tasks := (sched_tasks s)(task_ID (sched_heap s r) \<mapsto> r),
      sched_pending := Chan (pending_refs s @ [r]) (queue_cap s)\<rparr>)"
proof -
  let ?s2 = "(task_upd r (\<lambda>t. t\<lparr>task_Status := TaskStatusPending\<rparr>) s)
    \<lparr>sched_tasks := (sched_tasks s)(task_ID (sched_heap s r) \<mapsto> r)\<rparr>"
  have "enqueue_insert r s = (None, ?s2)"
    using assms(1) by (simp add: enqueue_insert_def)
  moreover have "sched_send r ?s2 = Some (?s2\<lparr>sched_pending := Chan (pending_refs s @ [r]) (queue_cap s)\<rparr>)"
    using assms(2) by (simp add: sched_send_simps)
  ultimately show ?thesis by (simp add: Enqueue_def)
qed

text \<open>Claim C11: every call of \<open>Enqueue\<close> on a well-formed scheduler keeps it well-formed, and
  either rejects a task ID it knows and changes nothing, or, when the queue is full, takes the
  table entry back and leaves table and queue as they were, or files the task as PENDING and puts
  it at the end of the queue. It never waits, and the queue never outgrows its bound.\<close>

theorem Enqueue_outcome:
  assumes "sched_wf s" and "r < sched_next s"
  shows "let i = task_ID (sched_heap s r); e = fst (Enqueue r s); s' = snd (Enqueue r s)
    in sched_wf s' \<and> PendingCount s' \<le> sched_maxQueue s' \<and>
       (if sched_tasks s i \<noteq> None then e = Some ErrTaskExists \<and> s' = s
        else if sched_maxQueue s \<le> PendingCount s
        then e = Some ErrQueueFull \<and> sched_tasks s' = sched_tasks s \<and> pending_refs s' = pending_refs s
        else e = None \<and> sched_tasks s' = (sched_tasks s)(i \<mapsto> r) \<and>
             pending_refs s' = pending_refs s @ [r] \<and>
             task_Status (sched_heap s' r) = TaskStatusPending)"
proof -
  have wf: "sched_wf (snd (Enqueue r s))" by (rule sched_wf_Enqueue [OF assms])
  have bound: "PendingCount (snd (Enqueue r s)) \<le> sched_maxQueue (snd (Enqueue r s))"
    using sched_wf_boundD [OF wf] by (simp add: PendingCount_def chan_len_def)
  have cap: "queue_cap s = sched_maxQueue s" using sched_wf_boundD [OF assms(1)] by simp
  show ?thesis
  proof (cases "sched_tasks s (task_ID (sched_heap s r)) = None")
    case True
    then show ?thesis
      using wf bound cap Enqueue_full [OF True] Enqueue_room [OF True]
      by (cases "sched_maxQueue s \<le> PendingCount s") (simp_all add: Let_def PendingCount_def chan_len_def)
  next
    case False
    then show ?thesis using wf bound by (simp add: Let_def Enqueue_exists)
  qed
qed

theorem Enqueue_outcome_witness:
  "let s = snd (task_alloc (NewTask ''j'' ''command'' [1] 0) (NewScheduler 1))
   in pending_refs (snd (Enqueue 0 s)) = [0]"
proof -
  let ?s = "snd (task_alloc (NewTask ''j'' ''command'' [1] 0) (NewScheduler 1))"
  have "sched_wf ?s" by (rule sched_wf_alloc [OF sched_wf_New])
  moreover have "0 < sched_next ?s" by (simp add: NewScheduler_def)
  ultimately show ?thesis
    using Enqueue_outcome [of ?s 0]
    by (simp add: Let_def NewScheduler_def chan_make_def PendingCount_def chan_len_def)
qed

text \<open>A producer that queues a list of tasks, and a consumer that takes \<open>n\<close>.\<close>

fun enqueue_all :: "task_ref list \<Rightarrow> Scheduler \<Rightarrow> Scheduler option" where
  "enqueue_all [] s = Some s"
| "enqueue_all (r # rs) s =
     (case Enqueue r s of (None, s') \<Rightarrow> enqueue_all rs s' | (Some e, s') \<Rightarrow> None)"

fun dequeue_n :: "nat \<Rightarrow> Scheduler \<Rightarrow> (task_ref list \<times> Scheduler) option" where
  "dequeue_n 0 s = Some ([], s)"
| "dequeue_n (Suc n) s =
     (case Dequeue False False s of
        Dequeued r s' \<Rightarrow> map_option (\<lambda>(rs, s''). (r # rs, s'')) (dequeue_n n s')
      | _ \<Rightarrow> None)"

lemma Enqueue_ok_pending:
  "Enqueue r s = (None, s') \<Longrightarrow> pending_refs s' = pending_refs s @ [r]"
  by (cases "sched_tasks s (task_ID (sched_heap s r)) = None";
      cases "int (length (pending_refs s)) < queue_cap s")
     (auto simp: Enqueue_exists Enqueue_full Enqueue_room)

lemma enqueue_all_pending:
  "enqueue_all rs s = Some s' \<Longrightarrow> pending_refs s' = pending_refs s @ rs"
  by (induction rs arbitrary: s)
     (auto dest!: Enqueue_ok_pending split: prod.splits option.splits)

lemma dequeue_n_recv_n: "dequeue_n n s = recv_n sched_recv n s"
  by (induction n arbitrary: s) (auto simp: Dequeue_def split: option.splits)

text \<open>Claim C32: tasks leave the queue in the order in which they were accepted, whatever their
  \<open>Priority\<close> fields say, and none is lost or duplicated on the way.\<close>

theorem queue_is_fifo:
  assumes "pending_refs s = []" and "enqueue_all rs s = Some s'"
  shows "\<exists>s''. dequeue_n (length rs) s' = Some (rs, s'') \<and> pending_refs s'' = []"
  using pending.recv_n_contents [of "length rs" s'] enqueue_all_pending [OF assms(2)] assms(1)
  by (simp add: dequeue_n_recv_n)

theorem queue_is_fifo_witness:
  "let low = (NewTask ''low'' ''command'' [1] 0)\<lparr>task_Priority := 0\<rparr>;
       high = (NewTask ''high'' ''command'' [1] 1)\<lparr>task_Priority := 9\<rparr>;
       s = snd (task_alloc high (snd (task_alloc low (NewScheduler 5))))
   in map_option fst (Option.bind (enqueue_all [0, 1] s) (dequeue_n 2)) = Some [0, 1]"
proof -
  let ?low = "(NewTask ''low'' ''command'' [1] 0)\<lparr>task_Priority := 0\<rparr>"
  let ?high = "(NewTask ''high'' ''command'' [1] 1)\<lparr>task_Priority := 9\<rparr>"
  let ?s = "snd (task_alloc ?high (snd (task_alloc ?low (NewScheduler 5))))"
  obtain s' where s': "enqueue_all [0, 1] ?s = Some s'"
    by (simp add: Enqueue_room NewScheduler_def chan_make_def task_alloc_def task_upd_def NewTask_def)
  have "pending_refs ?s = []" by (simp add: NewScheduler_def chan_make_def)
  from queue_is_fifo [OF this s'] show ?thesis
    unfolding Let_def s' by (auto simp: numeral_2_eq_2)
qed

end
