(* ===== verification/Store.thy ===== *)
theory Store
  imports Types Paging
begin

text \<open>
  \<open>internal/master/store.go\<close>: the in-memory table of jobs and results, and the interface
  through which the request handlers and the dispatcher use it.
\<close>

section \<open>State and operations\<close>

record Job =
  job_ID :: string
  job_TaskType :: string
  job_Payload :: bytes
  job_Priority :: int
  job_Timeout :: duration
  job_Metadata :: metadata
  job_CreatedAt :: time
  job_Status :: TaskStatus
  job_Result :: "Result option"

record Store =
  store_jobs :: "string \<rightharpoonup> Job"
  store_results :: "string \<rightharpoonup> Result"

definition NewStore :: Store where
  "NewStore = \<lparr>store_jobs = Map.empty, store_results = Map.empty\<rparr>"

definition SaveJob :: "Job \<Rightarrow> Store \<Rightarrow> Store" where
  "SaveJob job s = s\<lparr>store_jobs := (store_jobs s)(job_ID job \<mapsto> job)\<rparr>"

definition GetJob :: "string \<Rightarrow> Store \<Rightarrow> Job option" where
  "GetJob i s = store_jobs s i"

definition UpdateJobStatus :: "string \<Rightarrow> TaskStatus \<Rightarrow> Store \<Rightarrow> Store" where
  "UpdateJobStatus i status s =
     (case store_jobs s i of
        None \<Rightarrow> s
      | Some job \<Rightarrow> s\<lparr>store_jobs := (store_jobs s)(i \<mapsto> job\<lparr>job_Status := status\<rparr>)\<rparr>)"

definition result_job_status :: "Result \<Rightarrow> TaskStatus" where
  "result_job_status res = (if IsSuccess res then TaskStatusCompleted else TaskStatusFailed)"

definition SaveResult :: "Result \<Rightarrow> Store \<Rightarrow> Store" where
  "SaveResult res s =
     (let s1 = s\<lparr>store_results := (store_results s)(res_TaskID res \<mapsto> res)\<rparr> in
      case store_jobs s1 (res_TaskID res) of
        None \<Rightarrow> s1
      | Some job \<Rightarrow> s1\<lparr>store_jobs := (store_jobs s1)(res_TaskID res \<mapsto>
          job\<lparr>job_Result := Some res, job_Status := result_job_status res\<rparr>)\<rparr>)"

definition GetResult :: "string \<Rightarrow> Store \<Rightarrow> Result option" where
  "GetResult i s = store_results s i"

text \<open>The status filter \<open>0\<close>, \<open>TaskStatusCreated\<close>, lists every job.\<close>

definition job_kept :: "TaskStatus \<Rightarrow> Job \<Rightarrow> bool" where
  "job_kept statusFilter job \<longleftrightarrow>
     \<not> (statusFilter \<noteq> TaskStatusCreated \<and> job_Status job \<noteq> statusFilter)"

definition ListJobs :: "TaskStatus \<Rightarrow> int \<Rightarrow> int \<Rightarrow> string list \<Rightarrow> Store \<Rightarrow> Job list" where
  "ListJobs statusFilter limit offset ks s =
     page_loop (job_kept statusFilter) limit offset 0 [] (go_values (store_jobs s) ks)"

definition Count :: "Store \<Rightarrow> int" where
  "Count s = go_len (store_jobs s)"

text \<open>\<open>counts[job.Status]++\<close> for each job: a missing key counts as 0.\<close>

fun count_loop :: "(TaskStatus \<rightharpoonup> int) \<Rightarrow> Job list \<Rightarrow> (TaskStatus \<rightharpoonup> int)" where
  "count_loop counts [] = counts"
| "count_loop counts (job # jobs) =
     count_loop (counts(job_Status job \<mapsto>
       (case counts (job_Status job) of None \<Rightarrow> 0 | Some n \<Rightarrow> n) + 1)) jobs"

definition CountByStatus :: "string list \<Rightarrow> Store \<Rightarrow> (TaskStatus \<rightharpoonup> int)" where
  "CountByStatus ks s = count_loop Map.empty (go_values (store_jobs s) ks)"

section \<open>The interface of a job store\<close>

text \<open>
  What a client may rely on: a lookup returns the job last saved under its ID, with the
  status last written to it and the result last saved for it; writes to an unknown ID are
  dropped, and writes to one ID leave the others alone.
\<close>

locale job_store =
  fixes save :: "Job \<Rightarrow> 'st \<Rightarrow> 'st"
    and get :: "string \<Rightarrow> 'st \<Rightarrow> Job option"
    and set_status :: "string \<Rightarrow> TaskStatus \<Rightarrow> 'st \<Rightarrow> 'st"
    and save_result :: "Result \<Rightarrow> 'st \<Rightarrow> 'st"
  assumes get_save: "get i (save j s) = (if i = job_ID j then Some j else get i s)"
    and get_set_status:
      "get i (set_status k st s) =
       (if i = k then map_option (\<lambda>j. j\<lparr>job_Status := st\<rparr>) (get i s) else get i s)"
    and get_save_result:
      "get i (save_result r s) =
       (if i = res_TaskID r
        then map_option (\<lambda>j. j\<lparr>job_Result := Some r, job_Status := result_job_status r\<rparr>) (get i s)
        else get i s)"
begin

lemmas get_simps = get_save get_set_status get_save_result

lemma known_stable:
  "get i (save j s) = None \<longleftrightarrow> i \<noteq> job_ID j \<and> get i s = None"
  "get i (set_status k st s) = None \<longleftrightarrow> get i s = None"
  "get i (save_result r s) = None \<longleftrightarrow> get i s = None"
  by (auto simp: get_simps)

lemma last_status_wins: "get i (set_status i a (set_status i b s)) = get i (set_status i a s)"
  by (cases "get i s") (simp_all add: get_simps)

text \<open>A result overwrites whatever status was written before it.\<close>

lemma result_overwrites_status:
  "res_TaskID r = i \<Longrightarrow>
   get i (save_result r (set_status i st s)) = get i (save_result r s)"
  by (cases "get i s") (simp_all add: get_simps)

lemma status_after_result:
  "get (res_TaskID r) (save_result r s) = Some j \<Longrightarrow>
   job_Status j \<in> {TaskStatusCompleted, TaskStatusFailed} \<and> job_Result j = Some r"
  by (auto simp: get_simps result_job_status_def split: if_splits)

end

interpretation store: job_store SaveJob GetJob UpdateJobStatus SaveResult
  by unfold_locales
     (auto simp: SaveJob_def GetJob_def UpdateJobStatus_def SaveResult_def Let_def
       split: option.splits)

section \<open>Well-formed stores\<close>

text \<open>Every job is filed under its ID, every result under its task's, and there are finitely many.\<close>

definition store_wf :: "Store \<Rightarrow> bool" where
  "store_wf s \<longleftrightarrow> finite (dom (store_jobs s)) \<and>
     (\<forall>i j. store_jobs s i = Some j \<longrightarrow> job_ID j = i \<and>
        (\<forall>r. job_Result j = Some r \<longrightarrow> res_TaskID r = i)) \<and>
     (\<forall>i r. store_results s i = Some r \<longrightarrow> res_TaskID r = i)"

lemma store_wf_New: "store_wf NewStore"
  by (simp add: store_wf_def NewStore_def)

lemma store_wf_SaveJob: "store_wf s \<Longrightarrow> job_Result j = None \<Longrightarrow> store_wf (SaveJob j s)"
  by (auto simp: store_wf_def SaveJob_def)

lemma store_wf_UpdateJobStatus: "store_wf s \<Longrightarrow> store_wf (UpdateJobStatus i st s)"
  by (auto simp: store_wf_def UpdateJobStatus_def split: option.splits)

lemma store_wf_SaveResult: "store_wf s \<Longrightarrow> store_wf (SaveResult r s)"
  by (auto simp: store_wf_def SaveResult_def Let_def split: option.splits)

lemmas store_wf_ops = store_wf_New store_wf_SaveJob store_wf_UpdateJobStatus store_wf_SaveResult

section \<open>Listing and counting\<close>

lemma ListJobs_eq:
  "ListJobs f limit offset ks s =
   take (nat (max 1 limit)) (drop (nat offset) (filter (job_kept f) (go_values (store_jobs s) ks)))"
  by (simp add: ListJobs_def page_loop_eq)

lemma count_loop_apply:
  "count_loop counts jobs st =
   (case counts st of
      None \<Rightarrow> (let n = length (filter (\<lambda>j. job_Status j = st) jobs)
               in if n = 0 then None else Some (int n))
    | Some c \<Rightarrow> Some (c + int (length (filter (\<lambda>j. job_Status j = st) jobs))))"
  by (induction jobs arbitrary: counts) (auto simp: Let_def split: option.splits)

lemma filter_length_mset:
  "mset xs = mset ys \<Longrightarrow> length (filter P xs) = length (filter P ys)"
  by (metis mset_filter size_mset)

text \<open>Counting the jobs by status does not depend on the order in which Go's runtime
  happens to visit the table, and the counts are the numbers of jobs in each status, with no
  entry for a status that no job has.\<close>

theorem CountByStatus_correct:
  assumes "iterates ks (store_jobs s)"
  shows "CountByStatus ks s st =
    (let n = card {i. \<exists>j. store_jobs s i = Some j \<and> job_Status j = st}
     in if n = 0 then None else Some (int n))"
proof -
  let ?P = "\<lambda>j. job_Status j = st"
  have d: "distinct ks" "set ks = dom (store_jobs s)"
    using assms by (simp_all add: iterates_def)
  have "length (filter ?P (go_values (store_jobs s) ks)) =
        length (filter (\<lambda>k. ?P (the (store_jobs s k))) ks)"
    using d by (simp add: go_values_eq_map filter_map comp_def)
  also have "\<dots> = card (set (filter (\<lambda>k. ?P (the (store_jobs s k))) ks))"
    using d by (simp only: distinct_card distinct_filter)
  also have "set (filter (\<lambda>k. ?P (the (store_jobs s k))) ks) =
             {i. \<exists>j. store_jobs s i = Some j \<and> ?P j}"
    using d by (auto simp: dom_def)
  finally show ?thesis
    by (simp add: CountByStatus_def count_loop_apply Let_def)
qed

theorem CountByStatus_correct_witness:
  "CountByStatus [''a''] (SaveJob \<lparr>job_ID = ''a'', job_TaskType = ''command'', job_Payload = [],
     job_Priority = 0, job_Timeout = 0, job_Metadata = Map.empty, job_CreatedAt = 0,
     job_Status = TaskStatusPending, job_Result = None\<rparr> NewStore) TaskStatusPending = Some 1"
  by (subst CountByStatus_correct)
     (auto simp: iterates_def SaveJob_def NewStore_def Let_def)

text \<open>A job, for concrete stores.\<close>

definition sample_job :: "string \<Rightarrow> Job" where
  "sample_job i = \<lparr>job_ID = i, job_TaskType = ''command'', job_Payload = [], job_Priority = 0,
     job_Timeout = 0, job_Metadata = Map.empty, job_CreatedAt = 0,
     job_Status = TaskStatusPending, job_Result = None\<rparr>"

section \<open>Pages\<close>

lemma go_values_distinct_IDs:
  assumes "store_wf s" and "distinct ks"
  shows "distinct (map job_ID (go_values (store_jobs s) ks))"
proof -
  have id: "store_jobs s k = Some j \<Longrightarrow> job_ID j = k" for k j
    using assms(1) by (simp add: store_wf_def)
  have "map job_ID (go_values (store_jobs s) ks) = filter (\<lambda>k. store_jobs s k \<noteq> None) ks"
    by (induction ks) (auto simp: id split: option.splits)
  then show ?thesis using assms(2) by simp
qed

lemma distinct_map_sublist:
  "distinct (map f xs) \<Longrightarrow> distinct (map f (take n (drop m (filter P xs))))"
  by (metis distinct_drop distinct_map_filter distinct_take drop_map take_map)

lemma ListJobs_bounds:
  assumes wf: "store_wf s" and ks: "iterates ks (store_jobs s)"
  shows "distinct (map job_ID (ListJobs f limit offset ks s))"
    and "int (length (ListJobs f limit offset ks s)) \<le> max 1 limit"
    and "set (ListJobs f limit offset ks s) \<subseteq> {j \<in> ran (store_jobs s). job_kept f j}"
proof -
  let ?js = "filter (job_kept f) (go_values (store_jobs s) ks)"
  have "distinct ks" using ks by (simp add: iterates_def)
  then show "distinct (map job_ID (ListJobs f limit offset ks s))"
    unfolding ListJobs_eq by (intro distinct_map_sublist go_values_distinct_IDs [OF wf])
  have "set (take (nat (max 1 limit)) (drop (nat offset) ?js)) \<subseteq> set ?js"
    by (meson order_trans set_drop_subset set_take_subset)
  then show "set (ListJobs f limit offset ks s) \<subseteq> {j \<in> ran (store_jobs s). job_kept f j}"
    using set_go_values_ran [OF ks] by (auto simp: ListJobs_eq)
  show "int (length (ListJobs f limit offset ks s)) \<le> max 1 limit"
    unfolding ListJobs_eq length_take by linarith
qed

lemma ListJobs_append:
  assumes "0 < limit" "0 \<le> offset" "0 < n"
  shows "ListJobs f (limit + n) offset ks s =
    ListJobs f limit offset ks s @ ListJobs f n (offset + limit) ks s"
  using assms by (simp add: ListJobs_eq nat_add_distrib take_add add.commute max_def)

text \<open>A page of jobs shows each job at most once, at most \<open>limit\<close> of them (but one
  when the limit is not positive), all of them in the store and in the wanted status; and the
  first pages of a fixed size, taken in one order of the table, put together are the beginning
  of the full list.\<close>

theorem ListJobs_page:
  assumes wf: "store_wf s" and ks: "iterates ks (store_jobs s)"
  shows "let page = ListJobs f limit offset ks s
    in distinct (map job_ID page) \<and> int (length page) \<le> max 1 limit \<and>
       set page \<subseteq> {j \<in> ran (store_jobs s). job_kept f j} \<and>
       (0 < limit \<and> 0 \<le> offset \<and> 0 < n \<longrightarrow>
          ListJobs f (limit + n) offset ks s = page @ ListJobs f n (offset + limit) ks s)"
  using ListJobs_bounds [OF assms, of f limit offset] ListJobs_append
  by (simp add: Let_def)

theorem ListJobs_page_witness:
  "let s = SaveJob (sample_job ''a'') (SaveJob (sample_job ''b'') NewStore); ks = [''a'', ''b'']
   in ListJobs TaskStatusCreated 2 0 ks s =
      ListJobs TaskStatusCreated 1 0 ks s @ ListJobs TaskStatusCreated 1 1 ks s"
proof -
  let ?s = "SaveJob (sample_job ''a'') (SaveJob (sample_job ''b'') NewStore)"
  have wf: "store_wf ?s" by (intro store_wf_ops) (simp_all add: sample_job_def)
  have "iterates [''a'', ''b''] (store_jobs ?s)"
    by (auto simp: iterates_def SaveJob_def NewStore_def sample_job_def)
  from ListJobs_page [OF wf this, of TaskStatusCreated 1 0 1] show ?thesis
    by (simp add: Let_def)
qed

text \<open>The pages of two calls need not fit together: the runtime may visit the table in
  another order the second time, and then the first and the second page of an unchanged store show
  the same job and the other job is on no page.\<close>

theorem ListJobs_pages_unstable:
  "let s = SaveJob (sample_job ''a'') (SaveJob (sample_job ''b'') NewStore)
   in \<exists>ks ks'. iterates ks (store_jobs s) \<and> iterates ks' (store_jobs s) \<and>
        map job_ID (ListJobs TaskStatusCreated 1 0 ks s) = [''a''] \<and>
        map job_ID (ListJobs TaskStatusCreated 1 1 ks' s) = [''a'']"
  unfolding Let_def
  by (rule exI [of _ "[''a'', ''b'']"], rule exI [of _ "[''b'', ''a'']"])
     (auto simp: iterates_def SaveJob_def NewStore_def sample_job_def ListJobs_eq job_kept_def)

end
