(* ===== verification/NodeRegistry.thy ===== *)
theory NodeRegistry
  imports Prelude
begin

text \<open>
  \<open>internal/master/registry.go\<close>: the worker nodes the master knows, their load and their
  health, and the interfaces through which the request handlers and the dispatcher use it.
\<close>

section \<open>Node status\<close>

datatype NodeStatus = NodeStatusHealthy | NodeStatusUnhealthy | NodeStatusDraining

text \<open>The order of the underlying \<open>iota\<close> constants: from usable to leaving.\<close>

instantiation NodeStatus :: linorder
begin

fun NodeStatus_code :: "NodeStatus \<Rightarrow> nat" where
  "NodeStatus_code NodeStatusHealthy = 0"
| "NodeStatus_code NodeStatusUnhealthy = 1"
| "NodeStatus_code NodeStatusDraining = 2"

definition less_eq_NodeStatus :: "NodeStatus \<Rightarrow> NodeStatus \<Rightarrow> bool" where
  "less_eq_NodeStatus a b \<longleftrightarrow> NodeStatus_code a \<le> NodeStatus_code b"

definition less_NodeStatus :: "NodeStatus \<Rightarrow> NodeStatus \<Rightarrow> bool" where
  "less_NodeStatus a b \<longleftrightarrow> NodeStatus_code a < NodeStatus_code b"

instance
proof
  fix a b :: NodeStatus
  show "a \<le> b \<Longrightarrow> b \<le> a \<Longrightarrow> a = b"
    by (cases a; cases b) (simp_all add: less_eq_NodeStatus_def)
qed (auto simp: less_eq_NodeStatus_def less_NodeStatus_def)

end

fun NodeStatus_String :: "NodeStatus \<Rightarrow> string" where
  "NodeStatus_String NodeStatusHealthy = ''HEALTHY''"
| "NodeStatus_String NodeStatusUnhealthy = ''UNHEALTHY''"
| "NodeStatus_String NodeStatusDraining = ''DRAINING''"

section \<open>Nodes and the registry\<close>

record NodeInfo =
  node_ID :: string
  node_Address :: string
  node_Capabilities :: "string list"
  node_MaxTasks :: int
  node_ActiveTasks :: int
  node_LastSeen :: time
  node_Status :: NodeStatus
  node_Labels :: metadata

text \<open>The struct's zero value, \<open>NodeInfo{}\<close>.\<close>

definition zero_node :: NodeInfo where
  "zero_node = \<lparr>node_ID = '''', node_Address = '''', node_Capabilities = [], node_MaxTasks = 0,
     node_ActiveTasks = 0, node_LastSeen = zero_time, node_Status = NodeStatusHealthy,
     node_Labels = Map.empty\<rparr>"

definition AvailableCapacity :: "NodeInfo \<Rightarrow> int" where
  "AvailableCapacity n = wrap64 (node_MaxTasks n - node_ActiveTasks n)"

text \<open>
  The callback \<open>onNodeRemoved\<close> acts on state outside the registry (the dispatcher's client
  pool), of type \<open>'d\<close>.
\<close>

record 'd NodeRegistry =
  reg_nodes :: "string \<rightharpoonup> NodeInfo"
  reg_heartbeatTimeout :: duration
  reg_unhealthyTimeout :: duration
  reg_onNodeRemoved :: "(string \<Rightarrow> 'd \<Rightarrow> 'd) option"

definition NewNodeRegistry :: "duration \<Rightarrow> duration \<Rightarrow> 'd NodeRegistry" where
  "NewNodeRegistry heartbeatTimeout unhealthyTimeout =
     \<lparr>reg_nodes = Map.empty,
      reg_heartbeatTimeout = (if heartbeatTimeout \<le> 0 then 15 * second else heartbeatTimeout),
      reg_unhealthyTimeout = (if unhealthyTimeout \<le> 0 then 30 * second else unhealthyTimeout),
      reg_onNodeRemoved = None\<rparr>"

definition SetNodeRemovedCallback :: "(string \<Rightarrow> 'd \<Rightarrow> 'd) \<Rightarrow> 'd NodeRegistry \<Rightarrow> 'd NodeRegistry" where
  "SetNodeRemovedCallback cb r = r\<lparr>reg_onNodeRemoved := Some cb\<rparr>"

definition Register :: "NodeInfo \<Rightarrow> time \<Rightarrow> 'd NodeRegistry \<Rightarrow> 'd NodeRegistry" where
  "Register node now r = r\<lparr>reg_nodes := (reg_nodes r)
     (node_ID node \<mapsto> node\<lparr>node_LastSeen := now, node_Status := NodeStatusHealthy\<rparr>)\<rparr>"

definition Deregister :: "string \<Rightarrow> 'd NodeRegistry \<Rightarrow> 'd NodeRegistry" where
  "Deregister nodeID r = r\<lparr>reg_nodes := go_delete nodeID (reg_nodes r)\<rparr>"

text \<open>\<open>Heartbeat\<close> reports an unknown node (as \<open>ErrTaskNotFound\<close>) by \<open>False\<close>.\<close>

definition heartbeat_node :: "int \<Rightarrow> time \<Rightarrow> NodeInfo \<Rightarrow> NodeInfo" where
  "heartbeat_node activeTasks now n =
     (let n1 = n\<lparr>node_LastSeen := now, node_ActiveTasks := activeTasks\<rparr> in
      if node_Status n1 = NodeStatusUnhealthy then n1\<lparr>node_Status := NodeStatusHealthy\<rparr> else n1)"

definition Heartbeat :: "string \<Rightarrow> int \<Rightarrow> time \<Rightarrow> 'd NodeRegistry \<Rightarrow> bool \<times> 'd NodeRegistry" where
  "Heartbeat nodeID activeTasks now r =
     (case reg_nodes r nodeID of
        None \<Rightarrow> (False, r)
      | Some n \<Rightarrow> (True, r\<lparr>reg_nodes := (reg_nodes r)(nodeID \<mapsto> heartbeat_node activeTasks now n)\<rparr>))"

definition GetNode :: "string \<Rightarrow> 'd NodeRegistry \<Rightarrow> NodeInfo option" where
  "GetNode nodeID r = reg_nodes r nodeID"

fun healthy_loop :: "NodeInfo list \<Rightarrow> NodeInfo list \<Rightarrow> NodeInfo list" where
  "healthy_loop healthy [] = healthy"
| "healthy_loop healthy (n # ns) =
     healthy_loop (if node_Status n = NodeStatusHealthy then healthy @ [n] else healthy) ns"

definition GetHealthyNodes :: "string list \<Rightarrow> 'd NodeRegistry \<Rightarrow> NodeInfo list" where
  "GetHealthyNodes ks r = healthy_loop [] (go_values (reg_nodes r) ks)"

definition GetAllNodes :: "string list \<Rightarrow> 'd NodeRegistry \<Rightarrow> NodeInfo list" where
  "GetAllNodes ks r = go_values (reg_nodes r) ks"

definition NodeCount :: "'d NodeRegistry \<Rightarrow> int" where
  "NodeCount r = go_len (reg_nodes r)"

fun healthy_count_loop :: "int \<Rightarrow> NodeInfo list \<Rightarrow> int" where
  "healthy_count_loop c [] = c"
| "healthy_count_loop c (n # ns) =
     healthy_count_loop (if node_Status n = NodeStatusHealthy then c + 1 else c) ns"

definition HealthyNodeCount :: "string list \<Rightarrow> 'd NodeRegistry \<Rightarrow> int" where
  "HealthyNodeCount ks r = healthy_count_loop 0 (go_values (reg_nodes r) ks)"

definition IncrementActiveTasks :: "string \<Rightarrow> 'd NodeRegistry \<Rightarrow> 'd NodeRegistry" where
  "IncrementActiveTasks nodeID r =
     (case reg_nodes r nodeID of
        None \<Rightarrow> r
      | Some n \<Rightarrow> r\<lparr>reg_nodes := (reg_nodes r)
          (nodeID \<mapsto> n\<lparr>node_ActiveTasks := wrap64 (node_ActiveTasks n + 1)\<rparr>)\<rparr>)"

definition DecrementActiveTasks :: "string \<Rightarrow> 'd NodeRegistry \<Rightarrow> 'd NodeRegistry" where
  "DecrementActiveTasks nodeID r =
     (case reg_nodes r nodeID of
        None \<Rightarrow> r
      | Some n \<Rightarrow>
          if 0 < node_ActiveTasks n
          then r\<lparr>reg_nodes := (reg_nodes r)
                 (nodeID \<mapsto> n\<lparr>node_ActiveTasks := node_ActiveTasks n - 1\<rparr>)\<rparr>
          else r)"

text \<open>
  \<open>checkHealth\<close>: the first loop marks silent nodes and collects the dead ones, the second
  deletes those and calls back. Writing to an entry while ranging over the map is allowed in
  Go and does not change which entries are visited.
\<close>

fun health_scan ::
    "time \<Rightarrow> duration \<Rightarrow> duration \<Rightarrow> (string \<rightharpoonup> NodeInfo) \<Rightarrow> string list \<Rightarrow> string list \<Rightarrow>
     (string \<rightharpoonup> NodeInfo) \<times> string list" where
  "health_scan now hb un m toRemove [] = (m, toRemove)"
| "health_scan now hb un m toRemove (i # ks) =
     (case m i of
        None \<Rightarrow> health_scan now hb un m toRemove ks
      | Some n \<Rightarrow>
          let since = time_sub now (node_LastSeen n) in
          if un < since then health_scan now hb un m (toRemove @ [i]) ks
          else if hb < since \<and> node_Status n = NodeStatusHealthy
          then health_scan now hb un (m(i \<mapsto> n\<lparr>node_Status := NodeStatusUnhealthy\<rparr>)) toRemove ks
          else health_scan now hb un m toRemove ks)"

fun health_remove ::
    "(string \<Rightarrow> 'd \<Rightarrow> 'd) option \<Rightarrow> string list \<Rightarrow> (string \<rightharpoonup> NodeInfo) \<Rightarrow> 'd \<Rightarrow>
     (string \<rightharpoonup> NodeInfo) \<times> 'd" where
  "health_remove cb [] m d = (m, d)"
| "health_remove cb (i # ids) m d =
     health_remove cb ids (go_delete i m) (case cb of None \<Rightarrow> d | Some f \<Rightarrow> f i d)"

definition checkHealth :: "time \<Rightarrow> string list \<Rightarrow> 'd NodeRegistry \<Rightarrow> 'd \<Rightarrow> 'd NodeRegistry \<times> 'd" where
  "checkHealth now ks r d =
     (let (m1, toRemove) = health_scan now (reg_heartbeatTimeout r) (reg_unhealthyTimeout r)
                             (reg_nodes r) [] ks;
          (m2, d') = health_remove (reg_onNodeRemoved r) toRemove m1 d
      in (r\<lparr>reg_nodes := m2\<rparr>, d'))"

text \<open>
  \<open>MonitorHealth\<close>: one \<open>checkHealth\<close> per tick of the five-second ticker until the context
  is done (\<open>None\<close>). A tick carries the time and the order of the visit.
\<close>

fun MonitorHealth :: "(time \<times> string list) option list \<Rightarrow> 'd NodeRegistry \<Rightarrow> 'd \<Rightarrow> 'd NodeRegistry \<times> 'd" where
  "MonitorHealth [] r d = (r, d)"
| "MonitorHealth (None # ts) r d = (r, d)"
| "MonitorHealth (Some (now, ks) # ts) r d =
     (let (r', d') = checkHealth now ks r d in MonitorHealth ts r' d')"

section \<open>The interfaces of the registry\<close>

text \<open>A directory of nodes: what a lookup returns after a registration and a removal.\<close>

locale node_directory =
  fixes lookup :: "string \<Rightarrow> 'r \<Rightarrow> NodeInfo option"
    and put :: "NodeInfo \<Rightarrow> time \<Rightarrow> 'r \<Rightarrow> 'r"
    and drop_node :: "string \<Rightarrow> 'r \<Rightarrow> 'r"
  assumes lookup_put: "lookup i (put n now r) =
      (if i = node_ID n
       then Some (n\<lparr>node_LastSeen := now, node_Status := NodeStatusHealthy\<rparr>) else lookup i r)"
    and lookup_drop: "lookup i (drop_node k r) = (if i = k then None else lookup i r)"
begin

lemma drop_put: "lookup i (drop_node (node_ID n) (put n now r)) = lookup i (drop_node (node_ID n) r)"
  by (simp add: lookup_put lookup_drop)

lemma put_put:
  "node_ID n = node_ID n' \<Longrightarrow> lookup i (put n now (put n' now' r)) = lookup i (put n now r)"
  by (simp add: lookup_put)

end

text \<open>
  A directory that also tracks load: two counting operations that touch nothing but one
  node's number of active tasks.
\<close>

locale node_load = node_directory lookup put drop_node
  for lookup :: "string \<Rightarrow> 'r \<Rightarrow> NodeInfo option"
    and put :: "NodeInfo \<Rightarrow> time \<Rightarrow> 'r \<Rightarrow> 'r"
    and drop_node :: "string \<Rightarrow> 'r \<Rightarrow> 'r" +
  fixes inc :: "string \<Rightarrow> 'r \<Rightarrow> 'r"
    and dec :: "string \<Rightarrow> 'r \<Rightarrow> 'r"
  assumes lookup_inc: "lookup i (inc k r) =
      (if i = k then map_option (\<lambda>n. n\<lparr>node_ActiveTasks := wrap64 (node_ActiveTasks n + 1)\<rparr>) (lookup i r)
       else lookup i r)"
    and lookup_dec: "lookup i (dec k r) =
      (if i = k then map_option (\<lambda>n. if 0 < node_ActiveTasks n
           then n\<lparr>node_ActiveTasks := node_ActiveTasks n - 1\<rparr> else n) (lookup i r)
       else lookup i r)"
begin

lemma inc_dec:
  assumes "\<And>n. lookup k r = Some n \<Longrightarrow> 0 \<le> node_ActiveTasks n \<and> node_ActiveTasks n < max_int64"
  shows "lookup i (dec k (inc k r)) = lookup i r"
proof (cases "lookup k r")
  case None
  then show ?thesis by (simp add: lookup_inc lookup_dec)
next
  case (Some n)
  with assms have "wrap64 (node_ActiveTasks n + 1) = node_ActiveTasks n + 1"
    by (intro wrap64_id) (force simp: in64_def)
  with Some assms [OF Some] show ?thesis by (simp add: lookup_inc lookup_dec)
qed

lemma active_after_drop: "lookup k (inc k (drop_node k r)) = None"
  by (simp add: lookup_inc lookup_drop)

lemma dec_nonneg:
  "(\<And>i n. lookup i r = Some n \<Longrightarrow> 0 \<le> node_ActiveTasks n) \<Longrightarrow>
   lookup j (dec k r) = Some m \<Longrightarrow> 0 \<le> node_ActiveTasks m"
  by (fastforce simp: lookup_dec split: if_splits)

end

interpretation directory: node_directory GetNode Register Deregister
  by unfold_locales (auto simp: GetNode_def Register_def Deregister_def)

interpretation load: node_load GetNode Register Deregister IncrementActiveTasks DecrementActiveTasks
  by unfold_locales
     (auto simp: GetNode_def IncrementActiveTasks_def DecrementActiveTasks_def split: option.splits)

section \<open>Well-formed registries\<close>

definition reg_wf :: "'d NodeRegistry \<Rightarrow> bool" where
  "reg_wf r \<longleftrightarrow> finite (dom (reg_nodes r)) \<and>
     (\<forall>i n. reg_nodes r i = Some n \<longrightarrow> i = node_ID n)"

lemma reg_wf_New: "reg_wf (NewNodeRegistry hb un)"
  by (simp add: reg_wf_def NewNodeRegistry_def)

lemma reg_wf_Register: "reg_wf r \<Longrightarrow> reg_wf (Register n now r)"
  by (auto simp: reg_wf_def Register_def)

lemma reg_wf_Deregister: "reg_wf r \<Longrightarrow> reg_wf (Deregister i r)"
  by (auto simp: reg_wf_def Deregister_def split: if_splits)

lemma heartbeat_node_ID [simp]: "node_ID (heartbeat_node a now n) = node_ID n"
  by (simp add: heartbeat_node_def Let_def)

lemma reg_wf_Heartbeat: "reg_wf r \<Longrightarrow> reg_wf (snd (Heartbeat i a now r))"
  by (auto simp: reg_wf_def Heartbeat_def split: option.splits)

lemma reg_wf_active:
  "reg_wf r \<Longrightarrow> reg_wf (IncrementActiveTasks i r)"
  "reg_wf r \<Longrightarrow> reg_wf (DecrementActiveTasks i r)"
  by (auto simp: reg_wf_def IncrementActiveTasks_def DecrementActiveTasks_def split: option.splits)

lemmas reg_wf_ops = reg_wf_New reg_wf_Register reg_wf_Deregister reg_wf_Heartbeat reg_wf_active

section \<open>Healthy nodes\<close>

lemma healthy_loop_filter:
  "healthy_loop acc ns = acc @ filter (\<lambda>n. node_Status n = NodeStatusHealthy) ns"
  by (induction ns arbitrary: acc) auto

lemma healthy_count_loop_filter:
  "healthy_count_loop c ns = c + int (length (filter (\<lambda>n. node_Status n = NodeStatusHealthy) ns))"
  by (induction ns arbitrary: c) auto

lemma GetHealthyNodes_filter:
  "GetHealthyNodes ks r =
   filter (\<lambda>n. node_Status n = NodeStatusHealthy) (go_values (reg_nodes r) ks)"
  by (simp add: GetHealthyNodes_def healthy_loop_filter)

lemma set_GetHealthyNodes:
  "iterates ks (reg_nodes r) \<Longrightarrow> set (GetHealthyNodes ks r) =
   {n \<in> ran (reg_nodes r). node_Status n = NodeStatusHealthy}"
  by (auto simp: GetHealthyNodes_filter set_go_values_ran)

lemma mset_GetHealthyNodes:
  "iterates ks (reg_nodes r) \<Longrightarrow> iterates ks' (reg_nodes r) \<Longrightarrow>
   mset (GetHealthyNodes ks r) = mset (GetHealthyNodes ks' r)"
  by (simp add: GetHealthyNodes_filter mset_go_values [of ks _ ks'])

lemma HealthyNodeCount_eq:
  assumes "iterates ks (reg_nodes r)" and "iterates ks' (reg_nodes r)"
  shows "HealthyNodeCount ks r = int (length (GetHealthyNodes ks' r))"
proof -
  have "length (GetHealthyNodes ks r) = length (GetHealthyNodes ks' r)"
    by (rule mset_eq_length [OF mset_GetHealthyNodes [OF assms]])
  then show ?thesis
    by (simp add: HealthyNodeCount_def healthy_count_loop_filter GetHealthyNodes_filter)
qed

section \<open>The health check\<close>

text \<open>What one check does to one node.\<close>

definition expired :: "time \<Rightarrow> duration \<Rightarrow> NodeInfo \<Rightarrow> bool" where
  "expired now un n \<longleftrightarrow> un < time_sub now (node_LastSeen n)"

definition checked_node :: "time \<Rightarrow> duration \<Rightarrow> NodeInfo \<Rightarrow> NodeInfo" where
  "checked_node now hb n =
     (if hb < time_sub now (node_LastSeen n) \<and> node_Status n = NodeStatusHealthy
      then n\<lparr>node_Status := NodeStatusUnhealthy\<rparr> else n)"

lemma checked_node_degrades: "node_Status n \<le> node_Status (checked_node now hb n)"
  by (simp add: checked_node_def less_eq_NodeStatus_def)

lemma health_scan_removed:
  "distinct ks \<Longrightarrow>
   snd (health_scan now hb un m rem ks) =
   rem @ filter (\<lambda>i. case m i of None \<Rightarrow> False | Some n \<Rightarrow> expired now un n) ks"
proof (induction ks arbitrary: m rem)
  case Nil
  then show ?case by simp
next
  case (Cons i ks)
  have other: "filter (\<lambda>j. case (m(i \<mapsto> x)) j of None \<Rightarrow> False | Some n \<Rightarrow> expired now un n) ks =
      filter (\<lambda>j. case m j of None \<Rightarrow> False | Some n \<Rightarrow> expired now un n) ks" for x
    using Cons.prems by (intro filter_cong) auto
  show ?case
    using Cons.prems
    by (cases "m i") (auto simp: Cons.IH Let_def other expired_def [symmetric] simp del: fun_upd_apply)
qed

lemma health_scan_nodes:
  "distinct ks \<Longrightarrow>
   fst (health_scan now hb un m rem ks) i =
   (case m i of None \<Rightarrow> None
    | Some n \<Rightarrow> Some (if i \<in> set ks \<and> \<not> expired now un n then checked_node now hb n else n))"
proof (induction ks arbitrary: m rem)
  case Nil
  then show ?case by (simp split: option.split)
next
  case (Cons k ks)
  then show ?case
    by (cases "m k"; cases "m i"; cases "i = k")
       (auto simp: Let_def expired_def checked_node_def)
qed

lemma health_remove_eq:
  "health_remove cb ids m d =
   (\<lambda>i. if i \<in> set ids then None else m i,
    case cb of None \<Rightarrow> d | Some f \<Rightarrow> fold f ids d)"
  by (induction ids arbitrary: m d) (auto simp: fun_eq_iff split: option.splits)

lemma checkHealth_nodes:
  assumes "iterates ks (reg_nodes r)"
  shows "reg_nodes (fst (checkHealth now ks r d)) i =
      (case reg_nodes r i of None \<Rightarrow> None
       | Some n \<Rightarrow> if expired now (reg_unhealthyTimeout r) n then None
                   else Some (checked_node now (reg_heartbeatTimeout r) n))"
proof -
  have ks: "distinct ks" "set ks = dom (reg_nodes r)"
    using assms by (simp_all add: iterates_def)
  let ?scan = "health_scan now (reg_heartbeatTimeout r) (reg_unhealthyTimeout r) (reg_nodes r) [] ks"
  have "reg_nodes (fst (checkHealth now ks r d)) i =
      (if i \<in> set (snd ?scan) then None else fst ?scan i)"
    by (simp add: checkHealth_def health_remove_eq split_beta)
  then show ?thesis
    using ks by (auto simp: health_scan_removed health_scan_nodes split: option.splits)
qed

text \<open>Claim C33: one health check, whatever the order in which the runtime visits the nodes,
  removes exactly the nodes not heard of for longer than the unhealthy timeout, calls back
  once for each of them, marks the healthy ones that missed the heartbeat timeout unhealthy,
  and leaves every other node as it was.\<close>

theorem checkHealth_correct:
  assumes "iterates ks (reg_nodes r)"
  shows "reg_nodes (fst (checkHealth now ks r d)) i =
      (case reg_nodes r i of None \<Rightarrow> None
       | Some n \<Rightarrow> if expired now (reg_unhealthyTimeout r) n then None
                   else Some (checked_node now (reg_heartbeatTimeout r) n))
    \<and> (\<exists>removed. distinct removed \<and>
         set removed = {i. \<exists>n. reg_nodes r i = Some n \<and> expired now (reg_unhealthyTimeout r) n} \<and>
         snd (checkHealth now ks r d) =
           (case reg_onNodeRemoved r of None \<Rightarrow> d | Some f \<Rightarrow> fold f removed d))"
proof -
  let ?removed = "snd (health_scan now (reg_heartbeatTimeout r) (reg_unhealthyTimeout r) (reg_nodes r) [] ks)"
  have ks: "distinct ks" "set ks = dom (reg_nodes r)"
    using assms by (simp_all add: iterates_def)
  have "distinct ?removed"
    "set ?removed = {i. \<exists>n. reg_nodes r i = Some n \<and> expired now (reg_unhealthyTimeout r) n}"
    using ks by (auto simp: health_scan_removed split: option.splits)
  moreover have "snd (checkHealth now ks r d) =
      (case reg_onNodeRemoved r of None \<Rightarrow> d | Some f \<Rightarrow> fold f ?removed d)"
    by (simp add: checkHealth_def health_remove_eq split_beta)
  ultimately show ?thesis using checkHealth_nodes [OF assms] by blast
qed

theorem checkHealth_correct_witness:
  "reg_nodes (fst (checkHealth (40 * second) [''w''] (Register (zero_node\<lparr>node_ID := ''w''\<rparr>) 0
     (NewNodeRegistry 0 0)) ())) ''w'' = None"
proof -
  let ?r = "Register (zero_node\<lparr>node_ID := ''w''\<rparr>) 0 (NewNodeRegistry 0 0) :: unit NodeRegistry"
  have it: "iterates [''w''] (reg_nodes ?r)"
    by (simp add: iterates_def Register_def NewNodeRegistry_def)
  show ?thesis
    unfolding checkHealth_correct [OF it, of "40 * second" "()" "''w''", THEN conjunct1]
    by (simp add: Register_def NewNodeRegistry_def expired_def time_sub_def second_def)
qed

lemma checked_node_ID [simp]: "node_ID (checked_node now hb n) = node_ID n"
  by (simp add: checked_node_def)

lemma reg_wf_checkHealth:
  assumes "reg_wf r" and "iterates ks (reg_nodes r)"
  shows "reg_wf (fst (checkHealth now ks r d))"
proof -
  have "dom (reg_nodes (fst (checkHealth now ks r d))) \<subseteq> dom (reg_nodes r)"
    by (auto simp: checkHealth_nodes [OF assms(2)] split: option.splits if_splits)
  moreover have "i = node_ID n" if "reg_nodes (fst (checkHealth now ks r d)) i = Some n" for i n
    using that assms(1)
    by (auto simp: checkHealth_nodes [OF assms(2)] reg_wf_def split: option.splits if_splits)
  ultimately show ?thesis
    using assms(1) by (auto simp: reg_wf_def intro: finite_subset)
qed

text \<open>Every node that \<open>GetHealthyNodes\<close> hands to the load balancer right after a
  health check has been heard of within the heartbeat timeout (to the clock's resolution), so
  the timeout alone decides how stale a usable node can be.\<close>

theorem healthy_nodes_are_recent:
  assumes "iterates ks (reg_nodes r)" and "iterates ks' (reg_nodes (fst (checkHealth now ks r d)))"
    and "n \<in> set (GetHealthyNodes ks' (fst (checkHealth now ks r d)))"
  shows "time_sub now (node_LastSeen n) \<le> reg_heartbeatTimeout r"
proof -
  from assms(2,3) obtain i where "reg_nodes (fst (checkHealth now ks r d)) i = Some n"
    and "node_Status n = NodeStatusHealthy"
    by (auto simp: set_GetHealthyNodes ran_def)
  then show ?thesis
    by (auto simp: checkHealth_nodes [OF assms(1)] checked_node_def split: option.splits if_splits)
qed

theorem healthy_nodes_are_recent_witness:
  "time_sub (10 * second) (node_LastSeen (zero_node\<lparr>node_ID := ''w'', node_LastSeen := 0\<rparr>)) \<le> 15 * second"
proof -
  let ?n = "zero_node\<lparr>node_ID := ''w'', node_LastSeen := 0\<rparr>"
  let ?r = "Register ?n 0 (NewNodeRegistry 0 0) :: unit NodeRegistry"
  have it: "iterates [''w''] (reg_nodes ?r)"
    by (simp add: iterates_def Register_def NewNodeRegistry_def zero_node_def)
  have nodes: "reg_nodes (fst (checkHealth (10 * second) [''w''] ?r ())) = [''w'' \<mapsto> ?n]"
    by (rule ext, simp add: checkHealth_nodes [OF it])
       (simp add: Register_def NewNodeRegistry_def zero_node_def expired_def checked_node_def
         time_sub_def second_def)
  have "reg_heartbeatTimeout ?r = 15 * second"
    by (simp add: Register_def NewNodeRegistry_def)
  moreover have "time_sub (10 * second) (node_LastSeen ?n) \<le> reg_heartbeatTimeout ?r"
    by (rule healthy_nodes_are_recent [OF it, of "[''w'']" "10 * second" "()"])
       (simp_all only: nodes iterates_def GetHealthyNodes_filter, simp_all add: zero_node_def)
  ultimately show ?thesis by simp
qed

end
