(* ===== verification/Balancer.thy ===== *)
theory Balancer
  imports NodeRegistry Types
begin

text \<open>
  \<open>internal/master/balancer.go\<close>: the load-balancing strategies and the interface
  \<open>LoadBalancer\<close> through which the dispatcher uses them. The counters are \<open>uint64\<close> and
  wrap; \<open>atomic.AddUint64(&c, 1)\<close> is the new value \<open>c + 1\<close>.
\<close>

section \<open>The strategies\<close>

datatype balance_error = ErrNoHealthyNodes

type_synonym u64 = "64 word"

record RoundRobinBalancer =
  rr_counter :: u64

definition NewRoundRobinBalancer :: RoundRobinBalancer where
  "NewRoundRobinBalancer = \<lparr>rr_counter = 0\<rparr>"

definition rr_Select ::
    "Task \<Rightarrow> NodeInfo list \<Rightarrow> RoundRobinBalancer \<Rightarrow> (balance_error + NodeInfo) \<times> RoundRobinBalancer" where
  "rr_Select task nodes b =
     (if length nodes = 0 then (Inl ErrNoHealthyNodes, b)
      else let c = rr_counter b + 1;
               idx = unat c mod length nodes
           in (Inr (nodes ! idx), b\<lparr>rr_counter := c\<rparr>))"

text \<open>\<open>LeastConnectionsBalancer\<close> holds only a mutex that it never locks.\<close>

fun least_loop :: "int \<Rightarrow> NodeInfo \<Rightarrow> NodeInfo list \<Rightarrow> NodeInfo" where
  "least_loop minLoad best [] = best"
| "least_loop minLoad best (n # ns) =
     (if node_ActiveTasks n < minLoad then least_loop (node_ActiveTasks n) n ns
      else least_loop minLoad best ns)"

definition lc_Select :: "Task \<Rightarrow> NodeInfo list \<Rightarrow> unit \<Rightarrow> (balance_error + NodeInfo) \<times> unit" where
  "lc_Select task nodes b =
     (if length nodes = 0 then (Inl ErrNoHealthyNodes, b)
      else (Inr (least_loop max_int64 zero_node nodes), b))"

record WeightedRoundRobinBalancer =
  wrr_counter :: u64
  wrr_weights :: "int list"
  wrr_nodeIDs :: "string list"
  wrr_position :: int
  wrr_current :: int

definition NewWeightedRoundRobinBalancer :: WeightedRoundRobinBalancer where
  "NewWeightedRoundRobinBalancer =
     \<lparr>wrr_counter = 0, wrr_weights = [], wrr_nodeIDs = [], wrr_position = 0, wrr_current = 0\<rparr>"

fun total_capacity :: "int \<Rightarrow> NodeInfo list \<Rightarrow> int" where
  "total_capacity tot [] = tot"
| "total_capacity tot (n # ns) = total_capacity (wrap64 (tot + AvailableCapacity n)) ns"

text \<open>The selection loop; the second argument is the fallback \<open>nodes[0]\<close>.\<close>

fun weight_loop :: "int \<Rightarrow> NodeInfo \<Rightarrow> NodeInfo list \<Rightarrow> NodeInfo" where
  "weight_loop target fallback [] = fallback"
| "weight_loop target fallback (n # ns) =
     (let target' = wrap64 (target - AvailableCapacity n) in
      if target' < 0 then n else weight_loop target' fallback ns)"

definition wrr_Select ::
    "Task \<Rightarrow> NodeInfo list \<Rightarrow> WeightedRoundRobinBalancer \<Rightarrow>
     (balance_error + NodeInfo) \<times> WeightedRoundRobinBalancer" where
  "wrr_Select task nodes b =
     (if length nodes = 0 then (Inl ErrNoHealthyNodes, b)
      else let totalWeight = total_capacity 0 nodes;
               c = wrr_counter b + 1;
               b' = b\<lparr>wrr_counter := c\<rparr>
           in if totalWeight = 0 then (Inr (nodes ! (unat c mod length nodes)), b')
              else let target = sint (c mod word_of_int totalWeight :: u64)
                   in (Inr (weight_loop target (nodes ! 0) nodes), b'))"

record RandomBalancer =
  rnd_counter :: u64

definition NewRandomBalancer :: RandomBalancer where
  "NewRandomBalancer = \<lparr>rnd_counter = 0\<rparr>"

definition rnd_Select ::
    "Task \<Rightarrow> NodeInfo list \<Rightarrow> RandomBalancer \<Rightarrow> (balance_error + NodeInfo) \<times> RandomBalancer" where
  "rnd_Select task nodes b =
     (if length nodes = 0 then (Inl ErrNoHealthyNodes, b)
      else let c = rnd_counter b + 1;
               idx = unat c mod length nodes
           in (Inr (nodes ! idx), b\<lparr>rnd_counter := c\<rparr>))"

section \<open>The interface LoadBalancer\<close>

text \<open>
  What the dispatcher relies on: an empty candidate list is the error
  \<open>ErrNoHealthyNodes\<close>, any other list of nodes the strategy can handle (\<open>okn\<close>) yields one
  of its nodes.
\<close>

locale load_balancer =
  fixes select :: "Task \<Rightarrow> NodeInfo list \<Rightarrow> 'b \<Rightarrow> (balance_error + NodeInfo) \<times> 'b"
    and okn :: "NodeInfo \<Rightarrow> bool"
  assumes select_empty: "fst (select t [] b) = Inl ErrNoHealthyNodes"
    and select_node: "ns \<noteq> [] \<Longrightarrow> \<forall>n \<in> set ns. okn n \<Longrightarrow> \<exists>n \<in> set ns. fst (select t ns b) = Inr n"
begin

lemma select_InrD: "\<forall>n \<in> set ns. okn n \<Longrightarrow> fst (select t ns b) = Inr n \<Longrightarrow> n \<in> set ns"
  using select_node [of ns t b] select_empty [of t b] by (cases "ns = []") auto

lemma select_Inl_iff:
  "\<forall>n \<in> set ns. okn n \<Longrightarrow> fst (select t ns b) = Inl e \<longleftrightarrow> ns = []"
  using select_node [of ns t b] select_empty [of t b] by (cases "ns = []"; cases e) auto

end

lemma rr_Select_nonempty:
  "nodes \<noteq> [] \<Longrightarrow> rr_Select t nodes b =
   (Inr (nodes ! (unat (rr_counter b + 1) mod length nodes)), b\<lparr>rr_counter := rr_counter b + 1\<rparr>)"
  by (simp add: rr_Select_def Let_def)

interpretation round_robin: load_balancer rr_Select "\<lambda>_. True"
  by unfold_locales (auto simp: rr_Select_def Let_def)

interpretation random_choice: load_balancer rnd_Select "\<lambda>_. True"
  by unfold_locales (auto simp: rnd_Select_def Let_def)

lemma weight_loop_in: "fb \<in> set ns \<Longrightarrow> weight_loop target fb ms \<in> set ms \<union> {fb}"
  by (induction ms arbitrary: target) (auto simp: Let_def)

interpretation weighted: load_balancer wrr_Select "\<lambda>_. True"
proof unfold_locales
  fix ns :: "NodeInfo list" and t b
  assume ne: "ns \<noteq> []"
  then have "weight_loop target (ns ! 0) ns \<in> set ns" for target
    using weight_loop_in [of "ns ! 0" ns target ns] by auto
  with ne show "\<exists>n \<in> set ns. fst (wrr_Select t ns b) = Inr n"
    by (auto simp: wrr_Select_def Let_def)
qed (simp add: wrr_Select_def)

text \<open>The strategy of least connections, on nodes whose load is below the largest \<open>int\<close>.\<close>

lemma least_loop_in: "least_loop m best ns \<in> insert best (set ns)"
  by (induction ns arbitrary: m best) auto

lemma least_loop_none:
  "\<forall>n \<in> set ns. m \<le> node_ActiveTasks n \<Longrightarrow> least_loop m best ns = best"
  by (induction ns) auto

lemma least_loop_hits:
  "\<exists>n \<in> set ns. node_ActiveTasks n < m \<Longrightarrow> least_loop m best ns \<in> set ns"
proof (induction ns arbitrary: m best)
  case Nil
  then show ?case by simp
next
  case (Cons n ns)
  then show ?case
    using least_loop_in [of "node_ActiveTasks n" n ns] by auto
qed

lemma least_loop_min:
  "\<exists>n \<in> set ns. node_ActiveTasks n < m \<Longrightarrow>
   node_ActiveTasks (least_loop m best ns) < m \<and>
   (\<forall>k \<in> set ns. node_ActiveTasks (least_loop m best ns) \<le> node_ActiveTasks k)"
proof (induction ns arbitrary: m best)
  case Nil
  then show ?case by simp
next
  case (Cons n ns)
  show ?case
  proof (cases "node_ActiveTasks n < m")
    case True
    show ?thesis
    proof (cases "\<exists>k \<in> set ns. node_ActiveTasks k < node_ActiveTasks n")
      case smaller: True
      from Cons.IH [OF smaller, of n] True show ?thesis by auto
    next
      case False
      then have "\<forall>k \<in> set ns. node_ActiveTasks n \<le> node_ActiveTasks k" by force
      with True show ?thesis by (simp add: least_loop_none)
    qed
  next
    case False
    with Cons.prems have "\<exists>k \<in> set ns. node_ActiveTasks k < m" by auto
    from Cons.IH [OF this, of best] False show ?thesis by auto
  qed
qed

interpretation least_connections: load_balancer lc_Select "\<lambda>n. node_ActiveTasks n < max_int64"
proof unfold_locales
  fix ns :: "NodeInfo list" and t b
  assume "ns \<noteq> []" and "\<forall>n \<in> set ns. node_ActiveTasks n < max_int64"
  then have "\<exists>n \<in> set ns. node_ActiveTasks n < max_int64" by (cases ns) auto
  then have "least_loop max_int64 zero_node ns \<in> set ns" by (rule least_loop_hits)
  with \<open>ns \<noteq> []\<close> show "\<exists>n \<in> set ns. fst (lc_Select t ns b) = Inr n"
    by (simp add: lc_Select_def)
qed (simp add: lc_Select_def)

section \<open>Runs of selections\<close>

text \<open>\<open>k\<close> selections one after the other from the same candidates.\<close>

fun select_n ::
    "(Task \<Rightarrow> NodeInfo list \<Rightarrow> 'b \<Rightarrow> (balance_error + NodeInfo) \<times> 'b) \<Rightarrow> Task \<Rightarrow> NodeInfo list \<Rightarrow>
     nat \<Rightarrow> 'b \<Rightarrow> (balance_error + NodeInfo) list" where
  "select_n select t ns 0 b = []"
| "select_n select t ns (Suc k) b =
     (let (r, b') = select t ns b in r # select_n select t ns k b')"

lemma unat_succ: "unat (c :: u64) + 1 < 2 ^ 64 \<Longrightarrow> unat (c + 1) = unat c + 1"
  by (simp add: unat_word_ariths)

lemma map_mod_rotate:
  "n = length xs \<Longrightarrow> map (\<lambda>j. xs ! ((a + j) mod n)) [0..<n] = rotate a xs"
  by (rule nth_equalityI) (simp_all add: nth_rotate)

lemma mset_rotate_eq: "mset (rotate n xs) = mset xs"
proof (induction n)
  case (Suc n)
  moreover have "mset (rotate1 ys) = mset ys" for ys :: "'a list" by (cases ys) simp_all
  ultimately show ?case by simp
qed simp

lemma rr_select_n:
  assumes "nodes \<noteq> []" and "unat (rr_counter b) + k < 2 ^ 64"
  shows "select_n rr_Select t nodes k b =
    map (\<lambda>j. Inr (nodes ! ((unat (rr_counter b) + 1 + j) mod length nodes))) [0..<k]"
  using assms(2)
proof (induction k arbitrary: b)
  case 0
  then show ?case by simp
next
  case (Suc k)
  let ?b = "b\<lparr>rr_counter := rr_counter b + 1\<rparr>"
  have u: "unat (rr_counter ?b) = unat (rr_counter b) + 1"
    using Suc.prems unat_succ by simp
  have "unat (rr_counter ?b) + k < 2 ^ 64" using Suc.prems u by simp
  from Suc.IH [OF this] u have "select_n rr_Select t nodes k ?b =
      map (\<lambda>j. Inr (nodes ! ((unat (rr_counter b) + 1 + Suc j) mod length nodes))) [0..<k]"
    by simp
  then show ?case
    using assms(1) u by (simp add: rr_Select_nonempty upt_conv_Cons map_Suc_upt [symmetric] del: upt_Suc)
qed

text \<open>Claim C37: round robin is fair: as long as its 64-bit counter does not wrap, as many
  consecutive selections from one list of candidates as there are candidates choose every
  candidate exactly once.\<close>

theorem round_robin_fair:
  assumes "nodes \<noteq> []" and "unat (rr_counter b) + length nodes < 2 ^ 64"
  shows "mset (select_n rr_Select t nodes (length nodes) b) = mset (map Inr nodes)"
proof -
  have "select_n rr_Select t nodes (length nodes) b =
      map Inr (map (\<lambda>j. nodes ! ((unat (rr_counter b) + 1 + j) mod length nodes)) [0..<length nodes])"
    by (simp add: rr_select_n [OF assms] comp_def)
  also have "\<dots> = map Inr (rotate (unat (rr_counter b) + 1) nodes)"
    by (simp only: map_mod_rotate [OF refl])
  finally show ?thesis by (simp only: mset_map mset_rotate_eq)
qed

theorem round_robin_fair_witness:
  "mset (select_n rr_Select zero_task
     [zero_node\<lparr>node_ID := ''a''\<rparr>, zero_node\<lparr>node_ID := ''b''\<rparr>] 2 NewRoundRobinBalancer) =
   {#Inr (zero_node\<lparr>node_ID := ''a''\<rparr>), Inr (zero_node\<lparr>node_ID := ''b''\<rparr>)#}"
proof -
  let ?ns = "[zero_node\<lparr>node_ID := ''a''\<rparr>, zero_node\<lparr>node_ID := ''b''\<rparr>]"
  have "mset (select_n rr_Select zero_task ?ns (length ?ns) NewRoundRobinBalancer) = mset (map Inr ?ns)"
    by (rule round_robin_fair) (simp_all add: NewRoundRobinBalancer_def)
  moreover have "length ?ns = 2" by simp
  ultimately show ?thesis by (simp only:) simp
qed

text \<open>The strategy of least connections chooses a candidate that no other candidate
  undercuts in active tasks.\<close>

theorem least_connections_minimal:
  assumes "nodes \<noteq> []" and "\<forall>n \<in> set nodes. node_ActiveTasks n < max_int64"
  shows "\<exists>best \<in> set nodes. fst (lc_Select t nodes b) = Inr best \<and>
    (\<forall>n \<in> set nodes. node_ActiveTasks best \<le> node_ActiveTasks n)"
proof -
  from assms have "\<exists>n \<in> set nodes. node_ActiveTasks n < max_int64" by (cases nodes) auto
  with assms(1) show ?thesis
    using least_loop_hits [of nodes max_int64 zero_node] least_loop_min [of nodes max_int64 zero_node]
    by (auto simp: lc_Select_def)
qed

theorem least_connections_minimal_witness:
  "fst (lc_Select zero_task [zero_node\<lparr>node_ActiveTasks := 4\<rparr>, zero_node\<lparr>node_ActiveTasks := 2\<rparr>] ()) =
   Inr (zero_node\<lparr>node_ActiveTasks := 2\<rparr>)"
  using least_connections_minimal
    [of "[zero_node\<lparr>node_ActiveTasks := 4\<rparr>, zero_node\<lparr>node_ActiveTasks := 2\<rparr>]" zero_task "()"]
  by auto

section \<open>Weighted selection\<close>

text \<open>
  The candidates repeated as often as they have capacity: the list that the weighted
  selection walks through, one position per value of the counter.
\<close>

definition expand :: "NodeInfo list \<Rightarrow> NodeInfo list" where
  "expand nodes = concat (map (\<lambda>n. replicate (nat (AvailableCapacity n)) n) nodes)"

abbreviation capacity_sum :: "NodeInfo list \<Rightarrow> int" where
  "capacity_sum nodes \<equiv> sum_list (map AvailableCapacity nodes)"

lemma capacity_sum_nonneg:
  "\<forall>n \<in> set nodes. 0 \<le> AvailableCapacity n \<Longrightarrow> 0 \<le> capacity_sum nodes"
  by (induction nodes) auto

lemma total_capacity_exact:
  assumes "\<forall>n \<in> set nodes. 0 \<le> AvailableCapacity n" and "0 \<le> tot"
    and "tot + capacity_sum nodes \<le> max_int64"
  shows "total_capacity tot nodes = tot + capacity_sum nodes"
  using assms
proof (induction nodes arbitrary: tot)
  case Nil
  then show ?case by simp
next
  case (Cons n ns)
  then have "0 \<le> capacity_sum ns" by (simp add: capacity_sum_nonneg)
  with Cons.prems have "wrap64 (tot + AvailableCapacity n) = tot + AvailableCapacity n"
    by (intro wrap64_id) (auto simp: in64_def)
  with Cons show ?case by simp
qed

lemma length_expand:
  "\<forall>n \<in> set nodes. 0 \<le> AvailableCapacity n \<Longrightarrow> int (length (expand nodes)) = capacity_sum nodes"
  by (induction nodes) (auto simp: expand_def)

lemma weight_loop_expand:
  assumes "\<forall>n \<in> set nodes. 0 \<le> AvailableCapacity n" and "0 \<le> target" "target < capacity_sum nodes"
    and "capacity_sum nodes \<le> max_int64"
  shows "weight_loop target fb nodes = expand nodes ! nat target"
  using assms
proof (induction nodes arbitrary: target)
  case Nil
  then show ?case by simp
next
  case (Cons n ns)
  let ?c = "AvailableCapacity n"
  have c: "0 \<le> ?c" "0 \<le> capacity_sum ns" using Cons.prems by (simp_all add: capacity_sum_nonneg)
  have w: "wrap64 (target - ?c) = target - ?c"
    using Cons.prems c by (intro wrap64_id) (auto simp: in64_def)
  have e: "expand (n # ns) = replicate (nat ?c) n @ expand ns" by (simp add: expand_def)
  show ?case
  proof (cases "target < ?c")
    case True
    with w Cons.prems show ?thesis by (simp add: e nth_append Let_def)
  next
    case False
    then have "nat target - nat ?c = nat (target - ?c)" using c by simp
    with False w c Cons show ?thesis by (simp add: e nth_append Let_def)
  qed
qed

lemma sint_mod_small:
  assumes "0 < d" and "d \<le> max_int64"
  shows "sint (c mod word_of_int d :: u64) = int (unat c) mod d"
proof -
  have "uint (word_of_int d :: u64) = d"
    using assms by (simp add: uint_word_of_int)
  then have u: "uint (c mod word_of_int d) = uint c mod d" by (simp add: uint_mod)
  have r: "uint c mod d < d" "0 \<le> uint c mod d" using assms by simp_all
  have "signed_take_bit 63 (uint c mod d) = uint c mod d"
    by (rule signed_take_bit_int_eq_self, simp_all) (use r assms in linarith)+
  then show ?thesis by (simp add: sint_uint u)
qed

lemma wrr_Select_expand:
  assumes nn: "\<forall>n \<in> set nodes. 0 \<le> AvailableCapacity n"
    and s: "0 < capacity_sum nodes" "capacity_sum nodes \<le> max_int64"
  shows "wrr_Select t nodes b =
    (Inr (expand nodes ! (unat (wrr_counter b + 1) mod length (expand nodes))),
     b\<lparr>wrr_counter := wrr_counter b + 1\<rparr>)"
proof -
  let ?c = "wrr_counter b + 1" and ?s = "capacity_sum nodes"
  have l: "?s = int (length (expand nodes))" by (simp add: length_expand nn)
  have tot: "total_capacity 0 nodes = ?s" using total_capacity_exact [OF nn, of 0] s by simp
  have tgt: "sint (?c mod word_of_int ?s) = int (unat ?c) mod ?s" by (rule sint_mod_small [OF s])
  have "weight_loop (int (unat ?c) mod ?s) (nodes ! 0) nodes = expand nodes ! nat (int (unat ?c) mod ?s)"
    by (rule weight_loop_expand [OF nn]) (use s in simp_all)
  moreover have "nat (int (unat ?c) mod ?s) = unat ?c mod length (expand nodes)"
    unfolding l by (simp only: zmod_int [symmetric] nat_int)
  moreover have "nodes \<noteq> []" using s by auto
  ultimately show ?thesis
    using s unfolding wrr_Select_def Let_def tot tgt by simp
qed

lemma wrr_select_n:
  assumes nn: "\<forall>n \<in> set nodes. 0 \<le> AvailableCapacity n"
    and s: "0 < capacity_sum nodes" "capacity_sum nodes \<le> max_int64"
    and "unat (wrr_counter b) + k < 2 ^ 64"
  shows "select_n wrr_Select t nodes k b =
    map (\<lambda>j. Inr (expand nodes ! ((unat (wrr_counter b) + 1 + j) mod length (expand nodes)))) [0..<k]"
  using assms(4)
proof (induction k arbitrary: b)
  case 0
  then show ?case by simp
next
  case (Suc k)
  let ?b = "b\<lparr>wrr_counter := wrr_counter b + 1\<rparr>"
  have u: "unat (wrr_counter ?b) = unat (wrr_counter b) + 1"
    using Suc.prems unat_succ by simp
  have "unat (wrr_counter ?b) + k < 2 ^ 64" using Suc.prems u by simp
  from Suc.IH [OF this] u have "select_n wrr_Select t nodes k ?b =
      map (\<lambda>j. Inr (expand nodes ! ((unat (wrr_counter b) + 1 + Suc j) mod length (expand nodes)))) [0..<k]"
    by simp
  then show ?case
    using u by (simp add: wrr_Select_expand [OF nn s] upt_conv_Cons map_Suc_upt [symmetric] del: upt_Suc)
qed

text \<open>Claim C38: weighted round robin is proportional: when no candidate is over its capacity and
  the capacities do not overflow, as many consecutive selections as there is capacity in total
  (the counter not wrapping) choose every candidate exactly as often as it has capacity left;
  the fallback at the end of the loop is never reached and a full candidate is never chosen. The comment on
  the type says that the share goes by \<open>MaxTasks\<close>; it does so only while the candidates are idle.\<close>

theorem weighted_proportional:
  assumes "\<forall>n \<in> set nodes. 0 \<le> AvailableCapacity n"
    and "0 < sum_list (map AvailableCapacity nodes)"
    and "sum_list (map AvailableCapacity nodes) \<le> max_int64"
    and "int (unat (wrr_counter b)) + sum_list (map AvailableCapacity nodes) < 2 ^ 64"
  shows "mset (select_n wrr_Select t nodes (nat (sum_list (map AvailableCapacity nodes))) b) =
    mset (concat (map (\<lambda>n. replicate (nat (AvailableCapacity n)) (Inr n)) nodes))"
proof -
  define k where "k = length (expand nodes)"
  have k: "nat (capacity_sum nodes) = k"
    using length_expand [OF assms(1)] by (simp add: k_def)
  have "int k = capacity_sum nodes" using k assms(2) by simp
  then have "int (unat (wrr_counter b) + k) < int (2 ^ 64)" using assms(4) by simp
  then have "unat (wrr_counter b) + k < 2 ^ 64" by (simp only: of_nat_less_iff)
  from wrr_select_n [OF assms(1-3) this, of t]
  have "select_n wrr_Select t nodes k b =
      map Inr (map (\<lambda>j. expand nodes ! ((unat (wrr_counter b) + 1 + j) mod k)) [0..<k])"
    by (simp add: comp_def k_def)
  also have "\<dots> = map Inr (rotate (unat (wrr_counter b) + 1) (expand nodes))"
    by (simp only: map_mod_rotate [OF k_def])
  finally have "mset (select_n wrr_Select t nodes k b) = mset (map Inr (expand nodes))"
    by (simp only: mset_map mset_rotate_eq)
  also have "map Inr (expand nodes) = concat (map (\<lambda>n. replicate (nat (AvailableCapacity n)) (Inr n)) nodes)"
    by (simp add: expand_def map_concat comp_def)
  finally show ?thesis by (simp add: k)
qed

theorem weighted_proportional_witness:
  "mset (select_n wrr_Select zero_task
     [zero_node\<lparr>node_MaxTasks := 2\<rparr>, zero_node\<lparr>node_MaxTasks := 1\<rparr>] 3 NewWeightedRoundRobinBalancer) =
   {#Inr (zero_node\<lparr>node_MaxTasks := 2\<rparr>), Inr (zero_node\<lparr>node_MaxTasks := 2\<rparr>),
     Inr (zero_node\<lparr>node_MaxTasks := 1\<rparr>)#}"
proof -
  let ?ns = "[zero_node\<lparr>node_MaxTasks := 2\<rparr>, zero_node\<lparr>node_MaxTasks := 1\<rparr>]"
  have c: "AvailableCapacity (zero_node\<lparr>node_MaxTasks := 2\<rparr>) = 2"
    "AvailableCapacity (zero_node\<lparr>node_MaxTasks := 1\<rparr>) = 1"
    by (simp_all add: AvailableCapacity_def zero_node_def wrap64_id in64_def)
  have "mset (select_n wrr_Select zero_task ?ns (nat (capacity_sum ?ns)) NewWeightedRoundRobinBalancer) =
      mset (concat (map (\<lambda>n. replicate (nat (AvailableCapacity n)) (Inr n)) ?ns))"
    by (rule weighted_proportional) (simp_all add: c NewWeightedRoundRobinBalancer_def)
  moreover have "nat (capacity_sum ?ns) = 3" by (simp add: c)
  ultimately show ?thesis by (simp only:) (simp add: c numeral_2_eq_2)
qed

text \<open>Two candidates with the same \<open>MaxTasks\<close>, one of them half busy: the idle one is chosen twice as
  often, against the comment \<open>proportionally based on MaxTasks\<close>.\<close>

theorem weighted_not_by_MaxTasks:
  "let a = zero_node\<lparr>node_ID := ''a'', node_MaxTasks := 2, node_ActiveTasks := 1\<rparr>;
       b = zero_node\<lparr>node_ID := ''b'', node_MaxTasks := 2\<rparr>
   in mset (select_n wrr_Select t [a, b] 3 NewWeightedRoundRobinBalancer) = {#Inr a, Inr b, Inr b#}"
proof -
  let ?a = "zero_node\<lparr>node_ID := ''a'', node_MaxTasks := 2, node_ActiveTasks := 1\<rparr>"
  let ?b = "zero_node\<lparr>node_ID := ''b'', node_MaxTasks := 2\<rparr>"
  have c: "AvailableCapacity ?a = 1" "AvailableCapacity ?b = 2"
    by (simp_all add: AvailableCapacity_def zero_node_def wrap64_id in64_def)
  then have "select_n wrr_Select t [?a, ?b] 3 NewWeightedRoundRobinBalancer =
      map (\<lambda>j. Inr (expand [?a, ?b] ! ((1 + j) mod length (expand [?a, ?b])))) [0..<3]"
    by (subst wrr_select_n) (simp_all add: NewWeightedRoundRobinBalancer_def)
  also have "expand [?a, ?b] = [?a, ?b, ?b]" by (simp add: expand_def c numeral_2_eq_2)
  also have "[0..<3] = [0, 1, 2 :: nat]" by (simp add: numeral_3_eq_3 numeral_2_eq_2)
  finally show ?thesis by (simp add: Let_def)
qed

text \<open>When the candidates are over their capacity in total, the total weight is
  negative, its conversion to \<open>uint64\<close> is huge, and the loop falls through to the fallback
  that its comment calls unreachable: the first candidate is chosen although it is the one
  that is over capacity and another has room.\<close>

theorem weighted_overload_falls_through:
  "let a = zero_node\<lparr>node_ID := ''a'', node_ActiveTasks := 3\<rparr>;
       b = zero_node\<lparr>node_ID := ''b'', node_MaxTasks := 1\<rparr>
   in AvailableCapacity a = - 3 \<and> AvailableCapacity b = 1 \<and>
      fst (wrr_Select t [a, b] NewWeightedRoundRobinBalancer) = Inr a"
proof -
  let ?a = "zero_node\<lparr>node_ID := ''a'', node_ActiveTasks := 3\<rparr>"
  let ?b = "zero_node\<lparr>node_ID := ''b'', node_MaxTasks := 1\<rparr>"
  have c: "AvailableCapacity ?a = - 3" "AvailableCapacity ?b = 1"
    by (simp_all add: AvailableCapacity_def zero_node_def wrap64_id in64_def)
  have w: "wrap64 (- 3) = - 3" "wrap64 (- 2) = - 2" "wrap64 4 = 4" "wrap64 3 = 3"
    by (simp_all add: wrap64_id in64_def)
  have "sint ((1 :: u64) mod word_of_int (- 2)) = 1" by simp
  then have "fst (wrr_Select t [?a, ?b] NewWeightedRoundRobinBalancer) = Inr ?a"
    by (simp add: wrr_Select_def Let_def NewWeightedRoundRobinBalancer_def c w)
  with c show ?thesis by simp
qed

end
