(* ===== verification/Scaler.thy ===== *)
theory Scaler
  imports NodeRegistry
begin

text \<open>
  \<open>internal/master/scaler.go\<close>: the auto-scaler. The Kubernetes API is code outside the
  repository: a pair of functions on the cluster's state \<open>'c\<close>, of which nothing is assumed
  unless a theorem says so. A deployment is its replica count and a part \<open>'x\<close> that the
  scaler does not look at.
\<close>

section \<open>State\<close>

record 'x Deployment =
  dep_Replicas :: "int option"
  dep_rest :: 'x

type_synonym k8s_error = string

record ('c, 'x) K8s =
  k8s_get :: "string \<Rightarrow> string \<Rightarrow> 'c \<Rightarrow> k8s_error + 'x Deployment"
  k8s_update :: "string \<Rightarrow> 'x Deployment \<Rightarrow> 'c \<Rightarrow> k8s_error + 'c"

record ScalerConfig =
  cfg_MinReplicas :: int
  cfg_MaxReplicas :: int
  cfg_TasksPerWorker :: int
  cfg_ScaleUpThreshold :: int
  cfg_CooldownPeriod :: duration
  cfg_ScaleDownDelay :: duration
  cfg_Enabled :: bool

definition DefaultScalerConfig :: ScalerConfig where
  "DefaultScalerConfig = \<lparr>cfg_MinReplicas = 3, cfg_MaxReplicas = 20, cfg_TasksPerWorker = 10,
     cfg_ScaleUpThreshold = 5, cfg_CooldownPeriod = 30 * second,
     cfg_ScaleDownDelay = 5 * (60 * second), cfg_Enabled = False\<rparr>"

record ('c, 'x) AutoScaler =
  scaler_cfg :: ScalerConfig
  scaler_k8s :: "('c, 'x) K8s option"
  scaler_namespace :: string
  scaler_deployment :: string
  scaler_lastScaleUp :: time
  scaler_enabled :: bool

definition NewAutoScaler :: "ScalerConfig \<Rightarrow> ('c, 'x) AutoScaler" where
  "NewAutoScaler cfg = \<lparr>scaler_cfg = cfg, scaler_k8s = None, scaler_namespace = '''',
     scaler_deployment = '''', scaler_lastScaleUp = zero_time, scaler_enabled = cfg_Enabled cfg\<rparr>"

definition NewAutoScalerWithK8s ::
    "ScalerConfig \<Rightarrow> ('c, 'x) K8s option \<Rightarrow> string \<Rightarrow> string \<Rightarrow> ('c, 'x) AutoScaler" where
  "NewAutoScalerWithK8s cfg k8s ns deployment = \<lparr>scaler_cfg = cfg, scaler_k8s = k8s,
     scaler_namespace = ns, scaler_deployment = deployment, scaler_lastScaleUp = zero_time,
     scaler_enabled = (cfg_Enabled cfg \<and> k8s \<noteq> None)\<rparr>"

section \<open>Operations\<close>

text \<open>
  \<open>ScalerPanic\<close> is the run-time panic of an integer division by zero. \<open>now\<close> is the clock
  at the cooldown test and \<open>now'\<close> the clock when \<open>lastScaleUp\<close> is written.
\<close>

datatype scale_error = GetDeploymentError k8s_error | UpdateDeploymentError k8s_error | ScalerPanic

fun min_int :: "int \<Rightarrow> int \<Rightarrow> int" where
  "min_int a b = (if a < b then a else b)"

definition grown_replicas :: "ScalerConfig \<Rightarrow> int \<Rightarrow> 'x Deployment \<Rightarrow> int" where
  "grown_replicas cfg cnt deploy =
     (let currentReplicas = (case dep_Replicas deploy of None \<Rightarrow> 0 | Some n \<Rightarrow> n);
          newReplicas = wrap32 (currentReplicas + wrap32 cnt)
      in if wrap32 (cfg_MaxReplicas cfg) < newReplicas
         then wrap32 (cfg_MaxReplicas cfg) else newReplicas)"

definition scaleUp ::
    "time \<Rightarrow> int \<Rightarrow> ('c, 'x) AutoScaler \<Rightarrow> 'c \<Rightarrow> scale_error option \<times> ('c, 'x) AutoScaler \<times> 'c" where
  "scaleUp now' cnt s c =
     (case scaler_k8s s of
        None \<Rightarrow> (None, s\<lparr>scaler_lastScaleUp := now'\<rparr>, c)
      | Some api \<Rightarrow>
          (case k8s_get api (scaler_namespace s) (scaler_deployment s) c of
             Inl e \<Rightarrow> (Some (GetDeploymentError e), s, c)
           | Inr deploy \<Rightarrow>
               (case k8s_update api (scaler_namespace s)
                       (deploy\<lparr>dep_Replicas := Some (grown_replicas (scaler_cfg s) cnt deploy)\<rparr>) c of
                  Inl e \<Rightarrow> (Some (UpdateDeploymentError e), s, c)
                | Inr c' \<Rightarrow> (None, s\<lparr>scaler_lastScaleUp := now'\<rparr>, c'))))"

fun capacity_loop :: "int \<Rightarrow> NodeInfo list \<Rightarrow> int" where
  "capacity_loop tot [] = tot"
| "capacity_loop tot (n # ns) = capacity_loop (wrap64 (tot + AvailableCapacity n)) ns"

text \<open>The second case of \<open>EnsureCapacity\<close>, also reached when the first finds nothing needed.\<close>

definition ensure_backlog ::
    "time \<Rightarrow> int \<Rightarrow> int \<Rightarrow> ('c, 'x) AutoScaler \<Rightarrow> 'c \<Rightarrow> scale_error option \<times> ('c, 'x) AutoScaler \<times> 'c" where
  "ensure_backlog now' pendingTasks currentReplicas s c =
     (if wrap64 (currentReplicas * cfg_ScaleUpThreshold (scaler_cfg s)) < pendingTasks
          \<and> currentReplicas < cfg_MaxReplicas (scaler_cfg s)
      then scaleUp now' 1 s c else (None, s, c))"

definition EnsureCapacity ::
    "time \<Rightarrow> time \<Rightarrow> string list \<Rightarrow> 'd NodeRegistry \<Rightarrow> int \<Rightarrow> ('c, 'x) AutoScaler \<Rightarrow> 'c \<Rightarrow>
     scale_error option \<times> ('c, 'x) AutoScaler \<times> 'c" where
  "EnsureCapacity now now' ks reg pendingTasks s c =
     (if \<not> scaler_enabled s then (None, s, c)
      else if time_sub now (scaler_lastScaleUp s) < cfg_CooldownPeriod (scaler_cfg s) then (None, s, c)
      else
        let cfg = scaler_cfg s;
            nodes = GetHealthyNodes ks reg;
            currentReplicas = int (length nodes);
            totalCapacity = capacity_loop 0 nodes
        in if totalCapacity = 0 \<and> 0 < pendingTasks
           then if cfg_TasksPerWorker cfg = 0 then (Some ScalerPanic, s, c)
                else let needed = min_int (wrap64 (wrap64 (go_quot pendingTasks (cfg_TasksPerWorker cfg)) + 1))
                                          (wrap64 (cfg_MaxReplicas cfg - currentReplicas))
                     in if 0 < needed then scaleUp now' needed s c
                        else ensure_backlog now' pendingTasks currentReplicas s c
           else ensure_backlog now' pendingTasks currentReplicas s c)"

definition setReplicas ::
    "int \<Rightarrow> ('c, 'x) AutoScaler \<Rightarrow> 'c \<Rightarrow> scale_error option \<times> 'c" where
  "setReplicas replicas s c =
     (case scaler_k8s s of
        None \<Rightarrow> (None, c)
      | Some api \<Rightarrow>
          (case k8s_get api (scaler_namespace s) (scaler_deployment s) c of
             Inl e \<Rightarrow> (Some (GetDeploymentError e), c)
           | Inr deploy \<Rightarrow>
               (case k8s_update api (scaler_namespace s)
                       (deploy\<lparr>dep_Replicas := Some (wrap32 replicas)\<rparr>) c of
                  Inl e \<Rightarrow> (Some (UpdateDeploymentError e), c)
                | Inr c' \<Rightarrow> (None, c'))))"

fun idle_loop :: "int \<Rightarrow> NodeInfo list \<Rightarrow> int" where
  "idle_loop idle [] = idle"
| "idle_loop idle (n # ns) = idle_loop (if node_ActiveTasks n = 0 then idle + 1 else idle) ns"

definition ScaleDown ::
    "string list \<Rightarrow> 'd NodeRegistry \<Rightarrow> ('c, 'x) AutoScaler \<Rightarrow> 'c \<Rightarrow> scale_error option \<times> 'c" where
  "ScaleDown ks reg s c =
     (if \<not> scaler_enabled s then (None, c)
      else
        let cfg = scaler_cfg s;
            nodes = GetHealthyNodes ks reg;
            currentReplicas = int (length nodes)
        in if currentReplicas \<le> cfg_MinReplicas cfg then (None, c)
           else if go_quot currentReplicas 2 < idle_loop 0 nodes
           then let target = currentReplicas - 1;
                    targetReplicas = (if target < cfg_MinReplicas cfg then cfg_MinReplicas cfg else target)
                in if scaler_k8s s = None then (None, c) else setReplicas targetReplicas s c
           else (None, c))"

text \<open>\<open>(current, desired, err)\<close>.\<close>

definition GetCurrentScale ::
    "string list \<Rightarrow> 'd NodeRegistry \<Rightarrow> ('c, 'x) AutoScaler \<Rightarrow> 'c \<Rightarrow> int \<times> int \<times> scale_error option" where
  "GetCurrentScale ks reg s c =
     (let current = HealthyNodeCount ks reg in
      case scaler_k8s s of
        None \<Rightarrow> (current, current, None)
      | Some api \<Rightarrow>
          (case k8s_get api (scaler_namespace s) (scaler_deployment s) c of
             Inl e \<Rightarrow> (current, current, Some (GetDeploymentError e))
           | Inr deploy \<Rightarrow> (current, case dep_Replicas deploy of None \<Rightarrow> 0 | Some n \<Rightarrow> n, None)))"

definition SetEnabled :: "bool \<Rightarrow> ('c, 'x) AutoScaler \<Rightarrow> ('c, 'x) AutoScaler" where
  "SetEnabled en s = s\<lparr>scaler_enabled := (en \<and> (scaler_k8s s \<noteq> None \<or> \<not> en))\<rparr>"

section \<open>What the scaler asks of the cluster\<close>

text \<open>A call that reached the cluster wrote the named deployment with \<open>n\<close> replicas.\<close>

definition wrote_replicas :: "('c, 'x) AutoScaler \<Rightarrow> 'c \<Rightarrow> 'c \<Rightarrow> int \<Rightarrow> bool" where
  "wrote_replicas s c c' n \<longleftrightarrow> (\<exists>api deploy. scaler_k8s s = Some api \<and>
     k8s_get api (scaler_namespace s) (scaler_deployment s) c = Inr deploy \<and>
     k8s_update api (scaler_namespace s) (deploy\<lparr>dep_Replicas := Some n\<rparr>) c = Inr c')"

lemma grown_replicas_le: "grown_replicas cfg cnt deploy \<le> wrap32 (cfg_MaxReplicas cfg)"
  by (simp add: grown_replicas_def Let_def)

lemma scaleUp_cases:
  obtains (failed) e where "scaleUp now' k s c = (Some e, s, c)"
  | (mock) "scaler_k8s s = None" "scaleUp now' k s c = (None, s\<lparr>scaler_lastScaleUp := now'\<rparr>, c)"
  | (wrote) c' n where "scaleUp now' k s c = (None, s\<lparr>scaler_lastScaleUp := now'\<rparr>, c')"
      "wrote_replicas s c c' n" "n \<le> wrap32 (cfg_MaxReplicas (scaler_cfg s))"
proof (cases "scaler_k8s s")
  case None
  then show thesis by (intro mock) (simp_all add: scaleUp_def)
next
  case api: (Some api)
  show thesis
  proof (cases "k8s_get api (scaler_namespace s) (scaler_deployment s) c")
    case (Inl e)
    with api show thesis by (intro failed [of "GetDeploymentError e"]) (simp add: scaleUp_def)
  next
    case dep: (Inr deploy)
    let ?n = "grown_replicas (scaler_cfg s) k deploy"
    show thesis
    proof (cases "k8s_update api (scaler_namespace s) (deploy\<lparr>dep_Replicas := Some ?n\<rparr>) c")
      case (Inl e)
      with api dep show thesis
        by (intro failed [of "UpdateDeploymentError e"]) (simp add: scaleUp_def)
    next
      case (Inr c')
      with api dep show thesis
        by (intro wrote [of c' ?n]) (simp_all add: scaleUp_def wrote_replicas_def grown_replicas_le)
    qed
  qed
qed

text \<open>The outcome of a scaling decision: nothing written, or a bounded number of replicas.\<close>

definition bounded_growth ::
    "('c, 'x) AutoScaler \<Rightarrow> 'c \<Rightarrow> scale_error option \<times> ('c, 'x) AutoScaler \<times> 'c \<Rightarrow> bool" where
  "bounded_growth s c res \<longleftrightarrow> (case res of (e, s', c') \<Rightarrow>
     c' = c \<or> (\<exists>n. wrote_replicas s c c' n \<and> n \<le> wrap32 (cfg_MaxReplicas (scaler_cfg s))))"

lemma bounded_growth_none: "bounded_growth s c (e, s', c)"
  by (simp add: bounded_growth_def)

lemma bounded_growth_scaleUp: "bounded_growth s c (scaleUp now' k s c)"
  by (cases rule: scaleUp_cases [of now' k s c]) (auto simp: bounded_growth_def)

lemma bounded_growth_backlog: "bounded_growth s c (ensure_backlog now' p cur s c)"
  by (simp add: ensure_backlog_def bounded_growth_none bounded_growth_scaleUp)

lemmas bounded_growths = bounded_growth_none bounded_growth_scaleUp bounded_growth_backlog

text \<open>Claim C34: whatever the Kubernetes API does, a capacity check either leaves the cluster as
  it was or writes one deployment whose replica count is at most \<open>MaxReplicas\<close>.\<close>

theorem EnsureCapacity_bounded:
  "case EnsureCapacity now now' ks reg pending s c of (e, s', c') \<Rightarrow>
     c' = c \<or> (\<exists>n. wrote_replicas s c c' n \<and> n \<le> wrap32 (cfg_MaxReplicas (scaler_cfg s)))"
proof -
  have "bounded_growth s c (EnsureCapacity now now' ks reg pending s c)"
    by (simp add: EnsureCapacity_def Let_def bounded_growths)
  then show ?thesis by (simp add: bounded_growth_def)
qed

lemma scaleUp_last:
  "scaler_lastScaleUp (fst (snd (scaleUp now' k s c))) \<in> {scaler_lastScaleUp s, now'}"
  "scaler_enabled (fst (snd (scaleUp now' k s c))) = scaler_enabled s"
  "scaler_cfg (fst (snd (scaleUp now' k s c))) = scaler_cfg s"
  by (cases rule: scaleUp_cases [of now' k s c]; simp)+

text \<open>The cooldown is respected: after a capacity check that scaled up at \<open>t\<close>, a later
  check at a time less than \<open>CooldownPeriod\<close> after \<open>t\<close> changes neither scaler nor cluster.\<close>

theorem cooldown_respected:
  assumes "scaleUp t k s c = (None, s', c')"
    and "time_sub now t < cfg_CooldownPeriod (scaler_cfg s)"
  shows "EnsureCapacity now now' ks reg pending s' c' = (None, s', c')"
proof -
  have "scaler_lastScaleUp s' = t \<and> scaler_cfg s' = scaler_cfg s"
    using assms(1) by (cases rule: scaleUp_cases [of t k s c]) auto
  with assms(2) show ?thesis by (simp add: EnsureCapacity_def)
qed

theorem cooldown_respected_witness:
  "let s = (NewAutoScaler DefaultScalerConfig :: (unit, unit) AutoScaler)\<lparr>scaler_enabled := True\<rparr>;
       (e, s', c') = scaleUp 0 1 s ()
   in EnsureCapacity (29 * second) (29 * second) [] (NewNodeRegistry 0 0 :: unit NodeRegistry) 7 s' c'
      = (None, s', c')"
proof -
  let ?s = "(NewAutoScaler DefaultScalerConfig :: (unit, unit) AutoScaler)\<lparr>scaler_enabled := True\<rparr>"
  have "scaleUp 0 1 ?s () = (None, ?s\<lparr>scaler_lastScaleUp := 0\<rparr>, ())"
    by (simp add: scaleUp_def NewAutoScaler_def)
  moreover from this have "EnsureCapacity (29 * second) (29 * second) []
      (NewNodeRegistry 0 0 :: unit NodeRegistry) 7 (?s\<lparr>scaler_lastScaleUp := 0\<rparr>) () =
      (None, ?s\<lparr>scaler_lastScaleUp := 0\<rparr>, ())"
    by (rule cooldown_respected)
       (simp add: NewAutoScaler_def DefaultScalerConfig_def time_sub_def second_def)
  ultimately show ?thesis by simp
qed

lemma idle_loop_eq:
  "idle_loop k ns = k + int (length (filter (\<lambda>n. node_ActiveTasks n = 0) ns))"
  by (induction ns arbitrary: k) auto

text \<open>Claim C35: scaling down never goes below \<open>MinReplicas\<close> and asks for one worker less than are
  healthy: the cluster is left alone unless the scaler is enabled, there are more healthy nodes than
  the minimum and more than half of them are idle, and then the deployment is written with
  one replica less than there are healthy nodes.\<close>

theorem ScaleDown_safe:
  assumes "ScaleDown ks reg s c = (e, c')" and "c' \<noteq> c" and "in32 (int (length (GetHealthyNodes ks reg)) - 1)"
  shows "scaler_enabled s \<and>
    wrote_replicas s c c' (int (length (GetHealthyNodes ks reg)) - 1) \<and>
    cfg_MinReplicas (scaler_cfg s) \<le> int (length (GetHealthyNodes ks reg)) - 1 \<and>
    length (GetHealthyNodes ks reg) <
      2 * length (filter (\<lambda>n. node_ActiveTasks n = 0) (GetHealthyNodes ks reg))"
proof -
  let ?ns = "GetHealthyNodes ks reg" and ?min = "cfg_MinReplicas (scaler_cfg s)"
  let ?k = "int (length ?ns) - 1"
  have act: "scaler_enabled s" "\<not> int (length ?ns) \<le> ?min"
    "go_quot (int (length ?ns)) 2 < idle_loop 0 ?ns" "scaler_k8s s \<noteq> None"
    "setReplicas ?k s c = (e, c')"
    using assms(1,2) by (auto simp: ScaleDown_def Let_def split: if_splits)
  have "int (length ?ns) div 2 < idle_loop 0 ?ns"
    using act(3) by (simp add: go_quot_nonneg)
  then have "length ?ns < 2 * length (filter (\<lambda>n. node_ActiveTasks n = 0) ?ns)"
    by (simp add: idle_loop_eq)
  moreover have "wrote_replicas s c c' ?k"
    using act(4,5) assms(2,3)
    by (auto simp: setReplicas_def wrote_replicas_def wrap32_id split: option.splits sum.splits)
  ultimately show ?thesis using act by simp
qed

theorem ScaleDown_safe_witness:
  "let reg = (NewNodeRegistry 0 0 :: unit NodeRegistry)\<lparr>reg_nodes :=
         [''a'' \<mapsto> zero_node, ''b'' \<mapsto> zero_node]\<rparr>;
       api = \<lparr>k8s_get = (\<lambda>ns d c. Inr \<lparr>dep_Replicas = Some c, dep_rest = ()\<rparr>),
              k8s_update = (\<lambda>ns d c. Inr (the (dep_Replicas d)))\<rparr>;
       s = NewAutoScalerWithK8s (DefaultScalerConfig\<lparr>cfg_MinReplicas := 1, cfg_Enabled := True\<rparr>)
             (Some api) ''default'' ''worker''
   in ScaleDown [''a'', ''b''] reg s 2 = (None, 1) \<and> wrote_replicas s (2 :: int) 1 1"
proof -
  let ?reg = "(NewNodeRegistry 0 0 :: unit NodeRegistry)\<lparr>reg_nodes :=
      [''a'' \<mapsto> zero_node, ''b'' \<mapsto> zero_node]\<rparr>"
  let ?api = "\<lparr>k8s_get = (\<lambda>ns d c. Inr \<lparr>dep_Replicas = Some c, dep_rest = ()\<rparr>),
      k8s_update = (\<lambda>ns d c. Inr (the (dep_Replicas d)))\<rparr> :: (int, unit) K8s"
  let ?s = "NewAutoScalerWithK8s (DefaultScalerConfig\<lparr>cfg_MinReplicas := 1, cfg_Enabled := True\<rparr>)
      (Some ?api) ''default'' ''worker''"
  have ns: "GetHealthyNodes [''a'', ''b''] ?reg = [zero_node, zero_node]"
    by (simp add: GetHealthyNodes_filter zero_node_def)
  have run: "ScaleDown [''a'', ''b''] ?reg ?s 2 = (None, 1)"
    unfolding ScaleDown_def Let_def ns
    by (simp add: NewAutoScalerWithK8s_def DefaultScalerConfig_def zero_node_def setReplicas_def
        go_quot_def wrap32_id in32_def)
  have "wrote_replicas ?s 2 1 1"
    using ScaleDown_safe [OF run] by (simp add: ns in32_def)
  with run show ?thesis by (simp add: Let_def)
qed

text \<open>The first case of the capacity check tests the total capacity for being exactly
  zero, so when the workers are over their capacity in total and the backlog is within the
  threshold, nothing is scaled up although no worker has room.\<close>

theorem EnsureCapacity_ignores_overload:
  assumes "capacity_loop 0 (GetHealthyNodes ks reg) < 0"
    and "pending \<le> wrap64 (int (length (GetHealthyNodes ks reg)) * cfg_ScaleUpThreshold (scaler_cfg s))"
  shows "EnsureCapacity now now' ks reg pending s c = (None, s, c)"
  using assms by (simp add: EnsureCapacity_def ensure_backlog_def Let_def)

theorem EnsureCapacity_ignores_overload_witness:
  "let reg = (NewNodeRegistry 0 0 :: unit NodeRegistry)\<lparr>reg_nodes :=
         [''a'' \<mapsto> zero_node\<lparr>node_MaxTasks := 1, node_ActiveTasks := 3\<rparr>]\<rparr>;
       s = (NewAutoScaler DefaultScalerConfig :: (unit, unit) AutoScaler)\<lparr>scaler_enabled := True\<rparr>
   in EnsureCapacity 0 0 [''a''] reg 5 s () = (None, s, ())"
proof -
  let ?n = "zero_node\<lparr>node_MaxTasks := 1, node_ActiveTasks := 3\<rparr>"
  let ?reg = "(NewNodeRegistry 0 0 :: unit NodeRegistry)\<lparr>reg_nodes := [''a'' \<mapsto> ?n]\<rparr>"
  let ?s = "(NewAutoScaler DefaultScalerConfig :: (unit, unit) AutoScaler)\<lparr>scaler_enabled := True\<rparr>"
  have ns: "GetHealthyNodes [''a''] ?reg = [?n]"
    by (simp add: GetHealthyNodes_filter zero_node_def)
  have "AvailableCapacity ?n = - 2"
    by (simp add: AvailableCapacity_def wrap64_id in64_def)
  then have "capacity_loop 0 (GetHealthyNodes [''a''] ?reg) < 0"
    unfolding ns by (simp add: wrap64_id in64_def)
  moreover have "5 \<le> wrap64 (int (length (GetHealthyNodes [''a''] ?reg)) *
      cfg_ScaleUpThreshold (scaler_cfg ?s))"
    unfolding ns by (simp add: NewAutoScaler_def DefaultScalerConfig_def wrap64_id in64_def)
  ultimately have "EnsureCapacity 0 0 [''a''] ?reg 5 ?s () = (None, ?s, ())"
    by (rule EnsureCapacity_ignores_overload)
  then show ?thesis by (simp add: Let_def)
qed

lemma scaleUp_frame: "\<exists>t. fst (snd (scaleUp now' k s c)) = s\<lparr>scaler_lastScaleUp := t\<rparr>"
  by (cases rule: scaleUp_cases [of now' k s c]) (auto intro: exI [of _ "scaler_lastScaleUp s"])

lemma EnsureCapacity_frame:
  "\<exists>t. fst (snd (EnsureCapacity now now' ks reg pending s c)) = s\<lparr>scaler_lastScaleUp := t\<rparr>"
proof -
  have same: "\<exists>t. s = s\<lparr>scaler_lastScaleUp := t\<rparr>" by (rule exI [of _ "scaler_lastScaleUp s"]) simp
  show ?thesis by (auto simp: EnsureCapacity_def ensure_backlog_def Let_def same scaleUp_frame)
qed

text \<open>Claim C36: The scale-down tick asks neither for the cooldown nor for the backlog, and takes the number
  of healthy nodes for the size of the deployment: right after a capacity check has added workers that
  have not registered yet, a tick undoes it and removes a worker more, whatever the deployment has
  been grown to.\<close>

theorem scale_down_undoes_growth:
  assumes "EnsureCapacity now now' ks reg pending s c = (None, s', c')" and "c' \<noteq> c"
    and "scaler_k8s s = Some api" and "k8s_get api (scaler_namespace s) (scaler_deployment s) c' = Inr d"
    and "k8s_update api (scaler_namespace s)
      (d\<lparr>dep_Replicas := Some (int (length (GetHealthyNodes ks reg)) - 1)\<rparr>) c' = Inr c''"
    and "cfg_MinReplicas (scaler_cfg s) < int (length (GetHealthyNodes ks reg))"
    and "length (GetHealthyNodes ks reg) div 2 <
      length (filter (\<lambda>n. node_ActiveTasks n = 0) (GetHealthyNodes ks reg))"
    and "in32 (int (length (GetHealthyNodes ks reg)) - 1)"
  shows "ScaleDown ks reg s' c' = (None, c'')"
proof -
  obtain t where s': "s' = s\<lparr>scaler_lastScaleUp := t\<rparr>"
    using EnsureCapacity_frame [of now now' ks reg pending s c] assms(1) by auto
  have "scaler_enabled s" using assms(1,2) by (cases "scaler_enabled s") (simp_all add: EnsureCapacity_def)
  moreover have "go_quot (int (length (GetHealthyNodes ks reg))) 2 < idle_loop 0 (GetHealthyNodes ks reg)"
    using assms(7) by (simp add: go_quot_nonneg idle_loop_eq)
  ultimately show ?thesis
    using assms(3-6,8) by (simp add: ScaleDown_def setReplicas_def Let_def s' wrap32_id)
qed

text \<open>Four idle workers and 21 tasks waiting: the deployment goes from 4 to 5, and to 3.\<close>

theorem scale_down_undoes_growth_witness:
  "let reg = (NewNodeRegistry 0 0 :: unit NodeRegistry)\<lparr>reg_nodes :=
         [''a'' \<mapsto> zero_node, ''b'' \<mapsto> zero_node, ''c'' \<mapsto> zero_node, ''d'' \<mapsto> zero_node\<lparr>node_MaxTasks := 1\<rparr>]\<rparr>;
       api = \<lparr>k8s_get = (\<lambda>ns d c. Inr \<lparr>dep_Replicas = Some c, dep_rest = ()\<rparr>),
              k8s_update = (\<lambda>ns d c. Inr (the (dep_Replicas d)))\<rparr>;
       s = NewAutoScalerWithK8s (DefaultScalerConfig\<lparr>cfg_Enabled := True\<rparr>) (Some api) ''default'' ''worker''
   in \<exists>s'. EnsureCapacity 0 0 [''a'', ''b'', ''c'', ''d''] reg 21 s (4 :: int) = (None, s', 5) \<and>
     ScaleDown [''a'', ''b'', ''c'', ''d''] reg s' 5 = (None, 3)"
proof -
  let ?n = "zero_node\<lparr>node_MaxTasks := 1\<rparr>"
  let ?reg = "(NewNodeRegistry 0 0 :: unit NodeRegistry)\<lparr>reg_nodes :=
      [''a'' \<mapsto> zero_node, ''b'' \<mapsto> zero_node, ''c'' \<mapsto> zero_node, ''d'' \<mapsto> ?n]\<rparr>"
  let ?api = "\<lparr>k8s_get = (\<lambda>ns d c. Inr \<lparr>dep_Replicas = Some c, dep_rest = ()\<rparr>),
      k8s_update = (\<lambda>ns d c. Inr (the (dep_Replicas d)))\<rparr> :: (int, unit) K8s"
  let ?s = "NewAutoScalerWithK8s (DefaultScalerConfig\<lparr>cfg_Enabled := True\<rparr>) (Some ?api) ''default'' ''worker''"
  have ns: "GetHealthyNodes [''a'', ''b'', ''c'', ''d''] ?reg = [zero_node, zero_node, zero_node, ?n]"
    by (simp add: GetHealthyNodes_filter zero_node_def)
  have cap: "AvailableCapacity zero_node = 0" "AvailableCapacity ?n = 1"
    by (simp_all add: AvailableCapacity_def zero_node_def wrap64_id in64_def)
  have up: "EnsureCapacity 0 0 [''a'', ''b'', ''c'', ''d''] ?reg 21 ?s 4 = (None, ?s\<lparr>scaler_lastScaleUp := 0\<rparr>, 5)"
    unfolding EnsureCapacity_def Let_def ns
    by (simp add: cap NewAutoScalerWithK8s_def DefaultScalerConfig_def time_sub_def zero_time_def second_def
        ensure_backlog_def scaleUp_def grown_replicas_def wrap64_id wrap32_id in64_def in32_def)
  have "ScaleDown [''a'', ''b'', ''c'', ''d''] ?reg (?s\<lparr>scaler_lastScaleUp := 0\<rparr>) 5 = (None, 3)"
    by (rule scale_down_undoes_growth [OF up, where api = ?api and d = "\<lparr>dep_Replicas = Some 5, dep_rest = ()\<rparr>"]; (unfold ns)?)
      (simp_all add: NewAutoScalerWithK8s_def DefaultScalerConfig_def in32_def zero_node_def)
  with up show ?thesis unfolding Let_def by blast
qed

end
