(* ===== verification/Proto.thy ===== *)
theory Proto
  imports Prelude
begin

text \<open>
  The messages of \<open>proto/distexec/v1\<close> as the Go code sees them: a message is a record, a
  \<open>google.protobuf.Duration\<close> or \<open>Timestamp\<close> field a pointer that may be nil, an enum an
  open set of 32-bit values (proto3), and a gRPC error a status code with its message.
\<close>

section \<open>Enumerations\<close>

datatype JobStatus =
    JOB_STATUS_UNSPECIFIED
  | JOB_STATUS_PENDING
  | JOB_STATUS_RUNNING
  | JOB_STATUS_COMPLETED
  | JOB_STATUS_FAILED
  | JOB_STATUS_CANCELLED
  | JOB_STATUS_TIMEOUT
  | JOB_STATUS_UNRECOGNIZED int

text \<open>The generated \<open>String\<close> method: the name of the value, or its number.\<close>

fun JobStatus_String :: "JobStatus \<Rightarrow> string" where
  "JobStatus_String JOB_STATUS_UNSPECIFIED = ''JOB_STATUS_UNSPECIFIED''"
| "JobStatus_String JOB_STATUS_PENDING = ''JOB_STATUS_PENDING''"
| "JobStatus_String JOB_STATUS_RUNNING = ''JOB_STATUS_RUNNING''"
| "JobStatus_String JOB_STATUS_COMPLETED = ''JOB_STATUS_COMPLETED''"
| "JobStatus_String JOB_STATUS_FAILED = ''JOB_STATUS_FAILED''"
| "JobStatus_String JOB_STATUS_CANCELLED = ''JOB_STATUS_CANCELLED''"
| "JobStatus_String JOB_STATUS_TIMEOUT = ''JOB_STATUS_TIMEOUT''"
| "JobStatus_String (JOB_STATUS_UNRECOGNIZED n) = show_int n"

datatype ExecutionStatus =
    EXECUTION_STATUS_UNSPECIFIED
  | EXECUTION_STATUS_SUCCESS
  | EXECUTION_STATUS_FAILURE
  | EXECUTION_STATUS_TIMEOUT
  | EXECUTION_STATUS_CANCELLED
  | EXECUTION_STATUS_UNRECOGNIZED int

datatype WorkerHealth =
    WORKER_HEALTH_UNKNOWN
  | WORKER_HEALTH_HEALTHY
  | WORKER_HEALTH_DEGRADED
  | WORKER_HEALTH_UNHEALTHY

datatype HeartbeatAction =
    HEARTBEAT_ACTION_NONE
  | HEARTBEAT_ACTION_DRAIN
  | HEARTBEAT_ACTION_SHUTDOWN

section \<open>Status codes\<close>

datatype grpc_code =
  InvalidArgument | NotFound | ResourceExhausted | Internal | Unimplemented | OtherCode nat

datatype grpc_error = GrpcError (err_code: grpc_code) (err_message: string)

section \<open>Master service\<close>

record SubmitRequest =
  sub_TaskType :: string
  sub_Payload :: bytes
  sub_Timeout :: "duration option"
  sub_Priority :: int
  sub_Metadata :: metadata

record SubmitResponse =
  sub_JobId :: string

record GetStatusResponse =
  gs_JobId :: string
  gs_Status :: JobStatus
  gs_Output :: bytes
  gs_Error :: string
  gs_ExitCode :: int
  gs_CreatedAt :: "time option"
  gs_StartedAt :: "time option"
  gs_CompletedAt :: "time option"
  gs_WorkerId :: string

record CancelResponse =
  can_Cancelled :: bool
  can_Message :: string

record ListJobsRequest =
  lj_Limit :: int
  lj_Offset :: int
  lj_StatusFilter :: JobStatus

record JobSummary =
  js_JobId :: string
  js_TaskType :: string
  js_Status :: JobStatus
  js_CreatedAt :: "time option"

record ListJobsResponse =
  lj_Jobs :: "JobSummary list"
  lj_Total :: int

section \<open>Registration service\<close>

record RegisterRequest =
  rq_WorkerId :: string
  rq_Address :: string
  rq_Capabilities :: "string list"
  rq_MaxConcurrentTasks :: int
  rq_Labels :: metadata

record RegisterResponse =
  rp_Accepted :: bool
  rp_Message :: string
  rp_HeartbeatInterval :: "duration option"

record HeartbeatRequest =
  hb_WorkerId :: string
  hb_ActiveTasks :: int
  hb_Health :: WorkerHealth

record HeartbeatResponse =
  hb_Acknowledged :: bool
  hb_Action :: HeartbeatAction

section \<open>Worker service\<close>

record ExecuteRequest =
  ex_TaskId :: string
  ex_TaskType :: string
  ex_Payload :: bytes
  ex_Timeout :: "duration option"
  ex_Metadata :: metadata

record ExecuteResponse =
  xr_TaskId :: string
  xr_Status :: ExecutionStatus
  xr_Output :: bytes
  xr_Error :: string
  xr_ExitCode :: int
  xr_Duration :: "duration option"

record GetWorkerStatusResponse =
  ws_WorkerId :: string
  ws_Capabilities :: "string list"
  ws_MaxConcurrentTasks :: int
  ws_ActiveTasks :: int
  ws_Health :: WorkerHealth

text \<open>\<open>(*durationpb.Duration).AsDuration\<close>: a nil duration is 0.\<close>

definition as_duration :: "duration option \<Rightarrow> duration" where
  "as_duration d = (case d of None \<Rightarrow> 0 | Some x \<Rightarrow> x)"

end
