(* ===== verification/Dispatcher.thy ===== *)
theory Dispatcher
  imports Scheduler Store NodeRegistry Balancer Scaler Proto
begin

text \<open>
  \<open>internal/master/dispatcher.go\<close>: the pool of connections to workers, and the sending of
  one task: pick a node, call it, file the result or the failure.

  \<open>grpc.NewClient\<close> (\<open>dial\<close>), the remote call \<open>client.Execute\<close> (\<open>exec\<close>) and the
  balancing strategy (\<open>select\<close>, an interface value in the code too) are arguments.
\<close>

section \<open>The client pool\<close>

text \<open>
  A generated client is its connection; \<open>pool_closed\<close> records the connections on which
  \<open>Close\<close> was called.
\<close>

datatype 'n worker_client = WorkerServiceClient (client_conn: 'n)

record 'n ClientPool =
  pool_clients :: "string \<rightharpoonup> 'n worker_client"
  pool_conns :: "string \<rightharpoonup> 'n"
  pool_closed :: "'n list"

definition empty_pool :: "'n ClientPool" where
  "empty_pool = \<lparr>pool_clients = Map.empty, pool_conns = Map.empty, pool_closed = []\<rparr>"

type_synonym 'n dialer = "string \<Rightarrow> string + 'n"

text \<open>The section under the write lock, with its second look at the table.\<close>

definition dial_client ::
    "'n dialer \<Rightarrow> NodeInfo \<Rightarrow> 'n ClientPool \<Rightarrow> (string + 'n worker_client) \<times> 'n ClientPool" where
  "dial_client dial node p =
     (case pool_clients p (node_ID node) of
        Some client \<Rightarrow> (Inr client, p)
      | None \<Rightarrow>
          (case dial (node_Address node) of
             Inl err \<Rightarrow> (Inl (''dial '' @ node_Address node @ '': '' @ err), p)
           | Inr conn \<Rightarrow>
               (Inr (WorkerServiceClient conn),
                p\<lparr>pool_clients := (pool_clients p)(node_ID node \<mapsto> WorkerServiceClient conn),
                  pool_conns := (pool_conns p)(node_ID node \<mapsto> conn)\<rparr>)))"

definition getClient ::
    "'n dialer \<Rightarrow> NodeInfo \<Rightarrow> 'n ClientPool \<Rightarrow> (string + 'n worker_client) \<times> 'n ClientPool" where
  "getClient dial node p =
     (case pool_clients p (node_ID node) of
        Some client \<Rightarrow> (Inr client, p)
      | None \<Rightarrow> dial_client dial node p)"

definition drop_client :: "string \<Rightarrow> 'n \<Rightarrow> 'n ClientPool \<Rightarrow> 'n ClientPool" where
  "drop_client i conn p = \<lparr>pool_clients = go_delete i (pool_clients p),
     pool_conns = go_delete i (pool_conns p), pool_closed = pool_closed p @ [conn]\<rparr>"

fun closeConnections :: "string list \<Rightarrow> 'n ClientPool \<Rightarrow> 'n ClientPool" where
  "closeConnections [] p = p"
| "closeConnections (i # ks) p =
     (case pool_conns p i of
        None \<Rightarrow> closeConnections ks p
      | Some conn \<Rightarrow> closeConnections ks (drop_client i conn p))"

definition RemoveClient :: "string \<Rightarrow> 'n ClientPool \<Rightarrow> 'n ClientPool" where
  "RemoveClient i p =
     (case pool_conns p i of None \<Rightarrow> p | Some conn \<Rightarrow> drop_client i conn p)"

section \<open>Configuration\<close>

record DispatcherConfig =
  dc_TaskTimeout :: duration
  dc_RetryDelay :: duration
  dc_MaxRetries :: int

text \<open>The configuration as \<open>NewDispatcher\<close> keeps it.\<close>

definition NewDispatcherConfig :: "DispatcherConfig \<Rightarrow> DispatcherConfig" where
  "NewDispatcherConfig cfg =
     \<lparr>dc_TaskTimeout = (if dc_TaskTimeout cfg \<le> 0 then 30 * second else dc_TaskTimeout cfg),
      dc_RetryDelay = (if dc_RetryDelay cfg \<le> 0 then 1 * second else dc_RetryDelay cfg),
      dc_MaxRetries = (if dc_MaxRetries cfg \<le> 0 then 3 else dc_MaxRetries cfg)\<rparr>"

section \<open>The state of the master\<close>

text \<open>
  The components the dispatcher holds pointers to. The registry's callback acts on the
  client pool. \<open>m_cluster\<close> is the state behind the Kubernetes API.
\<close>

record ('b, 'c, 'x, 'n) Master =
  m_sched :: Scheduler
  m_store :: Store
  m_reg :: "'n ClientPool NodeRegistry"
  m_bal :: 'b
  m_scaler :: "('c, 'x) AutoScaler option"
  m_cluster :: 'c
  m_pool :: "'n ClientPool"
  m_dcfg :: DispatcherConfig

text \<open>Everything one dispatch depends on from outside: interface values, clocks, map order.\<close>

record ('b, 'n) Env =
  env_select :: "Task \<Rightarrow> NodeInfo list \<Rightarrow> 'b \<Rightarrow> (balance_error + NodeInfo) \<times> 'b"
  env_dial :: "'n dialer"
  env_exec :: "'n worker_client \<Rightarrow> ExecuteRequest \<Rightarrow> string + ExecuteResponse"
  env_scale_order :: "string list"
  env_order :: "string list"
  env_now_check :: time
  env_now_scaled :: time
  env_now_started :: time
  env_now_replied :: time
  env_now_done :: time

section \<open>Sending a task\<close>

text \<open>The atomic sections of a dispatch, as state transformers.\<close>

definition do_ensure :: "('b, 'n) Env \<Rightarrow> ('b, 'c, 'x, 'n) Master \<Rightarrow> ('b, 'c, 'x, 'n) Master" where
  "do_ensure env m =
     (case m_scaler m of
        None \<Rightarrow> m
      | Some sc \<Rightarrow>
          (case EnsureCapacity (env_now_check env) (env_now_scaled env) (env_scale_order env) (m_reg m)
                  (PendingCount (m_sched m)) sc (m_cluster m) of
             (err, sc', c') \<Rightarrow> m\<lparr>m_scaler := Some sc', m_cluster := c'\<rparr>))"

definition do_requeue :: "task_ref \<Rightarrow> ('b, 'c, 'x, 'n) Master \<Rightarrow> ('b, 'c, 'x, 'n) Master" where
  "do_requeue r m = m\<lparr>m_sched := snd (Requeue r (m_sched m))\<rparr>"

definition do_mark_running ::
    "task_ref \<Rightarrow> NodeInfo \<Rightarrow> time \<Rightarrow> ('b, 'c, 'x, 'n) Master \<Rightarrow> ('b, 'c, 'x, 'n) Master" where
  "do_mark_running r node now m = m\<lparr>m_sched :=
     snd (MarkRunning (task_ID (sched_heap (m_sched m) r)) (node_ID node) now (m_sched m))\<rparr>"

definition do_increment :: "NodeInfo \<Rightarrow> ('b, 'c, 'x, 'n) Master \<Rightarrow> ('b, 'c, 'x, 'n) Master" where
  "do_increment node m = m\<lparr>m_reg := IncrementActiveTasks (node_ID node) (m_reg m)\<rparr>"

definition do_decrement :: "NodeInfo \<Rightarrow> ('b, 'c, 'x, 'n) Master \<Rightarrow> ('b, 'c, 'x, 'n) Master" where
  "do_decrement node m = m\<lparr>m_reg := DecrementActiveTasks (node_ID node) (m_reg m)\<rparr>"

definition do_mark_failed ::
    "task_ref \<Rightarrow> string \<Rightarrow> time \<Rightarrow> ('b, 'c, 'x, 'n) Master \<Rightarrow> ('b, 'c, 'x, 'n) Master" where
  "do_mark_failed r err now m = m\<lparr>m_sched :=
     snd (MarkFailed (task_ID (sched_heap (m_sched m) r)) err now (m_sched m))\<rparr>"

definition do_store_failed :: "task_ref \<Rightarrow> ('b, 'c, 'x, 'n) Master \<Rightarrow> ('b, 'c, 'x, 'n) Master" where
  "do_store_failed r m = m\<lparr>m_store :=
     UpdateJobStatus (task_ID (sched_heap (m_sched m) r)) TaskStatusFailed (m_store m)\<rparr>"

definition do_save_result :: "Result \<Rightarrow> ('b, 'c, 'x, 'n) Master \<Rightarrow> ('b, 'c, 'x, 'n) Master" where
  "do_save_result res m = m\<lparr>m_store := SaveResult res (m_store m)\<rparr>"

definition do_mark_complete ::
    "task_ref \<Rightarrow> Result \<Rightarrow> time \<Rightarrow> ('b, 'c, 'x, 'n) Master \<Rightarrow> ('b, 'c, 'x, 'n) Master" where
  "do_mark_complete r res now m = m\<lparr>m_sched :=
     snd (MarkComplete (task_ID (sched_heap (m_sched m) r)) res now (m_sched m))\<rparr>"

definition execute_request :: "Task \<Rightarrow> ExecuteRequest" where
  "execute_request t = \<lparr>ex_TaskId = task_ID t, ex_TaskType = task_Type t,
     ex_Payload = task_Payload t, ex_Timeout = Some (task_Timeout t), ex_Metadata = task_Metadata t\<rparr>"

fun result_status :: "ExecutionStatus \<Rightarrow> ResultStatus" where
  "result_status EXECUTION_STATUS_SUCCESS = ResultStatusSuccess"
| "result_status EXECUTION_STATUS_TIMEOUT = ResultStatusTimeout"
| "result_status EXECUTION_STATUS_CANCELLED = ResultStatusCancelled"
| "result_status _ = ResultStatusFailure"

definition response_result :: "Task \<Rightarrow> NodeInfo \<Rightarrow> ExecuteResponse \<Rightarrow> time \<Rightarrow> Result" where
  "response_result t node resp now = \<lparr>res_TaskID = task_ID t, res_Status = result_status (xr_Status resp),
     res_Output = xr_Output resp, res_Error = xr_Error resp, res_ExitCode = xr_ExitCode resp,
     res_Duration = as_duration (xr_Duration resp), res_WorkerID = node_ID node,
     res_CompletedAt = now, res_Metadata = Map.empty\<rparr>"

definition sendToWorker ::
    "('b, 'n) Env \<Rightarrow> NodeInfo \<Rightarrow> task_ref \<Rightarrow> ('b, 'c, 'x, 'n) Master \<Rightarrow>
     (string + Result) \<times> ('b, 'c, 'x, 'n) Master" where
  "sendToWorker env node r m =
     (case getClient (env_dial env) node (m_pool m) of
        (Inl err, p) \<Rightarrow> (Inl (''get client: '' @ err), m\<lparr>m_pool := p\<rparr>)
      | (Inr client, p) \<Rightarrow>
          let m1 = do_mark_running r node (env_now_started env) (m\<lparr>m_pool := p\<rparr>);
              m2 = do_increment node m1;
              t = sched_heap (m_sched m2) r
          in (case env_exec env client (execute_request t) of
                Inl err \<Rightarrow> (Inl (''execute: '' @ err), do_decrement node m2)
              | Inr resp \<Rightarrow> (Inr (response_result t node resp (env_now_replied env)), m2)))"

definition dispatch_failed ::
    "('b, 'n) Env \<Rightarrow> task_ref \<Rightarrow> string \<Rightarrow> ('b, 'c, 'x, 'n) Master \<Rightarrow> ('b, 'c, 'x, 'n) Master" where
  "dispatch_failed env r err m =
     (let m1 = do_store_failed r (do_mark_failed r err (env_now_done env) m)
      in if CanRetry (sched_heap (m_sched m1) r) then do_requeue r m1 else m1)"

definition dispatch_succeeded ::
    "('b, 'n) Env \<Rightarrow> NodeInfo \<Rightarrow> task_ref \<Rightarrow> Result \<Rightarrow> ('b, 'c, 'x, 'n) Master \<Rightarrow> ('b, 'c, 'x, 'n) Master" where
  "dispatch_succeeded env node r res m =
     do_decrement node (do_mark_complete r res (env_now_done env) (do_save_result res m))"

definition dispatchTask ::
    "('b, 'n) Env \<Rightarrow> task_ref \<Rightarrow> ('b, 'c, 'x, 'n) Master \<Rightarrow> ('b, 'c, 'x, 'n) Master" where
  "dispatchTask env r m =
     (let m1 = do_ensure env m;
          nodes = GetHealthyNodes (env_order env) (m_reg m1)
      in if length nodes = 0 then do_requeue r m1
         else
           (case env_select env (sched_heap (m_sched m1) r) nodes (m_bal m1) of
              (Inl err, b) \<Rightarrow> do_requeue r (m1\<lparr>m_bal := b\<rparr>)
            | (Inr node, b) \<Rightarrow>
                (case sendToWorker env node r (m1\<lparr>m_bal := b\<rparr>) of
                   (Inl err, m2) \<Rightarrow> dispatch_failed env r err m2
                 | (Inr res, m2) \<Rightarrow> dispatch_succeeded env node r res m2)))"

text \<open>
  \<open>Run\<close>: each round takes a task and starts a goroutine for it, or finds the context done,
  closes the connections and returns. Here a goroutine runs to its end before the next round;
  their interleaving is the subject of the theory of the master's concurrent runs.
\<close>

datatype ('b, 'n) run_round = RoundDone "string list" | RoundDispatch "('b, 'n) Env"

fun dispatcher_run ::
    "('b, 'n) run_round list \<Rightarrow> ('b, 'c, 'x, 'n) Master \<Rightarrow> ('b, 'c, 'x, 'n) Master" where
  "dispatcher_run [] m = m"
| "dispatcher_run (RoundDone ks # rs) m = m\<lparr>m_pool := closeConnections ks (m_pool m)\<rparr>"
| "dispatcher_run (RoundDispatch env # rs) m =
     (case Dequeue False False (m_sched m) of
        Dequeued r s \<Rightarrow> dispatcher_run rs (dispatchTask env r (m\<lparr>m_sched := s\<rparr>))
      | _ \<Rightarrow> m)"

end
