(* ===== verification/Dispatch.thy ===== *)
theory Dispatch
  imports Dispatcher
begin

text \<open>
  Properties of the dispatcher: the client pool, the outcome of one dispatch in every case,
  the accounting of active tasks, and the retry budget.
\<close>

section \<open>The client pool\<close>

text \<open>The two tables of the pool describe the same connections.\<close>

definition pool_wf :: "'n ClientPool \<Rightarrow> bool" where
  "pool_wf p \<longleftrightarrow> pool_clients p = map_option WorkerServiceClient \<circ> pool_conns p \<and>
     finite (dom (pool_conns p))"

lemma pool_wf_empty: "pool_wf empty_pool"
  by (simp add: pool_wf_def empty_pool_def fun_eq_iff)

lemma pool_wf_drop: "pool_wf p \<Longrightarrow> pool_wf (drop_client i conn p)"
  by (auto simp: pool_wf_def drop_client_def fun_eq_iff)

lemma pool_wf_RemoveClient: "pool_wf p \<Longrightarrow> pool_wf (RemoveClient i p)"
  by (auto simp: RemoveClient_def pool_wf_drop split: option.splits)

lemma pool_wf_dial: "pool_wf p \<Longrightarrow> pool_wf (snd (dial_client dial node p))"
  by (auto simp: dial_client_def pool_wf_def fun_eq_iff split: option.splits sum.splits)

lemma pool_wf_getClient: "pool_wf p \<Longrightarrow> pool_wf (snd (getClient dial node p))"
  by (auto simp: getClient_def pool_wf_dial split: option.splits)

lemma pool_wf_close: "pool_wf p \<Longrightarrow> pool_wf (closeConnections ks p)"
  by (induction ks arbitrary: p) (auto simp: pool_wf_drop split: option.splits)

lemmas pool_wf_ops = pool_wf_empty pool_wf_RemoveClient pool_wf_getClient pool_wf_dial pool_wf_close

lemma pool_wf_clients: "pool_wf p \<Longrightarrow> pool_clients p i = map_option WorkerServiceClient (pool_conns p i)"
  by (simp add: pool_wf_def)

lemma drop_client_fields [simp]:
  "pool_conns (drop_client i conn p) = go_delete i (pool_conns p)"
  "pool_clients (drop_client i conn p) = go_delete i (pool_clients p)"
  "pool_closed (drop_client i conn p) = pool_closed p @ [conn]"
  by (simp_all add: drop_client_def)

text \<open>Every visited connection is closed once, in the order of the visit, and forgotten.\<close>

lemma closeConnections_eq:
  "distinct ks \<Longrightarrow>
   pool_conns (closeConnections ks p) i = (if i \<in> set ks then None else pool_conns p i) \<and>
   pool_closed (closeConnections ks p) = pool_closed p @ go_values (pool_conns p) ks"
proof (induction ks arbitrary: p)
  case Nil
  then show ?case by simp
next
  case (Cons k ks)
  have "go_values (go_delete k m) ks = go_values m ks" for m :: "string \<rightharpoonup> 'a"
    using Cons.prems by (induction ks) (auto split: option.splits)
  then show ?case
    using Cons by (cases "pool_conns p k") auto
qed

text \<open>Shutting the dispatcher down closes every open connection exactly once and
  leaves the pool empty, in whatever order the runtime visits the table.\<close>

theorem closeConnections_all:
  assumes "pool_wf p" and "iterates ks (pool_conns p)"
  shows "pool_conns (closeConnections ks p) = Map.empty \<and>
    pool_clients (closeConnections ks p) = Map.empty \<and>
    (\<exists>cs. pool_closed (closeConnections ks p) = pool_closed p @ cs \<and>
       length cs = card (dom (pool_conns p)) \<and> set cs = ran (pool_conns p))"
proof -
  have ks: "distinct ks" "set ks = dom (pool_conns p)"
    using assms(2) by (simp_all add: iterates_def)
  have conns: "pool_conns (closeConnections ks p) = Map.empty"
    using closeConnections_eq [OF ks(1), of p] ks(2) by (auto simp: fun_eq_iff dom_def)
  moreover have "pool_clients (closeConnections ks p) = Map.empty"
    using pool_wf_clients [OF pool_wf_close [OF assms(1)]] conns by (simp add: fun_eq_iff)
  moreover have "pool_closed (closeConnections ks p) = pool_closed p @ go_values (pool_conns p) ks"
    using closeConnections_eq [OF ks(1)] by blast
  moreover have "length (go_values (pool_conns p) ks) = card (dom (pool_conns p))"
    by (rule length_go_values [OF assms(2)])
  moreover have "set (go_values (pool_conns p) ks) = ran (pool_conns p)"
    by (rule set_go_values_ran [OF assms(2)])
  ultimately show ?thesis by blast
qed

theorem closeConnections_all_witness:
  "pool_conns (closeConnections [''w''] (snd (getClient (\<lambda>a. Inr a)
     (zero_node\<lparr>node_ID := ''w''\<rparr>) empty_pool))) = Map.empty"
proof -
  let ?p = "snd (getClient (\<lambda>a. Inr a) (zero_node\<lparr>node_ID := ''w''\<rparr>) empty_pool)"
  have "pool_wf ?p" by (intro pool_wf_ops)
  moreover have "iterates [''w''] (pool_conns ?p)"
    by (simp add: iterates_def getClient_def dial_client_def empty_pool_def)
  ultimately show ?thesis by (rule closeConnections_all [THEN conjunct1])
qed

text \<open>The pool is keyed by worker ID alone: once a worker has a connection, a call to
  the same ID uses it even if the node has since registered under another address, until the
  node is removed.\<close>

theorem getClient_ignores_new_address:
  assumes "getClient dial node p = (Inr client, p')" and "node_ID node' = node_ID node"
  shows "getClient dial' node' p' = (Inr client, p')"
  using assms
  by (auto simp: getClient_def dial_client_def split: option.splits sum.splits)

theorem getClient_ignores_new_address_witness:
  "let old = zero_node\<lparr>node_ID := ''w'', node_Address := ''10.0.0.1:50052''\<rparr>;
       new = zero_node\<lparr>node_ID := ''w'', node_Address := ''10.0.0.2:50052''\<rparr>;
       p' = snd (getClient Inr old empty_pool)
   in getClient Inr new p' = (Inr (WorkerServiceClient ''10.0.0.1:50052''), p')"
proof -
  let ?old = "zero_node\<lparr>node_ID := ''w'', node_Address := ''10.0.0.1:50052''\<rparr>"
  let ?new = "zero_node\<lparr>node_ID := ''w'', node_Address := ''10.0.0.2:50052''\<rparr>"
  have "getClient Inr ?old empty_pool =
      (Inr (WorkerServiceClient ''10.0.0.1:50052''), snd (getClient Inr ?old empty_pool))"
    by (simp add: getClient_def dial_client_def empty_pool_def)
  then have "getClient Inr ?new (snd (getClient Inr ?old empty_pool)) =
      (Inr (WorkerServiceClient ''10.0.0.1:50052''), snd (getClient Inr ?old empty_pool))"
    by (rule getClient_ignores_new_address) simp
  then show ?thesis by (simp only: Let_def)
qed

section \<open>Frames of the atomic sections\<close>

lemma do_ensure_frame [frame, simp]:
  "m_sched (do_ensure env m) = m_sched m" "m_store (do_ensure env m) = m_store m"
  "m_reg (do_ensure env m) = m_reg m" "m_bal (do_ensure env m) = m_bal m"
  "m_pool (do_ensure env m) = m_pool m"
  by (auto simp: do_ensure_def split: option.splits prod.splits)

lemmas do_sections = do_requeue_def do_mark_running_def do_increment_def do_decrement_def
  do_mark_failed_def do_store_failed_def do_save_result_def do_mark_complete_def

lemma mark_known:
  assumes "known r s"
  shows "snd (MarkRunning (task_ID (sched_heap s r)) w now s) =
      task_upd r (\<lambda>t. t\<lparr>task_Status := TaskStatusRunning, task_StartedAt := Some now, task_WorkerID := w\<rparr>) s"
    and "snd (MarkFailed (task_ID (sched_heap s r)) e now s) =
      task_upd r (\<lambda>t. t\<lparr>task_Status := TaskStatusFailed, task_CompletedAt := Some now\<rparr>) s"
    and "snd (MarkComplete (task_ID (sched_heap s r)) res now s) =
      task_upd r (\<lambda>t. t\<lparr>task_Status := TaskStatusCompleted, task_CompletedAt := Some now\<rparr>) s"
  using assms by (simp_all add: known_def MarkRunning_def MarkFailed_def MarkComplete_def)

lemma Mark_frame [frame, simp]:
  "sched_pending (snd (MarkRunning i w now s)) = sched_pending s"
  "sched_pending (snd (MarkFailed i e now s)) = sched_pending s"
  "sched_pending (snd (MarkComplete i res now s)) = sched_pending s"
  "sched_tasks (snd (MarkRunning i w now s)) = sched_tasks s"
  "sched_tasks (snd (MarkFailed i e now s)) = sched_tasks s"
  "sched_tasks (snd (MarkComplete i res now s)) = sched_tasks s"
  by (auto simp: MarkRunning_def MarkFailed_def MarkComplete_def split: option.splits)

section \<open>The load of a node across a dispatch\<close>

text \<open>Every known node reports a load that can be incremented without wrapping.\<close>

definition sane_load :: "'d NodeRegistry \<Rightarrow> bool" where
  "sane_load r \<longleftrightarrow> (\<forall>i n. reg_nodes r i = Some n \<longrightarrow>
     0 \<le> node_ActiveTasks n \<and> node_ActiveTasks n < max_int64)"

lemma registry_eqI:
  fixes r r' :: "'d NodeRegistry"
  assumes "reg_nodes r = reg_nodes r'" "reg_heartbeatTimeout r = reg_heartbeatTimeout r'"
    "reg_unhealthyTimeout r = reg_unhealthyTimeout r'" "reg_onNodeRemoved r = reg_onNodeRemoved r'"
  shows "r = r'"
  using assms by (cases r; cases r') simp

lemma active_frame [frame, simp]:
  "reg_heartbeatTimeout (IncrementActiveTasks i r) = reg_heartbeatTimeout r"
  "reg_unhealthyTimeout (IncrementActiveTasks i r) = reg_unhealthyTimeout r"
  "reg_onNodeRemoved (IncrementActiveTasks i r) = reg_onNodeRemoved r"
  "reg_heartbeatTimeout (DecrementActiveTasks i r) = reg_heartbeatTimeout r"
  "reg_unhealthyTimeout (DecrementActiveTasks i r) = reg_unhealthyTimeout r"
  "reg_onNodeRemoved (DecrementActiveTasks i r) = reg_onNodeRemoved r"
  by (auto simp: IncrementActiveTasks_def DecrementActiveTasks_def split: option.splits)

lemma inc_dec_registry:
  assumes "sane_load r"
  shows "DecrementActiveTasks i (IncrementActiveTasks i r) = r"
proof (rule registry_eqI)
  have "GetNode k (DecrementActiveTasks i (IncrementActiveTasks i r)) = GetNode k r" for k
    by (rule load.inc_dec) (use assms in \<open>auto simp: sane_load_def GetNode_def\<close>)
  then show "reg_nodes (DecrementActiveTasks i (IncrementActiveTasks i r)) = reg_nodes r"
    by (simp add: GetNode_def fun_eq_iff)
qed simp_all

section \<open>What a dispatch does to the task object\<close>

text \<open>
  \<open>touched r s s'\<close>: only the task object \<open>r\<close> was written, and neither its identity nor its
  retry budget changed. Every section of a dispatch but \<open>Requeue\<close> has this effect.
\<close>

definition touched :: "task_ref \<Rightarrow> Scheduler \<Rightarrow> Scheduler \<Rightarrow> bool" where
  "touched r s s' \<longleftrightarrow> (\<exists>f. s' = task_upd r f s \<and>
     (\<forall>t. task_ID (f t) = task_ID t \<and> task_Retries (f t) = task_Retries t \<and>
          task_MaxRetries (f t) = task_MaxRetries t))"

lemma touchedI:
  assumes "\<And>t. task_ID (f t) = task_ID t" and "\<And>t. task_Retries (f t) = task_Retries t"
    and "\<And>t. task_MaxRetries (f t) = task_MaxRetries t"
  shows "touched r s (task_upd r f s)"
  unfolding touched_def using assms by blast

lemma touched_refl: "touched r s s"
  unfolding touched_def by (rule exI [of _ id]) (simp add: task_upd_def)

lemma touched_trans: "touched r s s' \<Longrightarrow> touched r s' s'' \<Longrightarrow> touched r s s''"
proof -
  assume "touched r s s'" "touched r s' s''"
  then obtain f g where "s' = task_upd r f s" "s'' = task_upd r g s'"
    and "\<forall>t. task_ID (f t) = task_ID t \<and> task_Retries (f t) = task_Retries t \<and> task_MaxRetries (f t) = task_MaxRetries t"
    and "\<forall>t. task_ID (g t) = task_ID t \<and> task_Retries (g t) = task_Retries t \<and> task_MaxRetries (g t) = task_MaxRetries t"
    unfolding touched_def by blast
  then show ?thesis
    unfolding touched_def by (intro exI [of _ "g \<circ> f"]) (simp add: task_upd_def)
qed

lemma touchedD:
  assumes "touched r s s'"
  shows "sched_pending s' = sched_pending s" and "sched_tasks s' = sched_tasks s"
    and "sched_wf s' = sched_wf s" and "known q s' = known q s"
    and "task_ID (sched_heap s' r) = task_ID (sched_heap s r)"
    and "task_Retries (sched_heap s' r) = task_Retries (sched_heap s r)"
    and "task_MaxRetries (sched_heap s' r) = task_MaxRetries (sched_heap s r)"
  using assms by (auto simp: touched_def sched_wf_task_upd known_task_upd)

lemma touched_mark:
  assumes "known r s"
  shows "touched r s (snd (MarkRunning (task_ID (sched_heap s r)) w now s))"
    and "touched r s (snd (MarkFailed (task_ID (sched_heap s r)) e now s))"
    and "touched r s (snd (MarkComplete (task_ID (sched_heap s r)) res now s))"
  by (simp_all add: mark_known [OF assms] touchedI)

section \<open>Sending\<close>

lemma sendToWorker_error:
  assumes "sane_load (m_reg m)" and "known r (m_sched m)"
    and "sendToWorker env node r m = (Inl e, m')"
  shows "touched r (m_sched m) (m_sched m') \<and> m_reg m' = m_reg m \<and> m_store m' = m_store m"
  using assms
  by (auto simp: sendToWorker_def do_sections Let_def inc_dec_registry touched_refl touched_mark
      split: prod.splits sum.splits)

lemma sendToWorker_ok:
  assumes "known r (m_sched m)" and "sendToWorker env node r m = (Inr res, m')"
  shows "touched r (m_sched m) (m_sched m') \<and> m_store m' = m_store m \<and>
    m_reg m' = IncrementActiveTasks (node_ID node) (m_reg m) \<and>
    (\<exists>c q resp. env_exec env c q = Inr resp \<and> ex_TaskId q = task_ID (sched_heap (m_sched m) r) \<and>
       res = response_result (sched_heap (m_sched m') r) node resp (env_now_replied env))"
  using assms mark_known(1) [OF assms(1)]
  by (fastforce simp: sendToWorker_def do_sections Let_def touched_mark execute_request_def
      split: prod.splits sum.splits)

text \<open>
  The healthy nodes the dispatch sees, and the outcome of the selection, as conditions on the
  state before it.
\<close>

abbreviation dispatch_nodes :: "('b, 'n) Env \<Rightarrow> ('b, 'c, 'x, 'n) Master \<Rightarrow> NodeInfo list" where
  "dispatch_nodes env m \<equiv> GetHealthyNodes (env_order env) (m_reg m)"

lemma dispatchTask_selected:
  assumes "dispatch_nodes env m \<noteq> []"
    and "env_select env (sched_heap (m_sched m) r) (dispatch_nodes env m) (m_bal m) = (Inr node, b)"
  shows "dispatchTask env r m =
    (case sendToWorker env node r (do_ensure env m\<lparr>m_bal := b\<rparr>) of
       (Inl err, m2) \<Rightarrow> dispatch_failed env r err m2
     | (Inr res, m2) \<Rightarrow> dispatch_succeeded env node r res m2)"
  using assms by (simp add: dispatchTask_def)

lemma dispatchTask_idle:
  assumes "dispatch_nodes env m = []"
  shows "dispatchTask env r m = do_requeue r (do_ensure env m)"
  using assms by (simp add: dispatchTask_def)

section \<open>A concrete master\<close>

text \<open>One task, one worker, round robin: the inputs at which the theorems below are applied.\<close>

definition sample_node :: NodeInfo where
  "sample_node = zero_node\<lparr>node_ID := ''w1'', node_Address := ''10.0.0.1:50052'', node_MaxTasks := 10\<rparr>"

definition sample_master :: "task_ref list \<Rightarrow> bool \<Rightarrow> (RoundRobinBalancer, unit, unit, string) Master" where
  "sample_master pend up =
     \<lparr>m_sched = \<lparr>sched_heap = (\<lambda>_. zero_task)(0 := NewTask ''j1'' ''command'' [1] 0), sched_next = 1,
        sched_pending = Chan pend 2, sched_tasks = [''j1'' \<mapsto> 0], sched_maxQueue = 2\<rparr>,
      m_store = SaveJob \<lparr>job_ID = ''j1'', job_TaskType = ''command'', job_Payload = [1],
        job_Priority = 0, job_Timeout = 30 * second, job_Metadata = Map.empty, job_CreatedAt = 0,
        job_Status = TaskStatusPending, job_Result = None\<rparr> NewStore,
      m_reg = (NewNodeRegistry 0 0)\<lparr>reg_nodes := (if up then [''w1'' \<mapsto> sample_node] else Map.empty)\<rparr>,
      m_bal = NewRoundRobinBalancer, m_scaler = None, m_cluster = (), m_pool = empty_pool,
      m_dcfg = NewDispatcherConfig \<lparr>dc_TaskTimeout = 0, dc_RetryDelay = 0, dc_MaxRetries = 0\<rparr>\<rparr>"

definition sample_env :: "string + ExecuteResponse \<Rightarrow> string list \<Rightarrow> (RoundRobinBalancer, string) Env" where
  "sample_env reply ks = \<lparr>env_select = rr_Select, env_dial = Inr, env_exec = (\<lambda>_ _. reply),
     env_scale_order = ks, env_order = ks, env_now_check = 0, env_now_scaled = 0,
     env_now_started = 1, env_now_replied = 2, env_now_done = 3\<rparr>"

definition sample_reply :: ExecuteResponse where
  "sample_reply = \<lparr>xr_TaskId = ''j1'', xr_Status = EXECUTION_STATUS_SUCCESS, xr_Output = [7],
     xr_Error = '''', xr_ExitCode = 0, xr_Duration = Some 5\<rparr>"

lemma sample_facts [simp]:
  "known 0 (m_sched (sample_master pend up))"
  "sane_load (m_reg (sample_master pend up))"
  "GetHealthyNodes [''w1''] (m_reg (sample_master pend True)) = [sample_node]"
  "GetHealthyNodes [] (m_reg (sample_master pend False)) = []"
  "rr_Select t [sample_node] (m_bal (sample_master pend up)) = (Inr sample_node, \<lparr>rr_counter = 1\<rparr>)"
  "m_pool (sample_master pend up) = empty_pool"
  "env_select (sample_env reply ks) = rr_Select" "env_dial (sample_env reply ks) = Inr"
  "env_exec (sample_env reply ks) c q = reply" "env_order (sample_env reply ks) = ks"
  "pending_refs (m_sched (sample_master pend up)) = pend"
  "queue_cap (m_sched (sample_master pend up)) = 2"
  "sched_heap (m_sched (sample_master pend up)) 0 = NewTask ''j1'' ''command'' [1] 0"
  by (simp_all add: sample_master_def sample_env_def sample_node_def known_def sane_load_def NewTask_def
      GetHealthyNodes_def zero_node_def rr_Select_def NewRoundRobinBalancer_def)

lemma sample_client [simp]:
  "fst (getClient Inr sample_node empty_pool) = Inr (WorkerServiceClient ''10.0.0.1:50052'')"
  by (simp add: getClient_def dial_client_def empty_pool_def sample_node_def)

section \<open>The outcome of one dispatch\<close>

lemma execute_request_cong:
  "task_ID t = task_ID u \<Longrightarrow> task_Type t = task_Type u \<Longrightarrow> task_Payload t = task_Payload u \<Longrightarrow>
   task_Timeout t = task_Timeout u \<Longrightarrow> task_Metadata t = task_Metadata u \<Longrightarrow>
   execute_request t = execute_request u"
  by (simp add: execute_request_def)

lemma response_result_simps [simp]:
  "res_TaskID (response_result t node resp now) = task_ID t"
  "res_WorkerID (response_result t node resp now) = node_ID node"
  "res_Status (response_result t node resp now) = result_status (xr_Status resp)"
  by (simp_all add: response_result_def)

lemma result_status_success_iff:
  "result_status st = ResultStatusSuccess \<longleftrightarrow> st = EXECUTION_STATUS_SUCCESS"
  by (cases st) simp_all

lemma result_job_status_response:
  "result_job_status (response_result t node resp now) =
   (if xr_Status resp = EXECUTION_STATUS_SUCCESS then TaskStatusCompleted else TaskStatusFailed)"
  by (simp add: result_job_status_def IsSuccess_def result_status_success_iff)

lemma sendToWorker_reply:
  assumes k: "known r (m_sched m)"
    and "getClient (env_dial env) node (m_pool m) = (Inr client, p)"
    and "env_exec env client (execute_request (sched_heap (m_sched m) r)) = Inr resp"
  shows "\<exists>m'. sendToWorker env node r m =
      (Inr (response_result (sched_heap (m_sched m) r) node resp (env_now_replied env)), m') \<and>
    touched r (m_sched m) (m_sched m') \<and> m_store m' = m_store m \<and>
    m_reg m' = IncrementActiveTasks (node_ID node) (m_reg m)"
proof -
  let ?t = "sched_heap (m_sched m) r"
  let ?u = "?t\<lparr>task_Status := TaskStatusRunning, task_StartedAt := Some (env_now_started env),
     task_WorkerID := node_ID node\<rparr>"
  have "execute_request ?u = execute_request ?t" by (rule execute_request_cong) simp_all
  moreover have "response_result ?u node resp x = response_result ?t node resp x" for x
    by (simp add: response_result_def)
  ultimately show ?thesis
    using assms touched_mark(1) [OF k]
    by (simp add: sendToWorker_def do_sections Let_def mark_known)
qed

lemma dispatch_succeeded_eq:
  assumes "known r (m_sched m)" and "res_TaskID res = task_ID (sched_heap (m_sched m) r)"
  shows "m_store (dispatch_succeeded env node r res m) = SaveResult res (m_store m)"
    and "m_reg (dispatch_succeeded env node r res m) = DecrementActiveTasks (node_ID node) (m_reg m)"
    and "m_sched (dispatch_succeeded env node r res m) =
      task_upd r (\<lambda>t. t\<lparr>task_Status := TaskStatusCompleted,
        task_CompletedAt := Some (env_now_done env)\<rparr>) (m_sched m)"
  using assms by (simp_all add: dispatch_succeeded_def do_sections mark_known)

lemma dispatch_reply_effect:
  assumes k: "known r (m_sched m)" and load: "sane_load (m_reg m)"
    and nodes: "dispatch_nodes env m \<noteq> []"
    and sel: "env_select env (sched_heap (m_sched m) r) (dispatch_nodes env m) (m_bal m) = (Inr node, b)"
    and cl: "getClient (env_dial env) node (m_pool m) = (Inr client, p)"
    and ex: "env_exec env client (execute_request (sched_heap (m_sched m) r)) = Inr resp"
  shows "touched r (m_sched m) (m_sched (dispatchTask env r m)) \<and>
    task_Status (sched_heap (m_sched (dispatchTask env r m)) r) = TaskStatusCompleted \<and>
    m_reg (dispatchTask env r m) = m_reg m \<and>
    m_store (dispatchTask env r m) =
      SaveResult (response_result (sched_heap (m_sched m) r) node resp (env_now_replied env)) (m_store m)"
proof -
  define m1 where "m1 = do_ensure env m\<lparr>m_bal := b\<rparr>"
  let ?t = "sched_heap (m_sched m) r"
  let ?res = "response_result ?t node resp (env_now_replied env)"
  have m1: "m_sched m1 = m_sched m" "m_store m1 = m_store m" "m_reg m1 = m_reg m" "m_pool m1 = m_pool m"
    by (simp_all add: m1_def)
  obtain m2 where send: "sendToWorker env node r m1 = (Inr ?res, m2)"
    and t2: "touched r (m_sched m) (m_sched m2)" and st2: "m_store m2 = m_store m"
    and reg2: "m_reg m2 = IncrementActiveTasks (node_ID node) (m_reg m)"
    using sendToWorker_reply [of r m1 env node client p resp] k cl ex by (auto simp: m1)
  have run: "dispatchTask env r m = dispatch_succeeded env node r ?res m2"
    using send by (simp add: dispatchTask_selected [OF nodes sel] m1_def)
  have k2: "known r (m_sched m2)" using k by (simp add: touchedD(4) [OF t2])
  note eqs = dispatch_succeeded_eq [OF k2, of ?res env node, folded run]
  have id2: "res_TaskID ?res = task_ID (sched_heap (m_sched m2) r)"
    by (simp add: touchedD(5) [OF t2])
  have store: "m_store (dispatchTask env r m) = SaveResult ?res (m_store m)"
    using eqs(1) [OF id2] st2 by simp
  have "touched r (m_sched m2) (m_sched (dispatchTask env r m))"
    unfolding eqs(3) [OF id2] by (rule touchedI) simp_all
  then show ?thesis
    using eqs(2,3) [OF id2] touched_trans [OF t2]
    by (simp add: store reg2 inc_dec_registry [OF load])
qed

lemma GetResult_SaveResult: "GetResult (res_TaskID res) (SaveResult res s) = Some res"
  by (auto simp: GetResult_def SaveResult_def Let_def split: option.splits)

text \<open>Claim C7: a dispatch that gets a reply files the result under the task, makes the job
  COMPLETED when the reply says SUCCESS and FAILED on every other reply, marks the scheduler's
  task COMPLETED in both cases (so a command that failed on the worker is never retried),
  leaves the queue and every other job alone, and hands the node its slot back.\<close>

theorem dispatch_reply_outcome:
  assumes k: "known r (m_sched m)" and load: "sane_load (m_reg m)"
    and nodes: "dispatch_nodes env m \<noteq> []"
    and sel: "env_select env (sched_heap (m_sched m) r) (dispatch_nodes env m) (m_bal m) = (Inr node, b)"
    and cl: "getClient (env_dial env) node (m_pool m) = (Inr client, p)"
    and ex: "env_exec env client (execute_request (sched_heap (m_sched m) r)) = Inr resp"
  shows "let i = task_ID (sched_heap (m_sched m) r);
             m' = dispatchTask env r m;
             res = response_result (sched_heap (m_sched m) r) node resp (env_now_replied env)
    in GetResult i (m_store m') = Some res \<and>
       GetJob i (m_store m') = map_option (\<lambda>j. j\<lparr>job_Result := Some res,
         job_Status := (if xr_Status resp = EXECUTION_STATUS_SUCCESS
                        then TaskStatusCompleted else TaskStatusFailed)\<rparr>) (GetJob i (m_store m)) \<and>
       (\<forall>k. k = i \<or> GetJob k (m_store m') = GetJob k (m_store m)) \<and>
       task_Status (sched_heap (m_sched m') r) = TaskStatusCompleted \<and>
       task_Retries (sched_heap (m_sched m') r) = task_Retries (sched_heap (m_sched m) r) \<and>
       pending_refs (m_sched m') = pending_refs (m_sched m) \<and>
       m_reg m' = m_reg m"
  using dispatch_reply_effect [OF assms] touchedD(1,6) [OF conjunct1 [OF dispatch_reply_effect [OF assms]]]
    GetResult_SaveResult [of "response_result (sched_heap (m_sched m) r) node resp (env_now_replied env)"]
  by (simp add: Let_def store.get_save_result result_job_status_response)

theorem dispatch_reply_outcome_witness:
  "let m' = dispatchTask (sample_env (Inr sample_reply) [''w1'']) 0 (sample_master [] True)
   in map_option job_Status (GetJob ''j1'' (m_store m')) = Some TaskStatusCompleted \<and>
      task_Status (sched_heap (m_sched m') 0) = TaskStatusCompleted"
proof -
  have "GetJob ''j1'' (m_store (sample_master [] True)) \<noteq> None"
    by (simp add: sample_master_def SaveJob_def GetJob_def)
  moreover have "getClient (env_dial (sample_env (Inr sample_reply) [''w1''])) sample_node
      (m_pool (sample_master [] True)) =
      (Inr (WorkerServiceClient ''10.0.0.1:50052''), snd (getClient Inr sample_node empty_pool))"
    by (simp add: prod_eq_iff)
  from dispatch_reply_outcome [OF _ _ _ _ this, of 0 _ sample_reply] 
  have "let i = task_ID (NewTask ''j1'' ''command'' [1] 0);
        m' = dispatchTask (sample_env (Inr sample_reply) [''w1'']) 0 (sample_master [] True)
    in GetJob i (m_store m') = map_option (\<lambda>j. j\<lparr>job_Result := Some (response_result
         (NewTask ''j1'' ''command'' [1] 0) sample_node sample_reply
           (env_now_replied (sample_env (Inr sample_reply) [''w1'']))),
         job_Status := TaskStatusCompleted\<rparr>) (GetJob i (m_store (sample_master [] True))) \<and>
       task_Status (sched_heap (m_sched m') 0) = TaskStatusCompleted"
    by (simp add: Let_def) (simp add: sample_reply_def)
  ultimately show ?thesis
    by (auto simp: Let_def NewTask_def)
qed

text \<open>Both ways a send can fail: no connection, or an error from the call.\<close>

definition send_fails :: "('b, 'n) Env \<Rightarrow> NodeInfo \<Rightarrow> Task \<Rightarrow> 'n ClientPool \<Rightarrow> bool" where
  "send_fails env node t p =
     (case fst (getClient (env_dial env) node p) of
        Inl err \<Rightarrow> True
      | Inr client \<Rightarrow> (case env_exec env client (execute_request t) of Inl err \<Rightarrow> True | Inr _ \<Rightarrow> False))"

lemma sendToWorker_fails:
  assumes k: "known r (m_sched m)"
    and "send_fails env node (sched_heap (m_sched m) r) (m_pool m)"
  shows "\<exists>e m'. sendToWorker env node r m = (Inl e, m')"
proof -
  let ?t = "sched_heap (m_sched m) r"
  let ?u = "?t\<lparr>task_Status := TaskStatusRunning, task_StartedAt := Some (env_now_started env),
     task_WorkerID := node_ID node\<rparr>"
  have "execute_request ?u = execute_request ?t" by (rule execute_request_cong) simp_all
  then show ?thesis
    using assms
    by (cases "getClient (env_dial env) node (m_pool m)")
       (auto simp: sendToWorker_def send_fails_def do_sections Let_def mark_known split: sum.splits)
qed

text \<open>The task object after a failed attempt, and what becomes of the queue.\<close>

lemma Requeue_effect:
  "snd (Requeue r s) = (requeue_reset r s)
     \<lparr>sched_pending := (if int (length (pending_refs s)) < queue_cap s
                        then Chan (pending_refs s @ [r]) (queue_cap s) else sched_pending s)\<rparr>"
  by (auto simp: Requeue_def Let_def requeue_reset_def sched_send_simps split: option.splits)

lemma dispatch_failed_eq:
  fixes env :: "('b, 'n) Env" and m :: "('b, 'c, 'x, 'n) Master"
  assumes k: "known r (m_sched m)"
  defines "s1 \<equiv> task_upd r (\<lambda>t. t\<lparr>task_Status := TaskStatusFailed,
      task_CompletedAt := Some (env_now_done env)\<rparr>) (m_sched m)"
  shows "m_reg (dispatch_failed env r err m) = m_reg m"
    and "m_store (dispatch_failed env r err m) =
      UpdateJobStatus (task_ID (sched_heap (m_sched m) r)) TaskStatusFailed (m_store m)"
    and "m_sched (dispatch_failed env r err m) =
      (if task_Retries (sched_heap (m_sched m) r) < task_MaxRetries (sched_heap (m_sched m) r)
       then snd (Requeue r s1) else s1)"
  using k by (simp_all add: dispatch_failed_def do_sections mark_known Let_def CanRetry_def s1_def)

lemma dispatch_failure_effect:
  assumes k: "known r (m_sched m)" and load: "sane_load (m_reg m)"
    and nodes: "dispatch_nodes env m \<noteq> []"
    and sel: "env_select env (sched_heap (m_sched m) r) (dispatch_nodes env m) (m_bal m) = (Inr node, b)"
    and fails: "send_fails env node (sched_heap (m_sched m) r) (m_pool m)"
  obtains s1 where "touched r (m_sched m) s1" and "task_Status (sched_heap s1 r) = TaskStatusFailed"
    and "m_reg (dispatchTask env r m) = m_reg m"
    and "m_store (dispatchTask env r m) =
      UpdateJobStatus (task_ID (sched_heap (m_sched m) r)) TaskStatusFailed (m_store m)"
    and "m_sched (dispatchTask env r m) =
      (if task_Retries (sched_heap (m_sched m) r) < task_MaxRetries (sched_heap (m_sched m) r)
       then snd (Requeue r s1) else s1)"
proof -
  define m1 where "m1 = do_ensure env m\<lparr>m_bal := b\<rparr>"
  have m1: "m_sched m1 = m_sched m" "m_store m1 = m_store m" "m_reg m1 = m_reg m" "m_pool m1 = m_pool m"
    by (simp_all add: m1_def)
  obtain e m2 where send: "sendToWorker env node r m1 = (Inl e, m2)"
    using sendToWorker_fails [of r m1 env node] k fails by (auto simp: m1)
  have run: "dispatchTask env r m = dispatch_failed env r e m2"
    using send by (simp add: dispatchTask_selected [OF nodes sel] m1_def)
  have t2: "touched r (m_sched m) (m_sched m2)" and reg2: "m_reg m2 = m_reg m" and st2: "m_store m2 = m_store m"
    using sendToWorker_error [OF _ _ send] k load by (simp_all add: m1)
  have k2: "known r (m_sched m2)" using k by (simp add: touchedD(4) [OF t2])
  note eqs = dispatch_failed_eq [OF k2, of env e, folded run]
  define s1 where "s1 = task_upd r (\<lambda>t. t\<lparr>task_Status := TaskStatusFailed,
      task_CompletedAt := Some (env_now_done env)\<rparr>) (m_sched m2)"
  have "touched r (m_sched m) s1"
    unfolding s1_def by (rule touched_trans [OF t2 touchedI]) simp_all
  then show thesis
    by (rule that) (simp_all add: eqs s1_def reg2 st2 touchedD [OF t2])
qed

lemma Requeue_touched:
  assumes "touched r s s1"
  shows "task_Status (sched_heap (snd (Requeue r s1)) r) = TaskStatusPending"
    and "task_Retries (sched_heap (snd (Requeue r s1)) r) = wrap64 (task_Retries (sched_heap s r) + 1)"
    and "task_MaxRetries (sched_heap (snd (Requeue r s1)) r) = task_MaxRetries (sched_heap s r)"
    and "pending_refs (snd (Requeue r s1)) =
      (if PendingCount s < queue_cap s then pending_refs s @ [r] else pending_refs s)"
    and "queue_cap (snd (Requeue r s1)) = queue_cap s"
  using touchedD(1,6,7) [OF assms]
  by (simp_all add: Requeue_effect requeue_reset_def PendingCount_def chan_len_def)

lemma known_Requeue: "touched r s s1 \<Longrightarrow> known q (snd (Requeue r s1)) = known q s"
  by (simp add: Requeue_effect known_requeue_reset touchedD(4))

text \<open>Claim C8: a dispatch that cannot reach its worker makes the job FAILED in the store, also
  when it will be tried again; leaves every load as it was; and, while the task has retries left,
  counts one and puts it back at the end of the queue as PENDING if the queue has room. On a full
  queue the retry is dropped: the task is PENDING and in no queue. Without retries left it stays
  FAILED.\<close>

theorem dispatch_failure_outcome:
  assumes k: "known r (m_sched m)" and load: "sane_load (m_reg m)"
    and nodes: "dispatch_nodes env m \<noteq> []"
    and sel: "env_select env (sched_heap (m_sched m) r) (dispatch_nodes env m) (m_bal m) = (Inr node, b)"
    and fails: "send_fails env node (sched_heap (m_sched m) r) (m_pool m)"
  shows "let t = sched_heap (m_sched m) r; m' = dispatchTask env r m; t' = sched_heap (m_sched m') r
    in GetJob (task_ID t) (m_store m') =
         map_option (\<lambda>j. j\<lparr>job_Status := TaskStatusFailed\<rparr>) (GetJob (task_ID t) (m_store m)) \<and>
       m_reg m' = m_reg m \<and>
       (if task_Retries t < task_MaxRetries t
        then task_Status t' = TaskStatusPending \<and> task_Retries t' = wrap64 (task_Retries t + 1) \<and>
             pending_refs (m_sched m') =
               (if PendingCount (m_sched m) < queue_cap (m_sched m)
                then pending_refs (m_sched m) @ [r] else pending_refs (m_sched m))
        else task_Status t' = TaskStatusFailed \<and> task_Retries t' = task_Retries t \<and>
             pending_refs (m_sched m') = pending_refs (m_sched m))"
  by (rule dispatch_failure_effect [OF assms])
     (simp add: Let_def store.get_set_status Requeue_touched touchedD)

theorem dispatch_failure_outcome_witness:
  "let m' = dispatchTask (sample_env (Inl ''down'') [''w1'']) 0 (sample_master [] True)
   in pending_refs (m_sched m') = [0] \<and> task_Retries (sched_heap (m_sched m') 0) = 1"
proof -
  let ?m = "sample_master [] True" and ?env = "sample_env (Inl ''down'') [''w1'']"
  have "send_fails ?env sample_node (sched_heap (m_sched ?m) 0) (m_pool ?m)"
    by (simp add: send_fails_def split: sum.split)
  from dispatch_failure_outcome [OF _ _ _ _ this] show ?thesis
    by (simp add: Let_def) (simp add: NewTask_def PendingCount_def chan_len_def)
qed

section \<open>The retry budget\<close>

text \<open>
  The loop with one task in the queue. \<open>waiting r a m\<close>: the queue holds just the task \<open>r\<close>,
  which has used \<open>a\<close> of its retries.
\<close>

definition waiting :: "task_ref \<Rightarrow> int \<Rightarrow> ('b, 'c, 'x, 'n) Master \<Rightarrow> bool" where
  "waiting r a m \<longleftrightarrow> known r (m_sched m) \<and> pending_refs (m_sched m) = [r] \<and>
     0 < queue_cap (m_sched m) \<and> task_Retries (sched_heap (m_sched m) r) = a"

definition unreachable :: "'n ClientPool NodeRegistry \<Rightarrow> ('b, 'n) Env \<Rightarrow> bool" where
  "unreachable reg env \<longleftrightarrow> GetHealthyNodes (env_order env) reg \<noteq> [] \<and>
     (\<forall>t b. \<exists>node b'. env_select env t (GetHealthyNodes (env_order env) reg) b = (Inr node, b')) \<and>
     (\<forall>c q. \<exists>e. env_exec env c q = Inl e)"

lemma unreachable_fails: "unreachable reg env \<Longrightarrow> send_fails env node t p"
proof -
  assume u: "unreachable reg env"
  have "\<exists>e. env_exec env c q = Inl e" for c q using u unfolding unreachable_def by blast
  then show ?thesis
    unfolding send_fails_def by (metis (no_types, lifting) sum.case_eq_if sum.disc(1))
qed

abbreviation dequeued :: "('b, 'c, 'x, 'n) Master \<Rightarrow> ('b, 'c, 'x, 'n) Master" where
  "dequeued m \<equiv> m\<lparr>m_sched := (m_sched m)\<lparr>sched_pending := Chan [] (queue_cap (m_sched m))\<rparr>\<rparr>"

lemma waiting_round:
  assumes "waiting r a m"
  shows "dispatcher_run (RoundDispatch env # rs) m = dispatcher_run rs (dispatchTask env r (dequeued m))"
proof -
  have "sched_recv (m_sched m) = Some (r, m_sched (dequeued m))"
    using assms by (simp add: sched_recv_simps waiting_def)
  then show ?thesis by (simp add: Dequeue_def)
qed

lemma sample_waiting: "waiting 0 0 (sample_master [0] up)"
  by (simp add: waiting_def) (simp add: NewTask_def)

lemma sample_unreachable:
  "unreachable (m_reg (sample_master pend True)) (sample_env (Inl ''down'') [''w1''])"
  by (auto simp: unreachable_def) (auto simp: rr_Select_def)

lemma waiting_dequeued:
  "waiting r a m \<Longrightarrow> known r (m_sched (dequeued m)) \<and> PendingCount (m_sched (dequeued m)) = 0"
  by (simp add: waiting_def PendingCount_def chan_len_def)

lemma waiting_failed:
  assumes w: "waiting r a m" and load: "sane_load (m_reg m)" and u: "unreachable (m_reg m) env"
  defines "m' \<equiv> dispatchTask env r (dequeued m)"
  shows "m_reg m' = m_reg m"
    and "a < task_MaxRetries (sched_heap (m_sched m) r) \<Longrightarrow> waiting r (wrap64 (a + 1)) m' \<and>
      task_MaxRetries (sched_heap (m_sched m') r) = task_MaxRetries (sched_heap (m_sched m) r)"
    and "task_MaxRetries (sched_heap (m_sched m) r) \<le> a \<Longrightarrow>
      pending_refs (m_sched m') = [] \<and> task_Retries (sched_heap (m_sched m') r) = a \<and>
      task_Status (sched_heap (m_sched m') r) = TaskStatusFailed"
proof -
  let ?m = "dequeued m"
  have k: "known r (m_sched ?m)" and n: "PendingCount (m_sched ?m) = 0"
    using waiting_dequeued [OF w] by simp_all
  have nodes: "dispatch_nodes env ?m \<noteq> []"
    using u by (simp add: unreachable_def)
  have "\<exists>node b. env_select env (sched_heap (m_sched ?m) r) (dispatch_nodes env ?m) (m_bal ?m) = (Inr node, b)"
    using u by (simp add: unreachable_def)
  then obtain node b where
    sel: "env_select env (sched_heap (m_sched ?m) r) (dispatch_nodes env ?m) (m_bal ?m) = (Inr node, b)"
    by blast
  have load': "sane_load (m_reg ?m)" using load by simp
  obtain s1 where t1: "touched r (m_sched ?m) s1"
    and st: "task_Status (sched_heap s1 r) = TaskStatusFailed" and reg: "m_reg m' = m_reg ?m"
    and sch: "m_sched m' = (if task_Retries (sched_heap (m_sched ?m) r) <
        task_MaxRetries (sched_heap (m_sched ?m) r) then snd (Requeue r s1) else s1)"
    unfolding m'_def
    by (rule dispatch_failure_effect [OF k load' nodes sel unreachable_fails [OF u]])
  show "m_reg m' = m_reg m" using reg by simp
  show "a < task_MaxRetries (sched_heap (m_sched m) r) \<Longrightarrow> waiting r (wrap64 (a + 1)) m' \<and>
      task_MaxRetries (sched_heap (m_sched m') r) = task_MaxRetries (sched_heap (m_sched m) r)"
    using w k n by (simp add: sch waiting_def Requeue_touched [OF t1] known_Requeue [OF t1])
  show "task_MaxRetries (sched_heap (m_sched m) r) \<le> a \<Longrightarrow>
      pending_refs (m_sched m') = [] \<and> task_Retries (sched_heap (m_sched m') r) = a \<and>
      task_Status (sched_heap (m_sched m') r) = TaskStatusFailed"
    using w by (simp add: sch st waiting_def touchedD [OF t1])
qed

lemma waiting_idle:
  assumes w: "waiting r a m" and idle: "GetHealthyNodes (env_order env) (m_reg m) = []"
  defines "m' \<equiv> dispatchTask env r (dequeued m)"
  shows "m_reg m' = m_reg m \<and> m_store m' = m_store m \<and> waiting r (wrap64 (a + 1)) m' \<and>
    task_MaxRetries (sched_heap (m_sched m') r) = task_MaxRetries (sched_heap (m_sched m) r)"
proof -
  have "m' = do_requeue r (do_ensure env (dequeued m))"
    unfolding m'_def by (rule dispatchTask_idle) (use idle in simp)
  then show ?thesis
    using waiting_dequeued [OF w] w
    by (simp add: do_requeue_def waiting_def Requeue_touched [OF touched_refl]
        known_Requeue [OF touched_refl])
qed

abbreviation run_rounds ::
    "('b, 'n) Env list \<Rightarrow> ('b, 'c, 'x, 'n) Master \<Rightarrow> ('b, 'c, 'x, 'n) Master" where
  "run_rounds envs m \<equiv> dispatcher_run (map RoundDispatch envs) m"

lemma Dequeue_free:
  "pending_refs s = [] \<Longrightarrow> Dequeue False False s = DequeueBlocked"
  "pending_refs s \<noteq> [] \<Longrightarrow> \<exists>r s'. Dequeue False False s = Dequeued r s'"
  using pending.recv_None_iff [of s] by (auto simp: Dequeue_def split: option.splits)

lemma run_rounds_blocked: "pending_refs (m_sched m) = [] \<Longrightarrow> run_rounds envs m = m"
  by (cases envs) (simp_all add: Dequeue_free)

lemma run_rounds_append: "run_rounds (xs @ ys) m = run_rounds ys (run_rounds xs m)"
proof (induction xs arbitrary: m)
  case Nil
  then show ?case by simp
next
  case (Cons env xs)
  show ?case
  proof (cases "pending_refs (m_sched m) = []")
    case True
    then show ?thesis using run_rounds_blocked [OF True] by (metis append_Cons)
  next
    case False
    then obtain r s where "Dequeue False False (m_sched m) = Dequeued r s"
      using Dequeue_free(2) by blast
    then show ?thesis using Cons.IH by simp
  qed
qed

lemma failing_rounds:
  assumes "waiting r a m" and "sane_load (m_reg m)" and "\<forall>env \<in> set envs. unreachable (m_reg m) env"
    and "task_MaxRetries (sched_heap (m_sched m) r) = k" and "in64 k" and "0 \<le> a"
    and "a + int (length envs) \<le> k"
  shows "waiting r (a + int (length envs)) (run_rounds envs m) \<and>
    task_MaxRetries (sched_heap (m_sched (run_rounds envs m)) r) = k \<and>
    m_reg (run_rounds envs m) = m_reg m"
  using assms
proof (induction envs arbitrary: a m)
  case Nil
  then show ?case by simp
next
  case (Cons env envs)
  let ?m = "dispatchTask env r (dequeued m)"
  have u: "unreachable (m_reg m) env" using Cons.prems(3) by simp
  note step = waiting_failed [OF Cons.prems(1,2) u]
  have "wrap64 (a + 1) = a + 1"
    by (rule wrap64_id) (use Cons.prems(5-7) in \<open>simp add: in64_def\<close>)
  then have w: "waiting r (a + 1) ?m" "task_MaxRetries (sched_heap (m_sched ?m) r) = k"
    using step(2) Cons.prems(4,7) by simp_all
  have reg: "m_reg ?m = m_reg m" by (rule step(1))
  have "waiting r (a + 1 + int (length envs)) (run_rounds envs ?m) \<and>
    task_MaxRetries (sched_heap (m_sched (run_rounds envs ?m)) r) = k \<and>
    m_reg (run_rounds envs ?m) = m_reg ?m"
    by (rule Cons.IH) (use Cons.prems w in \<open>simp_all add: reg\<close>)
  then show ?case
    by (simp add: waiting_round [OF Cons.prems(1)] reg add_ac del: dispatcher_run.simps)
qed

lemma last_failing_round:
  assumes w: "waiting r a m" and "sane_load (m_reg m)" and "unreachable (m_reg m) env"
    and "task_MaxRetries (sched_heap (m_sched m) r) \<le> a"
  shows "let s = m_sched (run_rounds (env # envs) m)
    in pending_refs s = [] \<and> task_Retries (sched_heap s r) = a \<and>
       task_Status (sched_heap s r) = TaskStatusFailed"
  using waiting_failed(3) [OF assms]
  by (simp add: waiting_round [OF w] run_rounds_blocked Let_def del: dispatcher_run.simps)

text \<open>Claim C9: a task whose worker never answers is tried exactly \<open>MaxRetries + 1\<close> times: each
  of the first \<open>MaxRetries\<close> failures puts it back in the queue with one more retry counted, the
  next one leaves it FAILED and out of the queue, and the loop finds nothing more to do.\<close>

theorem retry_budget:
  assumes w: "waiting r 0 m" and load: "sane_load (m_reg m)"
    and u: "\<forall>env \<in> set envs. unreachable (m_reg m) env"
    and max: "task_MaxRetries (sched_heap (m_sched m) r) = int k" and k: "in64 (int k)"
  shows "let s = m_sched (run_rounds envs m); n = length envs
    in if n \<le> k then pending_refs s = [r] \<and> task_Retries (sched_heap s r) = int n
       else pending_refs s = [] \<and> task_Retries (sched_heap s r) = int k \<and>
            task_Status (sched_heap s r) = TaskStatusFailed"
proof (cases "length envs \<le> k")
  case True
  with failing_rounds [OF w load u max k] show ?thesis
    by (simp add: Let_def waiting_def)
next
  case False
  define xs where "xs = take k envs"
  obtain env ys where ys: "drop k envs = env # ys"
    using False by (cases "drop k envs") simp_all
  have split: "envs = xs @ env # ys"
    unfolding xs_def ys [symmetric] by simp
  have len: "length xs = k" using False by (simp add: xs_def)
  let ?m = "run_rounds xs m"
  have xs: "waiting r (int k) ?m" "task_MaxRetries (sched_heap (m_sched ?m) r) = int k"
    "m_reg ?m = m_reg m"
    using failing_rounds [OF w load _ max k, of xs] u by (simp_all add: split len)
  have "unreachable (m_reg ?m) env" using u by (simp add: split xs)
  from last_failing_round [OF xs(1) _ this] have "let s = m_sched (run_rounds (env # ys) ?m)
    in pending_refs s = [] \<and> task_Retries (sched_heap s r) = int k \<and>
       task_Status (sched_heap s r) = TaskStatusFailed"
    by (simp add: xs load del: dispatcher_run.simps)
  with False show ?thesis by (simp only: split run_rounds_append Let_def if_False)
qed

theorem retry_budget_witness:
  "let s = m_sched (run_rounds (replicate 4 (sample_env (Inl ''down'') [''w1''])) (sample_master [0] True))
   in pending_refs s = [] \<and> task_Retries (sched_heap s 0) = 3 \<and>
      task_Status (sched_heap s 0) = TaskStatusFailed"
proof -
  have "task_MaxRetries (sched_heap (m_sched (sample_master [0] True)) 0) = int 3"
    by (simp add: NewTask_def)
  from retry_budget [OF sample_waiting _ _ this, of "replicate 4 (sample_env (Inl ''down'') [''w1''])"]
  show ?thesis
    by (simp add: sample_unreachable in64_def Let_def del: dispatcher_run.simps replicate.simps map_replicate)
qed

lemma idle_rounds:
  assumes "waiting r a m" and "\<forall>env \<in> set envs. GetHealthyNodes (env_order env) (m_reg m) = []"
    and "0 \<le> a" and "in64 (a + int (length envs))"
    and "task_MaxRetries (sched_heap (m_sched m) r) = k"
  shows "waiting r (a + int (length envs)) (run_rounds envs m) \<and>
    task_MaxRetries (sched_heap (m_sched (run_rounds envs m)) r) = k \<and>
    m_store (run_rounds envs m) = m_store m"
  using assms
proof (induction envs arbitrary: a m)
  case Nil
  then show ?case by simp
next
  case (Cons env envs)
  let ?m = "dispatchTask env r (dequeued m)"
  have idle: "GetHealthyNodes (env_order env) (m_reg m) = []" using Cons.prems(2) by simp
  note step = waiting_idle [OF Cons.prems(1) idle]
  have "wrap64 (a + 1) = a + 1"
    by (rule wrap64_id) (use Cons.prems(3,4) in \<open>simp add: in64_def\<close>)
  with step have w: "waiting r (a + 1) ?m" by simp
  have "waiting r (a + 1 + int (length envs)) (run_rounds envs ?m) \<and>
    task_MaxRetries (sched_heap (m_sched (run_rounds envs ?m)) r) = k \<and>
    m_store (run_rounds envs ?m) = m_store ?m"
    by (rule Cons.IH) (use Cons.prems step w in \<open>simp_all add: add_ac\<close>)
  then show ?case
    using step
    by (simp add: waiting_round [OF Cons.prems(1)] add_ac del: dispatcher_run.simps)
qed

text \<open>Rounds that find no healthy node spend the retry budget without limit and without
  leaving a trace in the job store. Once \<open>MaxRetries\<close> of them have passed, the first attempt
  that reaches a node and fails is final, whatever nodes have registered by then.\<close>

theorem idle_rounds_spend_retries:
  assumes w: "waiting r 0 m"
    and idle: "\<forall>env \<in> set envs. GetHealthyNodes (env_order env) (m_reg m) = []"
    and "task_MaxRetries (sched_heap (m_sched m) r) \<le> int (length envs)"
    and "in64 (int (length envs))"
    and "sane_load reg" and "unreachable reg env"
  shows "let m1 = run_rounds envs m; m2 = run_rounds [env] (m1\<lparr>m_reg := reg\<rparr>)
    in m_store m1 = m_store m \<and> pending_refs (m_sched m1) = [r] \<and>
       task_Retries (sched_heap (m_sched m1) r) = int (length envs) \<and>
       pending_refs (m_sched m2) = [] \<and> task_Status (sched_heap (m_sched m2) r) = TaskStatusFailed"
proof -
  let ?m1 = "run_rounds envs m\<lparr>m_reg := reg\<rparr>"
  have m1: "waiting r (int (length envs)) (run_rounds envs m)" "m_store (run_rounds envs m) = m_store m"
    "task_MaxRetries (sched_heap (m_sched (run_rounds envs m)) r) =
     task_MaxRetries (sched_heap (m_sched m) r)"
    using idle_rounds [OF w idle _ _ refl] assms(4) by simp_all
  then have "waiting r (int (length envs)) ?m1" by (simp add: waiting_def)
  from last_failing_round [OF this, of env "[]"] m1 assms(3,5,6) show ?thesis
    by (simp add: Let_def waiting_def del: dispatcher_run.simps)
qed

theorem idle_rounds_spend_retries_witness:
  "let m1 = run_rounds (replicate 3 (sample_env (Inl ''down'') [])) (sample_master [0] False);
       m2 = run_rounds [sample_env (Inl ''down'') [''w1'']] (m1\<lparr>m_reg := m_reg (sample_master [] True)\<rparr>)
   in pending_refs (m_sched m1) = [0] \<and> pending_refs (m_sched m2) = []"
proof -
  have "task_MaxRetries (sched_heap (m_sched (sample_master [0] False)) 0) \<le>
      int (length (replicate 3 (sample_env (Inl ''down'') [])))"
    by (simp add: NewTask_def)
  from idle_rounds_spend_retries [OF sample_waiting _ this _ _ sample_unreachable [of "[]"]]
  show ?thesis
    by (simp add: in64_def Let_def del: dispatcher_run.simps map_replicate)
qed

end
