(* ===== verification/Config.thy ===== *)
theory Config
  imports Prelude "HOL-Library.Sublist"
begin

text \<open>
  \<open>internal/config\<close>: the configuration of master and worker and the parsing of the command
  lists. Reading the environment is the third-party package \<open>envconfig\<close>: its outcome is an
  argument of the loaders. Strings are lists of bytes, and \<open>strings.TrimSpace\<close> is given on the UTF-8
  encodings of Unicode white space.
\<close>

section \<open>Configuration records\<close>

record MasterConfig =
  mc_Address :: string
  mc_MaxConcurrentJobs :: int
  mc_HeartbeatTimeout :: int
  mc_LogLevel :: string
  mc_ScalingEnabled :: bool
  mc_K8sNamespace :: string
  mc_WorkerDeployment :: string

text \<open>The defaults of the struct tags, which \<open>envconfig\<close> uses for variables that are not set.\<close>

definition default_master_config :: MasterConfig where
  "default_master_config = \<lparr>mc_Address = '':50051'', mc_MaxConcurrentJobs = 10000,
     mc_HeartbeatTimeout = 15, mc_LogLevel = ''info'', mc_ScalingEnabled = False,
     mc_K8sNamespace = ''default'', mc_WorkerDeployment = ''dist-exec-worker''\<rparr>"

record CommandExecutorConfig =
  cc_Enabled :: bool
  cc_AllowedCommands :: string
  cc_BlockedCommands :: string

record ExecutorConfig =
  xc_Command :: CommandExecutorConfig

record WorkerConfig =
  wc_ID :: string
  wc_Address :: string
  wc_MasterAddress :: string
  wc_MaxConcurrentTasks :: int
  wc_HeartbeatInterval :: int
  wc_LogLevel :: string
  wc_Executors :: ExecutorConfig

text \<open>\<open>Load\<close> and \<open>LoadMaster\<close> return what \<open>envconfig.Process\<close> made of the struct.\<close>

definition Load :: "string + 'a \<Rightarrow> string + 'a" where
  "Load processed =
     (case processed of Inl err \<Rightarrow> Inl (''config load failed: '' @ err) | Inr cfg \<Rightarrow> Inr cfg)"

definition LoadMaster :: "string + MasterConfig \<Rightarrow> string + MasterConfig" where
  "LoadMaster processed = processed"

text \<open>\<open>hostname\<close> is what \<open>os.Hostname\<close> returned, empty when it failed.\<close>

definition LoadWorker :: "string \<Rightarrow> string + WorkerConfig \<Rightarrow> string + WorkerConfig" where
  "LoadWorker hostname processed =
     (case processed of
        Inl err \<Rightarrow> Inl err
      | Inr cfg \<Rightarrow>
          Inr (if wc_ID cfg = ''''
               then cfg\<lparr>wc_ID := (if hostname \<noteq> '''' then hostname else ''worker-1'')\<rparr>
               else cfg))"

section \<open>Comma-separated lists\<close>

text \<open>\<open>strings.Split\<close> with a one-byte separator: one part more than there are separators.\<close>

fun split_on :: "char \<Rightarrow> string \<Rightarrow> string list" where
  "split_on c [] = [[]]"
| "split_on c (x # xs) =
     (if x = c then [] # split_on c xs
      else (case split_on c xs of [] \<Rightarrow> [[x]] | p # ps \<Rightarrow> (x # p) # ps))"

text \<open>
  The UTF-8 encodings of the runes for which \<open>unicode.IsSpace\<close> holds: the ASCII white space, U+0085,
  U+00A0, U+1680, U+2000 to U+200A, U+2028, U+2029, U+202F, U+205F and U+3000.
\<close>

definition space_runes :: "string list" where
  "space_runes =
     [[CHR 0x20], [CHR 0x09], [CHR 0x0A], [CHR 0x0B], [CHR 0x0C], [CHR 0x0D],
      [CHR 0xC2, CHR 0x85], [CHR 0xC2, CHR 0xA0], [CHR 0xE1, CHR 0x9A, CHR 0x80],
      [CHR 0xE2, CHR 0x80, CHR 0x80], [CHR 0xE2, CHR 0x80, CHR 0x81], [CHR 0xE2, CHR 0x80, CHR 0x82], [CHR 0xE2, CHR 0x80, CHR 0x83],
      [CHR 0xE2, CHR 0x80, CHR 0x84], [CHR 0xE2, CHR 0x80, CHR 0x85], [CHR 0xE2, CHR 0x80, CHR 0x86], [CHR 0xE2, CHR 0x80, CHR 0x87],
      [CHR 0xE2, CHR 0x80, CHR 0x88], [CHR 0xE2, CHR 0x80, CHR 0x89], [CHR 0xE2, CHR 0x80, CHR 0x8A],
      [CHR 0xE2, CHR 0x80, CHR 0xA8], [CHR 0xE2, CHR 0x80, CHR 0xA9], [CHR 0xE2, CHR 0x80, CHR 0xAF], [CHR 0xE2, CHR 0x81, CHR 0x9F], [CHR 0xE3, CHR 0x80, CHR 0x80]]"

text \<open>
  \<open>strings.TrimSpace\<close> decodes runes from the front as long as they are white space, and then from the
  back. The first rune of a string is a given white space exactly when the string begins with its
  encoding, and the last one when the string ends with it; a byte that is not valid UTF-8 decodes to
  U+FFFD, which is no white space.
\<close>

function strip_front :: "string list \<Rightarrow> string \<Rightarrow> string" where
  "strip_front es s =
     (case find (\<lambda>e. e \<noteq> [] \<and> prefix e s) es of
        None \<Rightarrow> s
      | Some e \<Rightarrow> strip_front es (drop (length e) s))"
  by pat_completeness auto
termination
proof (relation "measure (\<lambda>(es, s). length s)")
  fix es s e
  assume "find (\<lambda>e. e \<noteq> [] \<and> prefix e s) es = Some e"
  then have "e \<noteq> [] \<and> prefix e s" by (auto simp: find_Some_iff)
  then show "((es, drop (length e) s), es, s) \<in> measure (\<lambda>(es, s). length s)"
    by (cases s) auto
qed simp

declare strip_front.simps [simp del]

definition strip_back :: "string list \<Rightarrow> string \<Rightarrow> string" where
  "strip_back es s = rev (strip_front (map rev es) (rev s))"

definition TrimSpace :: "string \<Rightarrow> string" where
  "TrimSpace s = strip_back space_runes (strip_front space_runes s)"

fun csv_loop :: "string list \<Rightarrow> string list \<Rightarrow> string list" where
  "csv_loop result [] = result"
| "csv_loop result (p # ps) =
     (let p' = TrimSpace p in csv_loop (if p' \<noteq> '''' then result @ [p'] else result) ps)"

definition splitCSV :: "string \<Rightarrow> string list" where
  "splitCSV s = (if s = '''' then [] else csv_loop [] (split_on (CHR '','') s))"

definition AllowedCommandsList :: "CommandExecutorConfig \<Rightarrow> string list" where
  "AllowedCommandsList c = splitCSV (cc_AllowedCommands c)"

definition BlockedCommandsList :: "CommandExecutorConfig \<Rightarrow> string list" where
  "BlockedCommandsList c = splitCSV (cc_BlockedCommands c)"

section \<open>What the parsing guarantees\<close>

lemma split_on_nonempty [simp]: "split_on c s \<noteq> []"
  by (induction s) (auto split: list.splits)

lemma split_on_parts: "p \<in> set (split_on c s) \<Longrightarrow> c \<notin> set p"
  by (induction s arbitrary: p) (fastforce split: if_splits list.splits)+

lemma split_on_block: "c \<notin> set p \<Longrightarrow> split_on c p = [p]"
  by (induction p) auto

lemma split_on_append: "c \<notin> set p \<Longrightarrow> split_on c (p @ c # s) = p # split_on c s"
  by (induction p) auto

section \<open>Trimming\<close>

definition no_outer :: "string list \<Rightarrow> string \<Rightarrow> bool" where
  "no_outer es s \<longleftrightarrow> (\<forall>e \<in> set es. \<not> prefix e s \<and> \<not> suffix e s)"

lemma strip_front_eq:
  "find (\<lambda>e. e \<noteq> [] \<and> prefix e s) es = None \<Longrightarrow> strip_front es s = s"
  "find (\<lambda>e. e \<noteq> [] \<and> prefix e s) es = Some e \<Longrightarrow> strip_front es s = strip_front es (drop (length e) s)"
  by (subst strip_front.simps, simp)+

lemma strip_front_suffix: "suffix (strip_front es s) s"
proof (induction es s rule: strip_front.induct)
  case (1 es s)
  show ?case
  proof (cases "find (\<lambda>e. e \<noteq> [] \<and> prefix e s) es")
    case None
    then show ?thesis by (simp add: strip_front_eq)
  next
    case (Some e)
    from 1 [OF this] suffix_drop [of "length e" s] Some show ?thesis
      by (metis suffix_order.trans strip_front_eq)
  qed
qed

lemma strip_front_stop: "e \<in> set es \<Longrightarrow> e \<noteq> [] \<Longrightarrow> \<not> prefix e (strip_front es s)"
proof (induction es s rule: strip_front.induct)
  case (1 es s)
  show ?case
  proof (cases "find (\<lambda>e. e \<noteq> [] \<and> prefix e s) es")
    case None
    then have "strip_front es s = s" and "\<forall>e \<in> set es. e = [] \<or> \<not> prefix e s"
      by (simp_all add: strip_front_eq find_None_iff)
    with 1(2,3) show ?thesis by auto
  next
    case (Some e)
    with 1 show ?thesis by (simp add: strip_front_eq)
  qed
qed

lemma strip_front_id: "(\<And>e. e \<in> set es \<Longrightarrow> \<not> prefix e s) \<Longrightarrow> strip_front es s = s"
  by (subst strip_front.simps) (auto split: option.split simp: find_Some_iff)

lemma strip_back_prefix: "prefix (strip_back es s) s"
  using strip_front_suffix [of "map rev es" "rev s"] by (simp add: strip_back_def suffix_to_prefix)

lemma strip_back_stop: "e \<in> set es \<Longrightarrow> e \<noteq> [] \<Longrightarrow> \<not> suffix e (strip_back es s)"
  using strip_front_stop [of "rev e" "map rev es" "rev s"] by (simp add: strip_back_def suffix_to_prefix)

lemma strip_back_id: "(\<And>e. e \<in> set es \<Longrightarrow> \<not> suffix e s) \<Longrightarrow> strip_back es s = s"
  unfolding strip_back_def
  by (subst strip_front_id) (auto simp: suffix_to_prefix)

lemma space_runes_nonempty: "e \<in> set space_runes \<Longrightarrow> e \<noteq> []"
  by (auto simp: space_runes_def)

lemma TrimSpace_trimmed: "no_outer space_runes (TrimSpace s)"
  using strip_front_stop strip_back_stop strip_back_prefix space_runes_nonempty
  unfolding no_outer_def TrimSpace_def by (metis prefix_order.trans)

lemma TrimSpace_subset: "set (TrimSpace s) \<subseteq> set s"
  using set_mono_prefix [OF strip_back_prefix] set_mono_suffix [OF strip_front_suffix]
  unfolding TrimSpace_def by blast

lemma TrimSpace_id: "no_outer space_runes s \<Longrightarrow> TrimSpace s = s"
  by (simp add: TrimSpace_def no_outer_def strip_front_id strip_back_id)

text \<open>An entry the parser can return: not empty, without separators, and neither beginning nor ending with
  white space, be it ASCII or the UTF-8 encoding of another white-space character.\<close>

definition csv_entry :: "string \<Rightarrow> bool" where
  "csv_entry p \<longleftrightarrow> p \<noteq> [] \<and> CHR '','' \<notin> set p \<and> no_outer space_runes p"

lemma csv_loop_eq: "csv_loop acc ps = acc @ filter (\<lambda>p. p \<noteq> '''') (map TrimSpace ps)"
  by (induction ps arbitrary: acc) (auto simp: Let_def)

lemma splitCSV_eq:
  "splitCSV s = filter (\<lambda>p. p \<noteq> '''') (map TrimSpace (split_on (CHR '','') s))"
  by (simp add: splitCSV_def csv_loop_eq TrimSpace_id no_outer_def space_runes_nonempty)

fun join_csv :: "string list \<Rightarrow> string" where
  "join_csv [] = []"
| "join_csv [p] = p"
| "join_csv (p # ps) = p @ CHR '','' # join_csv ps"

lemma split_join:
  "ps \<noteq> [] \<Longrightarrow> \<forall>p \<in> set ps. CHR '','' \<notin> set p \<Longrightarrow> split_on (CHR '','') (join_csv ps) = ps"
  by (induction ps rule: join_csv.induct) (simp_all add: split_on_block split_on_append)

text \<open>Claim C40: the parser of command lists returns only entries that are not empty, hold no
  comma and carry no outer white space, Unicode's included, and it recovers any list of such entries from its
  comma-separated form.\<close>

theorem splitCSV_roundtrip:
  "(\<forall>p \<in> set (splitCSV s). csv_entry p) \<and>
   ((\<forall>p \<in> set ps. csv_entry p) \<longrightarrow> splitCSV (join_csv ps) = ps)"
proof (intro conjI ballI impI)
  fix p assume "p \<in> set (splitCSV s)"
  then obtain q where q: "q \<in> set (split_on (CHR '','') s)" "p = TrimSpace q" "p \<noteq> []"
    by (auto simp: splitCSV_eq)
  then have "CHR '','' \<notin> set p"
    using split_on_parts TrimSpace_subset by blast
  with q TrimSpace_trimmed [of q] show "csv_entry p" by (simp add: csv_entry_def)
next
  assume *: "\<forall>p \<in> set ps. csv_entry p"
  then have trim: "map TrimSpace ps = ps"
    by (simp add: map_idI TrimSpace_id csv_entry_def)
  show "splitCSV (join_csv ps) = ps"
  proof (cases "ps = []")
    case True
    then show ?thesis by (simp add: splitCSV_def)
  next
    case False
    with * have "split_on (CHR '','') (join_csv ps) = ps"
      by (intro split_join) (auto simp: csv_entry_def)
    with * show ?thesis
      by (auto simp: splitCSV_eq trim csv_entry_def intro: filter_True)
  qed
qed

lemma sample_entries: "csv_entry ''ls'' \<and> csv_entry ''cat''"
  by (simp add: csv_entry_def no_outer_def space_runes_def suffix_to_prefix)

text \<open>A no-break space before a command is removed.\<close>

lemma TrimSpace_no_break: "TrimSpace (CHR 0xC2 # CHR 0xA0 # ''ls'') = ''ls''"
  by (simp add: TrimSpace_def strip_back_def strip_front.simps space_runes_def)

theorem splitCSV_roundtrip_witness:
  "splitCSV ''ls,cat'' = [''ls'', ''cat''] \<and> csv_entry ''ls''"
  using splitCSV_roundtrip [of "''ls,cat''" "[''ls'', ''cat'']"] sample_entries
  by simp

end
