(* ===== verification/MasterServer.thy ===== *)
theory MasterServer
  imports Dispatch Config
begin

text \<open>
  \<open>internal/master/server.go\<close>: the assembly of the master from its components and the request
  handlers of its two gRPC services. Each handler takes the request, the clock readings it makes
  and what it draws from outside (a fresh UUID, the order of a map) and returns the response or a
  gRPC error with the new state.
\<close>

section \<open>The server\<close>

record ('c, 'x, 'n) Server =
  srv_cfg :: MasterConfig
  srv_m :: "(RoundRobinBalancer, 'c, 'x, 'n) Master"
  srv_serving :: bool

definition master_dispatcher_config :: DispatcherConfig where
  "master_dispatcher_config =
     \<lparr>dc_TaskTimeout = 30 * second, dc_RetryDelay = 1 * second, dc_MaxRetries = 3\<rparr>"

text \<open>
  \<open>NewServer\<close>: \<open>in_cluster\<close> is the outcome of \<open>rest.InClusterConfig\<close>, \<open>new_for_config\<close> is
  \<open>kubernetes.NewForConfig\<close>, and \<open>cluster\<close> is the state behind the API.
\<close>

definition new_server_scaler ::
    "MasterConfig \<Rightarrow> string + 'k \<Rightarrow> ('k \<Rightarrow> string + ('c, 'x) K8s) \<Rightarrow> ('c, 'x) AutoScaler" where
  "new_server_scaler cfg in_cluster new_for_config =
     (let scalerCfg = DefaultScalerConfig\<lparr>cfg_Enabled := mc_ScalingEnabled cfg\<rparr>
      in if mc_ScalingEnabled cfg
         then (case in_cluster of
                 Inl err \<Rightarrow> NewAutoScaler scalerCfg
               | Inr k8sConfig \<Rightarrow>
                   (case new_for_config k8sConfig of
                      Inl err \<Rightarrow> NewAutoScaler scalerCfg
                    | Inr k8sClient \<Rightarrow> NewAutoScalerWithK8s scalerCfg (Some k8sClient)
                        (mc_K8sNamespace cfg) (mc_WorkerDeployment cfg)))
         else NewAutoScaler scalerCfg)"

definition NewServer ::
    "MasterConfig \<Rightarrow> string + 'k \<Rightarrow> ('k \<Rightarrow> string + ('c, 'x) K8s) \<Rightarrow> 'c \<Rightarrow> ('c, 'x, 'n) Server" where
  "NewServer cfg in_cluster new_for_config cluster =
     (let registry = NewNodeRegistry (wrap64 (mc_HeartbeatTimeout cfg * second))
                       (wrap64 (wrap64 (mc_HeartbeatTimeout cfg * 2) * second))
      in \<lparr>srv_cfg = cfg,
          srv_m = \<lparr>m_sched = NewScheduler (mc_MaxConcurrentJobs cfg), m_store = NewStore,
                   m_reg = SetNodeRemovedCallback RemoveClient registry,
                   m_bal = NewRoundRobinBalancer,
                   m_scaler = Some (new_server_scaler cfg in_cluster new_for_config),
                   m_cluster = cluster, m_pool = empty_pool,
                   m_dcfg = NewDispatcherConfig master_dispatcher_config\<rparr>,
          srv_serving = True\<rparr>)"

section \<open>Status codes of jobs\<close>

fun toProtoJobStatus :: "TaskStatus \<Rightarrow> JobStatus" where
  "toProtoJobStatus TaskStatusPending = JOB_STATUS_PENDING"
| "toProtoJobStatus TaskStatusRunning = JOB_STATUS_RUNNING"
| "toProtoJobStatus TaskStatusCompleted = JOB_STATUS_COMPLETED"
| "toProtoJobStatus TaskStatusFailed = JOB_STATUS_FAILED"
| "toProtoJobStatus TaskStatusCancelled = JOB_STATUS_CANCELLED"
| "toProtoJobStatus TaskStatusTimeout = JOB_STATUS_TIMEOUT"
| "toProtoJobStatus _ = JOB_STATUS_UNSPECIFIED"

fun fromProtoJobStatus :: "JobStatus \<Rightarrow> TaskStatus" where
  "fromProtoJobStatus JOB_STATUS_PENDING = TaskStatusPending"
| "fromProtoJobStatus JOB_STATUS_RUNNING = TaskStatusRunning"
| "fromProtoJobStatus JOB_STATUS_COMPLETED = TaskStatusCompleted"
| "fromProtoJobStatus JOB_STATUS_FAILED = TaskStatusFailed"
| "fromProtoJobStatus JOB_STATUS_CANCELLED = TaskStatusCancelled"
| "fromProtoJobStatus JOB_STATUS_TIMEOUT = TaskStatusTimeout"
| "fromProtoJobStatus _ = TaskStatusCreated"

section \<open>Master service\<close>

text \<open>
  \<open>Submit\<close> in its two halves: the job goes into the store, then the task into the queue. In
  between, other goroutines run.
\<close>

fun sched_error_text :: "sched_error \<Rightarrow> string" where
  "sched_error_text ErrQueueFull = ''task queue is full''"
| "sched_error_text ErrTaskExists = ''task already exists''"
| "sched_error_text ErrTaskNotFound = ''task not found''"

definition submit_timeout :: "SubmitRequest \<Rightarrow> duration" where
  "submit_timeout req = (case sub_Timeout req of None \<Rightarrow> 30 * second | Some d \<Rightarrow> d)"

definition submit_job :: "string \<Rightarrow> time \<Rightarrow> SubmitRequest \<Rightarrow> Job" where
  "submit_job jobID now req = \<lparr>job_ID = jobID, job_TaskType = sub_TaskType req,
     job_Payload = sub_Payload req, job_Priority = sub_Priority req, job_Timeout = submit_timeout req,
     job_Metadata = sub_Metadata req, job_CreatedAt = now, job_Status = TaskStatusPending,
     job_Result = None\<rparr>"

definition submit_task :: "string \<Rightarrow> time \<Rightarrow> SubmitRequest \<Rightarrow> Task" where
  "submit_task jobID now req = (NewTask jobID (sub_TaskType req) (sub_Payload req) now)
     \<lparr>task_Priority := sub_Priority req, task_Timeout := submit_timeout req,
      task_Metadata := sub_Metadata req\<rparr>"

definition do_save_job :: "Job \<Rightarrow> ('b, 'c, 'x, 'n) Master \<Rightarrow> ('b, 'c, 'x, 'n) Master" where
  "do_save_job job m = m\<lparr>m_store := SaveJob job (m_store m)\<rparr>"

definition do_new_task :: "Task \<Rightarrow> ('b, 'c, 'x, 'n) Master \<Rightarrow> task_ref \<times> ('b, 'c, 'x, 'n) Master" where
  "do_new_task t m = (let (r, s) = task_alloc t (m_sched m) in (r, m\<lparr>m_sched := s\<rparr>))"

definition Submit ::
    "string \<Rightarrow> time \<Rightarrow> time \<Rightarrow> SubmitRequest \<Rightarrow> ('b, 'c, 'x, 'n) Master \<Rightarrow>
     (grpc_error + SubmitResponse) \<times> ('b, 'c, 'x, 'n) Master" where
  "Submit jobID now now' req m =
     (if sub_TaskType req = '''' then (Inl (GrpcError InvalidArgument ''task_type is required''), m)
      else if length (sub_Payload req) = 0
      then (Inl (GrpcError InvalidArgument ''payload is required''), m)
      else
        let m1 = do_save_job (submit_job jobID now req) m;
            (r, m2) = do_new_task (submit_task jobID now' req) m1
        in (case Enqueue r (m_sched m2) of
              (Some err, s) \<Rightarrow>
                (Inl (GrpcError ResourceExhausted (''queue full: '' @ sched_error_text err)), m2\<lparr>m_sched := s\<rparr>)
            | (None, s) \<Rightarrow> (Inr \<lparr>sub_JobId = jobID\<rparr>, m2\<lparr>m_sched := s\<rparr>)))"

definition status_response :: "Job \<Rightarrow> GetStatusResponse" where
  "status_response job =
     (let resp = \<lparr>gs_JobId = job_ID job, gs_Status = toProtoJobStatus (job_Status job), gs_Output = [],
            gs_Error = '''', gs_ExitCode = 0, gs_CreatedAt = Some (job_CreatedAt job),
            gs_StartedAt = None, gs_CompletedAt = None, gs_WorkerId = ''''\<rparr>
      in case job_Result job of
           None \<Rightarrow> resp
         | Some res \<Rightarrow> resp\<lparr>gs_Output := res_Output res, gs_Error := res_Error res,
             gs_ExitCode := wrap32 (res_ExitCode res), gs_WorkerId := res_WorkerID res,
             gs_CompletedAt := Some (res_CompletedAt res)\<rparr>)"

definition GetStatus :: "string \<Rightarrow> ('b, 'c, 'x, 'n) Master \<Rightarrow> grpc_error + GetStatusResponse" where
  "GetStatus jobID m =
     (if jobID = '''' then Inl (GrpcError InvalidArgument ''job_id is required'')
      else case GetJob jobID (m_store m) of
             None \<Rightarrow> Inl (GrpcError NotFound (''job '' @ jobID @ '' not found''))
           | Some job \<Rightarrow> Inr (status_response job))"

text \<open>\<open>Cancel\<close> reads the status and, in a second critical section, writes it.\<close>

definition cancellable :: "TaskStatus \<Rightarrow> bool" where
  "cancellable st \<longleftrightarrow> st = TaskStatusPending \<or> st = TaskStatusRunning"

definition do_cancel :: "string \<Rightarrow> ('b, 'c, 'x, 'n) Master \<Rightarrow> ('b, 'c, 'x, 'n) Master" where
  "do_cancel jobID m = m\<lparr>m_store := UpdateJobStatus jobID TaskStatusCancelled (m_store m)\<rparr>"

definition Cancel ::
    "string \<Rightarrow> ('b, 'c, 'x, 'n) Master \<Rightarrow> (grpc_error + CancelResponse) \<times> ('b, 'c, 'x, 'n) Master" where
  "Cancel jobID m =
     (if jobID = '''' then (Inl (GrpcError InvalidArgument ''job_id is required''), m)
      else case GetJob jobID (m_store m) of
             None \<Rightarrow> (Inl (GrpcError NotFound (''job '' @ jobID @ '' not found'')), m)
           | Some job \<Rightarrow>
               if cancellable (job_Status job)
               then (Inr \<lparr>can_Cancelled = True, can_Message = ''job cancelled''\<rparr>, do_cancel jobID m)
               else (Inr \<lparr>can_Cancelled = False,
                       can_Message = ''cannot cancel job in state '' @ TaskStatus_String (job_Status job)\<rparr>, m))"

definition list_limit :: "int \<Rightarrow> int" where
  "list_limit l = (let limit = (if l \<le> 0 then 10 else l) in if 100 < limit then 100 else limit)"

definition list_offset :: "int \<Rightarrow> int" where
  "list_offset o' = (if o' < 0 then 0 else o')"

definition job_summary :: "Job \<Rightarrow> JobSummary" where
  "job_summary job = \<lparr>js_JobId = job_ID job, js_TaskType = job_TaskType job,
     js_Status = toProtoJobStatus (job_Status job), js_CreatedAt = Some (job_CreatedAt job)\<rparr>"

definition Server_ListJobs ::
    "string list \<Rightarrow> ListJobsRequest \<Rightarrow> ('b, 'c, 'x, 'n) Master \<Rightarrow> ListJobsResponse" where
  "Server_ListJobs ks req m =
     (let jobs = ListJobs (fromProtoJobStatus (lj_StatusFilter req)) (list_limit (lj_Limit req))
                   (list_offset (lj_Offset req)) ks (m_store m)
      in \<lparr>lj_Jobs = map job_summary jobs, lj_Total = wrap32 (Count (m_store m))\<rparr>)"

definition StreamOutput :: "string \<Rightarrow> grpc_error" where
  "StreamOutput jobID = GrpcError Unimplemented ''streaming not yet implemented''"

section \<open>Registration service\<close>

definition register_node :: "RegisterRequest \<Rightarrow> NodeInfo" where
  "register_node req = zero_node\<lparr>node_ID := rq_WorkerId req, node_Address := rq_Address req,
     node_Capabilities := rq_Capabilities req, node_MaxTasks := rq_MaxConcurrentTasks req,
     node_Labels := rq_Labels req\<rparr>"

text \<open>\<open>registry.Register\<close> and \<open>registry.Deregister\<close> never return an error.\<close>

definition Server_Register ::
    "time \<Rightarrow> RegisterRequest \<Rightarrow> ('b, 'c, 'x, 'n) Master \<Rightarrow>
     (grpc_error + RegisterResponse) \<times> ('b, 'c, 'x, 'n) Master" where
  "Server_Register now req m =
     (if rq_WorkerId req = '''' then (Inl (GrpcError InvalidArgument ''worker_id is required''), m)
      else if rq_Address req = '''' then (Inl (GrpcError InvalidArgument ''address is required''), m)
      else (Inr \<lparr>rp_Accepted = True, rp_Message = ''registration successful'',
              rp_HeartbeatInterval = Some (5 * second)\<rparr>,
            m\<lparr>m_reg := Register (register_node req) now (m_reg m)\<rparr>))"

definition Server_Deregister ::
    "string \<Rightarrow> ('b, 'c, 'x, 'n) Master \<Rightarrow> (grpc_error + bool) \<times> ('b, 'c, 'x, 'n) Master" where
  "Server_Deregister workerID m =
     (if workerID = '''' then (Inl (GrpcError InvalidArgument ''worker_id is required''), m)
      else (Inr True, m\<lparr>m_reg := Deregister workerID (m_reg m),
                        m_pool := RemoveClient workerID (m_pool m)\<rparr>))"

definition Server_Heartbeat ::
    "time \<Rightarrow> HeartbeatRequest \<Rightarrow> ('b, 'c, 'x, 'n) Master \<Rightarrow>
     (grpc_error + HeartbeatResponse) \<times> ('b, 'c, 'x, 'n) Master" where
  "Server_Heartbeat now req m =
     (if hb_WorkerId req = '''' then (Inl (GrpcError InvalidArgument ''worker_id is required''), m)
      else case Heartbeat (hb_WorkerId req) (hb_ActiveTasks req) now (m_reg m) of
             (False, reg) \<Rightarrow> (Inr \<lparr>hb_Acknowledged = False, hb_Action = HEARTBEAT_ACTION_NONE\<rparr>, m\<lparr>m_reg := reg\<rparr>)
           | (True, reg) \<Rightarrow> (Inr \<lparr>hb_Acknowledged = True, hb_Action = HEARTBEAT_ACTION_NONE\<rparr>, m\<lparr>m_reg := reg\<rparr>))"

section \<open>Background work\<close>

text \<open>One tick of the health monitor, with the callback acting on the dispatcher's pool.\<close>

definition health_tick :: "time \<Rightarrow> string list \<Rightarrow> ('b, 'c, 'x, 'n) Master \<Rightarrow> ('b, 'c, 'x, 'n) Master" where
  "health_tick now ks m =
     (let (reg, pool) = checkHealth now ks (m_reg m) (m_pool m) in m\<lparr>m_reg := reg, m_pool := pool\<rparr>)"

text \<open>One tick of the five-minute scale-down timer; an error is only logged.\<close>

definition scale_down_tick :: "string list \<Rightarrow> ('b, 'c, 'x, 'n) Master \<Rightarrow> ('b, 'c, 'x, 'n) Master" where
  "scale_down_tick ks m =
     (case m_scaler m of
        None \<Rightarrow> m
      | Some sc \<Rightarrow> m\<lparr>m_cluster := snd (ScaleDown ks (m_reg m) sc (m_cluster m))\<rparr>)"

text \<open>The shutdown goroutine: the health service reports NOT\_SERVING before the server stops.\<close>

definition begin_shutdown :: "('c, 'x, 'n) Server \<Rightarrow> ('c, 'x, 'n) Server" where
  "begin_shutdown s = s\<lparr>srv_serving := False\<rparr>"

end
