(* ===== verification/Service.thy ===== *)
theory Service
  imports MasterServer
begin

text \<open>
  Properties of the master's two gRPC services: what each handler answers and does on every
  branch, and what a job looks like from submission to status query.
\<close>

section \<open>Status codes\<close>

text \<open>Every named job status survives the way over the wire and back, and a value that
  no constant names comes back as the zero status, which a list request reads as no filter.\<close>

theorem job_status_roundtrip:
  "fromProtoJobStatus (toProtoJobStatus st) = (case st of TaskStatusOther _ \<Rightarrow> TaskStatusCreated | _ \<Rightarrow> st) \<and>
   toProtoJobStatus (fromProtoJobStatus p) =
     (case p of JOB_STATUS_UNRECOGNIZED _ \<Rightarrow> JOB_STATUS_UNSPECIFIED | _ \<Rightarrow> p)"
  by (cases st; cases p) simp_all

section \<open>Submission\<close>

lemma submit_IDs [simp]:
  "job_ID (submit_job i now req) = i" "task_ID (submit_task i now req) = i"
  "job_Status (submit_job i now req) = TaskStatusPending"
  "job_Result (submit_job i now req) = None"
  "task_Retries (submit_task i now req) = 0" "task_MaxRetries (submit_task i now req) = 3"
  by (simp_all add: submit_job_def submit_task_def NewTask_def)

definition well_formed_request :: "SubmitRequest \<Rightarrow> bool" where
  "well_formed_request req \<longleftrightarrow> sub_TaskType req \<noteq> '''' \<and> sub_Payload req \<noteq> []"

lemma Submit_rejected:
  "\<not> well_formed_request req \<Longrightarrow> \<exists>msg. Submit i now now' req m = (Inl (GrpcError InvalidArgument msg), m)"
  by (auto simp: Submit_def well_formed_request_def)

text \<open>The scheduler after the task object has been made, before it is queued.\<close>

abbreviation with_task :: "Task \<Rightarrow> Scheduler \<Rightarrow> Scheduler" where
  "with_task t s \<equiv> snd (task_alloc t s)"

abbreviation submitted_sched ::
    "string \<Rightarrow> time \<Rightarrow> SubmitRequest \<Rightarrow> Scheduler \<Rightarrow> sched_error option \<times> Scheduler" where
  "submitted_sched i now' req s \<equiv> Enqueue (sched_next s) (with_task (submit_task i now' req) s)"

lemma Submit_wf:
  assumes "well_formed_request req"
  shows "Submit i now now' req m =
    (case fst (submitted_sched i now' req (m_sched m)) of
       Some err \<Rightarrow> Inl (GrpcError ResourceExhausted (''queue full: '' @ sched_error_text err))
     | None \<Rightarrow> Inr \<lparr>sub_JobId = i\<rparr>,
     m\<lparr>m_store := SaveJob (submit_job i now req) (m_store m),
       m_sched := snd (submitted_sched i now' req (m_sched m))\<rparr>)"
  using assms
  by (auto simp: Submit_def well_formed_request_def do_save_job_def do_new_task_def Let_def
      task_alloc_def split: prod.splits option.splits)

lemma submitted_room:
  assumes "sched_tasks s i = None" and "PendingCount s < queue_cap s"
  shows "submitted_sched i now' req s =
    (None, (task_upd (sched_next s) (\<lambda>t. t\<lparr>task_Status := TaskStatusPending\<rparr>)
        (with_task (submit_task i now' req) s))
     \<lparr>sched_tasks := (sched_tasks s)(i \<mapsto> sched_next s),
      sched_pending := Chan (pending_refs s @ [sched_next s]) (queue_cap s)\<rparr>)"
  using assms by (subst Enqueue_room) (simp_all add: PendingCount_def chan_len_def)

lemma submitted_full:
  assumes "sched_tasks s i = None" and "queue_cap s \<le> PendingCount s"
  shows "submitted_sched i now' req s =
    (Some ErrQueueFull, task_upd (sched_next s) (\<lambda>t. t\<lparr>task_Status := TaskStatusPending\<rparr>)
        (with_task (submit_task i now' req) s))"
  using assms by (subst Enqueue_full) (simp_all add: PendingCount_def chan_len_def)

lemma Submit_room:
  fixes m :: "('b, 'c, 'x, 'n) Master" and now now' :: time
  assumes "well_formed_request req" and "sched_tasks (m_sched m) i = None"
    and "PendingCount (m_sched m) < queue_cap (m_sched m)"
  defines "m' \<equiv> snd (Submit i now now' req m)" and "r \<equiv> sched_next (m_sched m)"
  shows "fst (Submit i now now' req m) = Inr \<lparr>sub_JobId = i\<rparr>"
    and "m_store m' = SaveJob (submit_job i now req) (m_store m)"
    and "m_reg m' = m_reg m" and "m_bal m' = m_bal m" and "m_pool m' = m_pool m"
    and "pending_refs (m_sched m') = pending_refs (m_sched m) @ [r]"
    and "queue_cap (m_sched m') = queue_cap (m_sched m)"
    and "sched_tasks (m_sched m') = (sched_tasks (m_sched m))(i \<mapsto> r)"
    and "sched_heap (m_sched m') r = (submit_task i now' req)\<lparr>task_Status := TaskStatusPending\<rparr>"
  by (simp_all add: m'_def r_def Submit_wf [OF assms(1)] submitted_room [OF assms(2,3)])

lemma Submit_full:
  fixes m :: "('b, 'c, 'x, 'n) Master" and now now' :: time
  assumes "well_formed_request req" and "sched_tasks (m_sched m) i = None"
    and "queue_cap (m_sched m) \<le> PendingCount (m_sched m)"
  defines "m' \<equiv> snd (Submit i now now' req m)"
  shows "fst (Submit i now now' req m) =
      Inl (GrpcError ResourceExhausted ''queue full: task queue is full'')"
    and "m_store m' = SaveJob (submit_job i now req) (m_store m)"
    and "sched_tasks (m_sched m') = sched_tasks (m_sched m)"
    and "pending_refs (m_sched m') = pending_refs (m_sched m)"
  by (simp_all add: m'_def Submit_wf [OF assms(1)] submitted_full [OF assms(2,3)])

lemma Submit_sched_wf:
  assumes wf: "sched_wf (m_sched m)"
  shows "sched_wf (m_sched (snd (Submit i now now' req m)))"
proof (cases "well_formed_request req")
  case True
  have "sched_wf (snd (Enqueue (sched_next (m_sched m)) (with_task (submit_task i now' req) (m_sched m))))"
    by (rule sched_wf_Enqueue) (simp_all add: sched_wf_alloc wf)
  then show ?thesis
    by (simp add: Submit_wf [OF True])
next
  case False
  with wf Submit_rejected show ?thesis by (metis snd_conv)
qed

text \<open>Claim C10: a submission with a fresh ID is refused without any effect when its type or its
  payload is empty; is accepted when the queue has room, and then its task is last in the queue and
  a status query answers PENDING; and is refused as RESOURCE\_EXHAUSTED on a full queue, but then
  the job stays in the store: a status query still answers PENDING for it although the scheduler has
  no task with this ID, so no dispatch will ever change that answer.\<close>

theorem Submit_outcome:
  assumes wf: "sched_wf (m_sched m)" and fresh: "sched_tasks (m_sched m) i = None" and i: "i \<noteq> ''''"
  shows "let (resp, m') = Submit i now now' req m
    in sched_wf (m_sched m') \<and>
       (if sub_TaskType req = '''' \<or> sub_Payload req = []
        then (\<exists>msg. resp = Inl (GrpcError InvalidArgument msg)) \<and> m' = m
        else map_sum id gs_Status (GetStatus i m') = Inr JOB_STATUS_PENDING \<and>
          (if PendingCount (m_sched m) < sched_maxQueue (m_sched m)
           then resp = Inr \<lparr>sub_JobId = i\<rparr> \<and> sched_tasks (m_sched m') i = Some (sched_next (m_sched m)) \<and>
                pending_refs (m_sched m') = pending_refs (m_sched m) @ [sched_next (m_sched m)]
           else resp = Inl (GrpcError ResourceExhausted ''queue full: task queue is full'') \<and>
                sched_tasks (m_sched m') i = None \<and>
                pending_refs (m_sched m') = pending_refs (m_sched m)))"
proof (cases "well_formed_request req")
  case True
  have cap: "queue_cap (m_sched m) = sched_maxQueue (m_sched m)" using sched_wf_boundD [OF wf] by simp
  have st: "map_sum id gs_Status (GetStatus i m') = Inr JOB_STATUS_PENDING"
    if "m_store m' = SaveJob (submit_job i now req) (m_store m)" for m' :: "('a, 'b, 'c, 'd) Master"
    using i by (simp add: GetStatus_def that store.get_save status_response_def)
  show ?thesis
  proof (cases "PendingCount (m_sched m) < sched_maxQueue (m_sched m)")
    case room: True
    then show ?thesis
      using True Submit_sched_wf [OF wf, of i now now' req]
        Submit_room [OF True fresh, of now now', unfolded cap, OF room] st
      by (simp add: case_prod_beta well_formed_request_def Let_def)
  next
    case full: False
    then show ?thesis
      using True Submit_sched_wf [OF wf, of i now now' req] fresh
        Submit_full [OF True fresh, of now now', unfolded cap] st
      by (simp add: case_prod_beta well_formed_request_def Let_def)
  qed
next
  case False
  then obtain msg where "Submit i now now' req m = (Inl (GrpcError InvalidArgument msg), m)"
    using Submit_rejected by blast
  with False wf show ?thesis by (simp add: well_formed_request_def)
qed

text \<open>A request, and a master whose queue has room for one task.\<close>

definition sample_request :: SubmitRequest where
  "sample_request = \<lparr>sub_TaskType = ''command'', sub_Payload = [1], sub_Timeout = None,
     sub_Priority = 0, sub_Metadata = Map.empty\<rparr>"

definition sample_idle :: "(RoundRobinBalancer, unit, unit, string) Master" where
  "sample_idle = (sample_master [] True)\<lparr>m_sched := NewScheduler 1, m_store := NewStore,
     m_scaler := Some (NewAutoScaler DefaultScalerConfig)\<rparr>"

lemma sample_idle_facts [simp]:
  "m_sched sample_idle = NewScheduler 1" "m_store sample_idle = NewStore" "m_scaler sample_idle \<noteq> None"
  "m_reg sample_idle = m_reg (sample_master [] True)"
  "m_bal sample_idle = m_bal (sample_master [] True)" "m_pool sample_idle = empty_pool"
  "sched_tasks (NewScheduler n) = Map.empty" "pending_refs (NewScheduler n) = []"
  "sched_next (NewScheduler n) = 0" "sched_maxQueue (NewScheduler 1) = 1"
  "queue_cap (NewScheduler 1) = 1"
  by (simp_all add: sample_idle_def NewScheduler_def chan_make_def)

theorem Submit_outcome_witness:
  "let full = snd (Submit ''a'' 1 1 sample_request sample_idle)
   in fst (Submit ''b'' 2 2 sample_request full) =
        Inl (GrpcError ResourceExhausted ''queue full: task queue is full'') \<and>
      map_sum id gs_Status (GetStatus ''b'' (snd (Submit ''b'' 2 2 sample_request full))) =
        Inr JOB_STATUS_PENDING"
proof -
  let ?full = "snd (Submit ''a'' 1 1 sample_request sample_idle)"
  have req: "well_formed_request sample_request"
    by (simp add: well_formed_request_def sample_request_def)
  note full = Submit_room [OF req, of sample_idle "''a''" 1 1, simplified]
  have "sched_wf (m_sched ?full)" by (rule Submit_sched_wf) (simp add: sched_wf_New)
  moreover have "sched_tasks (m_sched ?full) ''b'' = None"
    using full by (simp add: PendingCount_def chan_len_def)
  moreover have "PendingCount (m_sched ?full) = 1" "sched_maxQueue (m_sched ?full) = 1"
    using full sched_wf_boundD [OF calculation(1)] by (simp_all add: PendingCount_def chan_len_def)
  ultimately show ?thesis
    using Submit_outcome [of ?full "''b''" 2 2 sample_request] req
    by (simp add: case_prod_beta well_formed_request_def)
qed

section \<open>From submission to result\<close>

lemma gs_Status_response [simp]: "gs_Status (status_response job) = toProtoJobStatus (job_Status job)"
  by (simp add: status_response_def Let_def split: option.split)

lemma GetStatus_store:
  "GetStatus i m = (if i = '''' then Inl (GrpcError InvalidArgument ''job_id is required'')
     else case GetJob i (m_store m) of
            None \<Rightarrow> Inl (GrpcError NotFound (''job '' @ i @ '' not found''))
          | Some job \<Rightarrow> Inr (status_response job))"
  by (simp add: GetStatus_def)

lemma waiting_submitted:
  assumes "well_formed_request req" and "sched_wf (m_sched m)" and "sched_tasks (m_sched m) i = None"
    and "pending_refs (m_sched m) = []"
  shows "waiting (sched_next (m_sched m)) 0 (snd (Submit i now now' req m))"
proof -
  have "PendingCount (m_sched m) < queue_cap (m_sched m)"
    using assms(2,4) by (simp add: sched_wf_def queue_ok_def PendingCount_def chan_len_def)
  from Submit_room [OF assms(1,3) this, of now now'] show ?thesis
    using assms(2,4) by (simp add: waiting_def known_def sched_wf_def queue_ok_def)
qed

lemma submit_dispatch_effect:
  assumes req: "well_formed_request req" and wf: "sched_wf (m_sched m)" and load: "sane_load (m_reg m)"
    and fresh: "sched_tasks (m_sched m) i = None" and i: "i \<noteq> ''''"
    and empty: "pending_refs (m_sched m) = []" and nodes: "dispatch_nodes env m \<noteq> []"
    and sel: "env_select env ((submit_task i now' req)\<lparr>task_Status := TaskStatusPending\<rparr>)
      (dispatch_nodes env m) (m_bal m) = (Inr node, b)"
    and cl: "getClient (env_dial env) node (m_pool m) = (Inr client, p)"
    and ex: "env_exec env client \<lparr>ex_TaskId = i, ex_TaskType = sub_TaskType req,
      ex_Payload = sub_Payload req, ex_Timeout = Some (submit_timeout req),
      ex_Metadata = sub_Metadata req\<rparr> = Inr resp"
  shows "GetJob i (m_store (run_rounds [env] (snd (Submit i now now' req m)))) = Some ((submit_job i now req)
      \<lparr>job_Result := Some (response_result ((submit_task i now' req)\<lparr>task_Status := TaskStatusPending\<rparr>)
         node resp (env_now_replied env)),
       job_Status := (if xr_Status resp = EXECUTION_STATUS_SUCCESS then TaskStatusCompleted
                      else TaskStatusFailed)\<rparr>)"
    and "pending_refs (m_sched (run_rounds [env] (snd (Submit i now now' req m)))) = []"
proof -
  let ?m1 = "snd (Submit i now now' req m)" and ?r = "sched_next (m_sched m)"
  have w: "waiting ?r 0 ?m1" by (rule waiting_submitted [OF req wf fresh empty])
  have room: "PendingCount (m_sched m) < queue_cap (m_sched m)"
    using wf empty by (simp add: sched_wf_def queue_ok_def PendingCount_def chan_len_def)
  note sub = Submit_room [OF req fresh room, of now now']
  let ?m2 = "dequeued ?m1"
  have k: "known ?r (m_sched ?m2)" using waiting_dequeued [OF w] by blast
  have heap: "sched_heap (m_sched ?m2) ?r = (submit_task i now' req)\<lparr>task_Status := TaskStatusPending\<rparr>"
    using sub(9) by simp
  have "execute_request ((submit_task i now' req)\<lparr>task_Status := TaskStatusPending\<rparr>) =
    \<lparr>ex_TaskId = i, ex_TaskType = sub_TaskType req, ex_Payload = sub_Payload req,
      ex_Timeout = Some (submit_timeout req), ex_Metadata = sub_Metadata req\<rparr>"
    by (simp add: execute_request_def submit_task_def NewTask_def)
  then have eff: "touched ?r (m_sched ?m2) (m_sched (dispatchTask env ?r ?m2)) \<and>
    m_store (dispatchTask env ?r ?m2) = SaveResult (response_result
      (sched_heap (m_sched ?m2) ?r) node resp (env_now_replied env)) (m_store ?m2)"
    using dispatch_reply_effect [OF k, of env node b client p resp] nodes sel cl ex load heap sub(3-5)
    by simp
  have "m_store ?m2 = SaveJob (submit_job i now req) (m_store m)" using sub(2) by simp
  then have job: "GetJob i (m_store (dispatchTask env ?r ?m2)) = Some ((submit_job i now req)
      \<lparr>job_Result := Some (response_result (sched_heap (m_sched ?m2) ?r) node resp (env_now_replied env)),
       job_Status := (if xr_Status resp = EXECUTION_STATUS_SUCCESS then TaskStatusCompleted
                      else TaskStatusFailed)\<rparr>)"
    using eff heap by (simp add: store.get_save store.get_save_result result_job_status_response)
  have pend: "pending_refs (m_sched (dispatchTask env ?r ?m2)) = []"
    using touchedD(1) [OF conjunct1 [OF eff]] by simp
  have run: "run_rounds [env] ?m1 = dispatchTask env ?r ?m2"
    by (simp add: waiting_round [OF w] del: dispatcher_run.simps(3))
  show "GetJob i (m_store (run_rounds [env] ?m1)) = Some ((submit_job i now req)
      \<lparr>job_Result := Some (response_result ((submit_task i now' req)\<lparr>task_Status := TaskStatusPending\<rparr>)
         node resp (env_now_replied env)),
       job_Status := (if xr_Status resp = EXECUTION_STATUS_SUCCESS then TaskStatusCompleted
                      else TaskStatusFailed)\<rparr>)"
    unfolding run using job unfolding heap .
  show "pending_refs (m_sched (run_rounds [env] ?m1)) = []" unfolding run by (rule pend)
qed

text \<open>Claim C1: an accepted job is delivered to the selected worker with the type, payload,
  timeout and metadata of the request, and after the reply a status query answers with the worker's
  own output, error, exit code (in 32 bits) and name, COMPLETED exactly when the worker said SUCCESS,
  and with the times of submission and reply; the queue is empty again.\<close>

theorem submit_dispatch_status:
  assumes req: "well_formed_request req" and wf: "sched_wf (m_sched m)" and load: "sane_load (m_reg m)"
    and fresh: "sched_tasks (m_sched m) i = None" and i: "i \<noteq> ''''"
    and empty: "pending_refs (m_sched m) = []" and nodes: "dispatch_nodes env m \<noteq> []"
    and sel: "env_select env ((submit_task i now' req)\<lparr>task_Status := TaskStatusPending\<rparr>)
      (dispatch_nodes env m) (m_bal m) = (Inr node, b)"
    and cl: "getClient (env_dial env) node (m_pool m) = (Inr client, p)"
    and ex: "env_exec env client \<lparr>ex_TaskId = i, ex_TaskType = sub_TaskType req,
      ex_Payload = sub_Payload req, ex_Timeout = Some (submit_timeout req),
      ex_Metadata = sub_Metadata req\<rparr> = Inr resp"
  shows "let m' = run_rounds [env] (snd (Submit i now now' req m))
    in GetStatus i m' = Inr \<lparr>gs_JobId = i,
         gs_Status = (if xr_Status resp = EXECUTION_STATUS_SUCCESS then JOB_STATUS_COMPLETED
                      else JOB_STATUS_FAILED),
         gs_Output = xr_Output resp, gs_Error = xr_Error resp, gs_ExitCode = wrap32 (xr_ExitCode resp),
         gs_CreatedAt = Some now, gs_StartedAt = None, gs_CompletedAt = Some (env_now_replied env),
         gs_WorkerId = node_ID node\<rparr> \<and>
       pending_refs (m_sched m') = []"
  using submit_dispatch_effect [OF assms, of now] i
  by (simp add: Let_def GetStatus_store status_response_def response_result_def submit_job_def submit_task_def
      NewTask_def del: dispatcher_run.simps)

theorem submit_dispatch_status_witness:
  "map_sum id gs_Output (GetStatus ''j1'' (run_rounds [sample_env (Inr sample_reply) [''w1'']]
     (snd (Submit ''j1'' 0 0 sample_request sample_idle)))) = Inr [7]"
proof -
  have "getClient (env_dial (sample_env (Inr sample_reply) [''w1''])) sample_node (m_pool sample_idle) =
      (Inr (WorkerServiceClient ''10.0.0.1:50052''), snd (getClient Inr sample_node empty_pool))"
    by (simp add: prod_eq_iff)
  from submit_dispatch_status [OF _ _ _ _ _ _ _ _ this, of sample_request "''j1''" 0 _ sample_reply 0]
  show ?thesis
    by (simp add: well_formed_request_def sched_wf_New Let_def sample_request_def del: dispatcher_run.simps)
       (simp add: sample_reply_def)
qed

section \<open>Cancellation\<close>

text \<open>Claim C29: cancelling a job stops nothing. A cancellable job is reported cancelled and a query
  answers CANCELLED, but the scheduler is untouched, so the task stays where it was; and when its
  dispatch then gets a SUCCESS reply, the job is COMPLETED with that result, as if it had never been
  cancelled.\<close>

theorem cancel_does_not_stop:
  assumes k: "known r (m_sched m)" and load: "sane_load (m_reg m)"
    and id: "task_ID (sched_heap (m_sched m) r) = i" and i: "i \<noteq> ''''"
    and job: "GetJob i (m_store m) = Some j" and canc: "cancellable (job_Status j)"
    and nodes: "dispatch_nodes env m \<noteq> []"
    and sel: "env_select env (sched_heap (m_sched m) r) (dispatch_nodes env m) (m_bal m) = (Inr node, b)"
    and cl: "getClient (env_dial env) node (m_pool m) = (Inr client, p)"
    and ex: "env_exec env client (execute_request (sched_heap (m_sched m) r)) = Inr resp"
    and ok: "xr_Status resp = EXECUTION_STATUS_SUCCESS"
  shows "let (answer, m1) = Cancel i m; m2 = dispatchTask env r m1
    in answer = Inr \<lparr>can_Cancelled = True, can_Message = ''job cancelled''\<rparr> \<and>
       m_sched m1 = m_sched m \<and>
       map_sum id gs_Status (GetStatus i m1) = Inr JOB_STATUS_CANCELLED \<and>
       map_sum id gs_Status (GetStatus i m2) = Inr JOB_STATUS_COMPLETED \<and>
       GetJob i (m_store m2) = GetJob i (m_store (dispatchTask env r m))"
proof -
  have cancel: "Cancel i m = (Inr \<lparr>can_Cancelled = True, can_Message = ''job cancelled''\<rparr>, do_cancel i m)"
    using i job canc by (simp add: Cancel_def)
  let ?m1 = "do_cancel i m"
  let ?res = "response_result (sched_heap (m_sched m) r) node resp (env_now_replied env)"
  have m1: "m_sched ?m1 = m_sched m" "m_reg ?m1 = m_reg m" "m_bal ?m1 = m_bal m" "m_pool ?m1 = m_pool m"
    "m_store ?m1 = UpdateJobStatus i TaskStatusCancelled (m_store m)"
    by (simp_all add: do_cancel_def)
  have s2: "m_store (dispatchTask env r ?m1) = SaveResult ?res (m_store ?m1)"
    using dispatch_reply_effect [of r ?m1 env node b client p resp] k load nodes sel cl ex
    by (simp add: m1)
  have s: "m_store (dispatchTask env r m) = SaveResult ?res (m_store m)"
    using dispatch_reply_effect [OF k load nodes sel cl ex] by blast
  have "GetJob i (SaveResult ?res (m_store ?m1)) = GetJob i (SaveResult ?res (m_store m))"
    unfolding m1(5) by (rule store.result_overwrites_status) (simp add: id)
  then show ?thesis
    using i job ok
    by (simp add: cancel m1 s s2 GetStatus_store store.get_set_status store.get_save_result
        id result_job_status_response)
qed

theorem cancel_does_not_stop_witness:
  "let (answer, m1) = Cancel ''j1'' (sample_master [] True);
       m2 = dispatchTask (sample_env (Inr sample_reply) [''w1'']) 0 m1
   in map_sum id gs_Status (GetStatus ''j1'' m1) = Inr JOB_STATUS_CANCELLED \<and>
      map_sum id gs_Status (GetStatus ''j1'' m2) = Inr JOB_STATUS_COMPLETED"
proof -
  have cl: "getClient (env_dial (sample_env (Inr sample_reply) [''w1''])) sample_node
      (m_pool (sample_master [] True)) =
      (Inr (WorkerServiceClient ''10.0.0.1:50052''), snd (getClient Inr sample_node empty_pool))"
    by (simp add: prod_eq_iff)
  have id: "task_ID (sched_heap (m_sched (sample_master [] True)) 0) = ''j1''"
    by (simp add: NewTask_def)
  have job: "GetJob ''j1'' (m_store (sample_master [] True)) =
      Some (the (GetJob ''j1'' (m_store (sample_master [] True))))"
    by (simp add: sample_master_def SaveJob_def GetJob_def)
  have canc: "cancellable (job_Status (the (GetJob ''j1'' (m_store (sample_master [] True)))))"
    by (simp add: sample_master_def SaveJob_def GetJob_def cancellable_def)
  from cancel_does_not_stop [OF _ _ id _ job canc _ _ cl, where resp = sample_reply] show ?thesis
    by (simp add: case_prod_beta Let_def sample_reply_def)
qed

text \<open>A cancel request is refused, and changes nothing, exactly when the ID is empty, the
  job unknown, or its status neither PENDING nor RUNNING; otherwise it changes the status of that
  job and nothing else.\<close>

theorem Cancel_outcome:
  "(case Cancel i m of
      (Inr resp, m') \<Rightarrow>
        (\<exists>j. GetJob i (m_store m) = Some j \<and> can_Cancelled resp = cancellable (job_Status j) \<and>
           m' = (if can_Cancelled resp
                 then m\<lparr>m_store := UpdateJobStatus i TaskStatusCancelled (m_store m)\<rparr> else m))
    | (Inl e, m') \<Rightarrow> m' = m \<and> (if i = '''' then err_code e = InvalidArgument
                              else err_code e = NotFound \<and> GetJob i (m_store m) = None))"
  by (auto simp: Cancel_def do_cancel_def split: option.splits)

section \<open>Listing\<close>

text \<open>Claim C39: a list response shows at most 100 jobs (10 when no limit is asked for), each once,
  all of the wanted status, while its total counts every job in the store whatever the filter.\<close>

theorem ListJobs_response:
  assumes wf: "store_wf (m_store m)" and ks: "iterates ks (store_jobs (m_store m))"
  shows "let resp = Server_ListJobs ks req m; f = fromProtoJobStatus (lj_StatusFilter req)
    in distinct (map js_JobId (lj_Jobs resp)) \<and> length (lj_Jobs resp) \<le> 100 \<and>
       (if lj_Limit req \<le> 0 then length (lj_Jobs resp) \<le> 10
        else int (length (lj_Jobs resp)) \<le> lj_Limit req) \<and>
       (\<forall>s \<in> set (lj_Jobs resp). \<exists>j. GetJob (js_JobId s) (m_store m) = Some j \<and> job_kept f j \<and>
          js_Status s = toProtoJobStatus (job_Status j)) \<and>
       lj_Total resp = wrap32 (int (card (dom (store_jobs (m_store m)))))"
proof -
  let ?f = "fromProtoJobStatus (lj_StatusFilter req)"
  let ?page = "ListJobs ?f (list_limit (lj_Limit req)) (list_offset (lj_Offset req)) ks (m_store m)"
  have d: "distinct (map job_ID ?page)" and len: "int (length ?page) \<le> max 1 (list_limit (lj_Limit req))"
    and sub: "set ?page \<subseteq> {j \<in> ran (store_jobs (m_store m)). job_kept ?f j}"
    by (simp_all add: ListJobs_bounds [OF wf ks])
  have in_store: "GetJob (job_ID j) (m_store m) = Some j" if "j \<in> set ?page" for j
    using sub that wf by (auto simp: ran_def GetJob_def store_wf_def)
  have "js_JobId \<circ> job_summary = job_ID" by (simp add: fun_eq_iff job_summary_def)
  moreover have "\<exists>j. GetJob (js_JobId (job_summary x)) (m_store m) = Some j \<and> job_kept ?f j \<and>
      js_Status (job_summary x) = toProtoJobStatus (job_Status j)" if "x \<in> set ?page" for x
    using in_store [OF that] sub that by (auto simp: job_summary_def)
  moreover have "length ?page \<le> 100" "lj_Limit req \<le> 0 \<Longrightarrow> length ?page \<le> 10"
    "\<not> lj_Limit req \<le> 0 \<Longrightarrow> int (length ?page) \<le> lj_Limit req"
    using len by (auto simp: list_limit_def Let_def split: if_splits)
  ultimately show ?thesis
    using d by (auto simp: Server_ListJobs_def Let_def Count_def go_len_def)
qed

theorem ListJobs_response_witness:
  "lj_Total (Server_ListJobs [''j1''] \<lparr>lj_Limit = 0, lj_Offset = 0, lj_StatusFilter = JOB_STATUS_FAILED\<rparr>
     (sample_master [] True)) = 1"
proof -
  have store: "m_store (sample_master [] True) = SaveJob ((sample_job ''j1'')
      \<lparr>job_Payload := [1], job_Timeout := 30 * second\<rparr>) NewStore"
    by (simp add: sample_master_def sample_job_def)
  have wf: "store_wf (m_store (sample_master [] True))"
    unfolding store by (intro store_wf_ops) (simp add: sample_job_def)
  have dom: "dom (store_jobs (m_store (sample_master [] True))) = {''j1''}"
    unfolding store by (simp add: SaveJob_def NewStore_def sample_job_def)
  have "iterates [''j1''] (store_jobs (m_store (sample_master [] True)))"
    by (simp add: iterates_def dom)
  from ListJobs_response [OF wf this, of "\<lparr>lj_Limit = 0, lj_Offset = 0, lj_StatusFilter = JOB_STATUS_FAILED\<rparr>"]
  show ?thesis by (simp add: Let_def dom wrap32_id in32_def)
qed

section \<open>Registration and health\<close>

text \<open>A heartbeat is acknowledged exactly when the worker is registered. For a registered
  worker it sets the load and the time, and brings an UNHEALTHY node back to HEALTHY but leaves a
  DRAINING one draining; for any other it changes nothing, and no heartbeat makes a node appear.\<close>

theorem Heartbeat_outcome:
  assumes "hb_WorkerId req \<noteq> ''''"
  shows "let (answer, m') = Server_Heartbeat now req m; old = GetNode (hb_WorkerId req) (m_reg m)
    in answer = Inr \<lparr>hb_Acknowledged = (old \<noteq> None), hb_Action = HEARTBEAT_ACTION_NONE\<rparr> \<and>
       (old = None \<longrightarrow> m' = m) \<and>
       (\<forall>k. GetNode k (m_reg m') =
          (if k = hb_WorkerId req
           then map_option (\<lambda>n. n\<lparr>node_LastSeen := now, node_ActiveTasks := hb_ActiveTasks req,
             node_Status := (if node_Status n = NodeStatusDraining then NodeStatusDraining
                             else NodeStatusHealthy)\<rparr>) old
           else GetNode k (m_reg m)))"
proof (cases "GetNode (hb_WorkerId req) (m_reg m)")
  case None
  with assms show ?thesis
    by (auto simp: Server_Heartbeat_def Heartbeat_def GetNode_def Let_def)
next
  case (Some n)
  with assms show ?thesis
    by (cases "node_Status n") (auto simp: Server_Heartbeat_def Heartbeat_def GetNode_def Let_def
      heartbeat_node_def)
qed

theorem Heartbeat_outcome_witness:
  "fst (Server_Heartbeat 5 \<lparr>hb_WorkerId = ''ghost'', hb_ActiveTasks = 0, hb_Health = WORKER_HEALTH_HEALTHY\<rparr>
     (sample_master [] False)) = Inr \<lparr>hb_Acknowledged = False, hb_Action = HEARTBEAT_ACTION_NONE\<rparr>"
  using Heartbeat_outcome [of "\<lparr>hb_WorkerId = ''ghost'', hb_ActiveTasks = 0, hb_Health = WORKER_HEALTH_HEALTHY\<rparr>"
      5 "sample_master [] False"]
  by (simp add: case_prod_beta Let_def GetNode_def sample_master_def NewNodeRegistry_def)

text \<open>
  The callback that \<open>NewServer\<close> installs ties the pool to the registry: a connection is only
  kept for a node that the registry knows. The invariant holds between requests, and every
  section that changes either table keeps it.
\<close>

definition callback_ok :: "('b, 'c, 'x, 'n) Master \<Rightarrow> bool" where
  "callback_ok m \<longleftrightarrow> reg_onNodeRemoved (m_reg m) = Some RemoveClient"

lemma RemoveClient_conns:
  "pool_conns (RemoveClient i p) = (pool_conns p)(i := None)"
  by (auto simp: RemoveClient_def fun_eq_iff split: option.splits)

lemma fold_RemoveClient_conns:
  "pool_conns (fold RemoveClient ids p) k = (if k \<in> set ids then None else pool_conns p k)"
  by (induction ids arbitrary: p) (auto simp: RemoveClient_conns)

lemma checkHealth_pool:
  assumes cb: "reg_onNodeRemoved r = Some RemoveClient" and ks: "iterates ks (reg_nodes r)"
  shows "pool_conns (snd (checkHealth now ks r p)) k =
    (if \<exists>n. reg_nodes r k = Some n \<and> expired now (reg_unhealthyTimeout r) n
     then None else pool_conns p k)"
proof -
  have d: "distinct ks" "set ks = dom (reg_nodes r)" using ks by (simp_all add: iterates_def)
  show ?thesis
    using d(2) by (auto simp: checkHealth_def health_remove_eq split_beta cb fold_RemoveClient_conns
        health_scan_removed [OF d(1)] split: option.splits)
qed

text \<open>The health monitor closes connections with the nodes it drops: a tick removes
  exactly the nodes not heard of for longer than the unhealthy timeout, and the pool loses the
  connections of exactly these nodes, so the next worker under such an ID is dialled afresh.\<close>

theorem health_tick_closes:
  assumes cb: "callback_ok m" and ks: "iterates ks (reg_nodes (m_reg m))"
  shows "let m' = health_tick now ks m;
             dead = (\<exists>n. GetNode k (m_reg m) = Some n \<and> expired now (reg_unhealthyTimeout (m_reg m)) n)
    in (GetNode k (m_reg m') = None) = (dead \<or> GetNode k (m_reg m) = None) \<and>
       pool_conns (m_pool m') k = (if dead then None else pool_conns (m_pool m) k)"
proof -
  have reg: "m_reg (health_tick now ks m) = fst (checkHealth now ks (m_reg m) (m_pool m))"
    and pool: "m_pool (health_tick now ks m) = snd (checkHealth now ks (m_reg m) (m_pool m))"
    by (simp_all add: health_tick_def case_prod_beta)
  show ?thesis
    unfolding reg pool GetNode_def Let_def checkHealth_nodes [OF ks]
      checkHealth_pool [OF cb [unfolded callback_ok_def] ks]
    by (cases "reg_nodes (m_reg m) k") simp_all
qed

theorem health_tick_closes_witness:
  "let m = sample_idle\<lparr>m_reg := SetNodeRemovedCallback RemoveClient (m_reg sample_idle),
        m_pool := snd (getClient Inr sample_node empty_pool)\<rparr>
   in pool_conns (m_pool m) ''w1'' \<noteq> None \<and>
      pool_conns (m_pool (health_tick (60 * second) [''w1''] m)) ''w1'' = None"
proof -
  define m where "m = sample_idle\<lparr>m_reg := SetNodeRemovedCallback RemoveClient (m_reg sample_idle),
        m_pool := snd (getClient Inr sample_node empty_pool)\<rparr>"
  have cb: "callback_ok m" by (simp add: m_def callback_ok_def SetNodeRemovedCallback_def)
  have nodes: "reg_nodes (m_reg m) = [''w1'' \<mapsto> sample_node]"
    "reg_unhealthyTimeout (m_reg m) = 30 * second"
    by (simp_all add: m_def SetNodeRemovedCallback_def sample_master_def NewNodeRegistry_def)
  have ks: "iterates [''w1''] (reg_nodes (m_reg m))" by (simp add: nodes iterates_def)
  have "expired (60 * second) (30 * second) sample_node"
    by (simp add: expired_def time_sub_def sample_node_def zero_node_def zero_time_def second_def)
  with health_tick_closes [OF cb ks, of "60 * second" "''w1''"]
  have "pool_conns (m_pool (health_tick (60 * second) [''w1''] m)) ''w1'' = None"
    by (simp add: Let_def GetNode_def nodes)
  moreover have "pool_conns (m_pool m) ''w1'' \<noteq> None"
    by (simp add: m_def getClient_def dial_client_def empty_pool_def sample_node_def)
  ultimately show ?thesis by (simp only: m_def Let_def) simp
qed

section \<open>The assembled server\<close>

lemma new_registry:
  "reg_wf (SetNodeRemovedCallback f (NewNodeRegistry a b))"
  "NodeCount (SetNodeRemovedCallback f (NewNodeRegistry a b)) = 0"
  "0 < reg_heartbeatTimeout (SetNodeRemovedCallback f (NewNodeRegistry a b))"
  "0 < reg_unhealthyTimeout (SetNodeRemovedCallback f (NewNodeRegistry a b))"
  "reg_onNodeRemoved (SetNodeRemovedCallback f (NewNodeRegistry a b)) = Some f"
  by (simp_all add: reg_wf_def SetNodeRemovedCallback_def NewNodeRegistry_def NodeCount_def go_len_def
      second_def)

lemma new_scheduler:
  "PendingCount (NewScheduler n) = 0"
  "sched_maxQueue (NewScheduler n) = (if n \<le> 0 then 10000 else n)"
  "Count NewStore = 0"
  by (simp_all add: PendingCount_def chan_len_def NewScheduler_def Let_def Count_def NewStore_def go_len_def
      chan_make_def)

text \<open>A new server starts empty and well-formed, whatever its configuration: an empty
  queue with room, no jobs, no nodes, no connections, positive health timeouts, and the pool's
  clean-up installed as the registry's callback.\<close>

theorem NewServer_ready:
  "let m = srv_m (NewServer cfg in_cluster new_for_config cluster)
   in sched_wf (m_sched m) \<and> PendingCount (m_sched m) = 0 \<and>
      (sched_maxQueue (m_sched m) =
        (if mc_MaxConcurrentJobs cfg \<le> 0 then 10000 else mc_MaxConcurrentJobs cfg)) \<and>
      store_wf (m_store m) \<and> Count (m_store m) = 0 \<and> reg_wf (m_reg m) \<and> NodeCount (m_reg m) = 0 \<and>
      0 < reg_heartbeatTimeout (m_reg m) \<and> 0 < reg_unhealthyTimeout (m_reg m) \<and>
      callback_ok m \<and> pool_wf (m_pool m)"
  by (simp add: NewServer_def Let_def sched_wf_New store_wf_New pool_wf_empty callback_ok_def
      new_registry new_scheduler)

text \<open>When scaling is switched on but no Kubernetes client can be made, the log says that
  scaling is disabled, yet the scaler is enabled: it runs in its mode without a cluster, in which a
  scale-up reports success without creating anything, and its cooldown then holds back nothing real.\<close>

theorem scaling_disabled_is_enabled:
  "scaler_enabled (new_server_scaler cfg (Inl err) new_for_config) = mc_ScalingEnabled cfg \<and>
   scaler_k8s (new_server_scaler cfg (Inl err) new_for_config) = None \<and>
   scaleUp now' n (new_server_scaler cfg (Inl err) new_for_config) c =
     (None, (new_server_scaler cfg (Inl err) new_for_config)\<lparr>scaler_lastScaleUp := now'\<rparr>, c)"
  by (simp add: new_server_scaler_def Let_def NewAutoScaler_def scaleUp_def)

end
