(* ===== verification/MasterSystem.thy ===== *)
theory MasterSystem
  imports Service
begin

text \<open>
  The master as it really runs: the dispatch loop of \<open>dispatcher.go\<close> starts a goroutine per task,
  every gRPC request runs in a goroutine of its own, and the health monitor and the scale-down timer
  tick beside them. A goroutine is its program counter; one step of it is one critical section of
  the code, the unit that the mutexes and the channel make atomic. Any goroutine may take the next
  step.
\<close>

section \<open>Goroutines\<close>

text \<open>
  \<open>D\<close> is \<open>dispatchTask\<close> with \<open>sendToWorker\<close> and \<open>Requeue\<close> in it, \<open>S\<close> is \<open>Submit\<close> with
  \<open>Enqueue\<close> in it, \<open>C\<close> is \<open>Cancel\<close>. The name says what the next step does.
\<close>

datatype 'n pc =
    DEnsure task_ref
  | DNodes task_ref
  | DSelect task_ref "NodeInfo list"
  | DClient task_ref NodeInfo
  | DMarkRunning task_ref NodeInfo "'n worker_client"
  | DIncrement task_ref NodeInfo "'n worker_client"
  | DExecute task_ref NodeInfo "'n worker_client"
  | DSaveResult task_ref NodeInfo Result
  | DMarkComplete task_ref NodeInfo Result
  | DDecrement task_ref NodeInfo
  | DUndoIncrement task_ref NodeInfo string
  | DMarkFailed task_ref string
  | DStoreFailed task_ref
  | DCanRetry task_ref
  | DReset task_ref
  | DResend task_ref
  | SSaveJob string time time SubmitRequest
  | SNewTask string time SubmitRequest
  | SInsert task_ref
  | SSend task_ref
  | SUndo task_ref
  | CRead string
  | CWrite string

text \<open>One step: the next program counter (\<open>None\<close> when the goroutine is done) and the state.\<close>

fun go_step ::
    "('b, 'n) Env \<Rightarrow> 'n pc \<Rightarrow> ('b, 'c, 'x, 'n) Master \<Rightarrow> 'n pc option \<times> ('b, 'c, 'x, 'n) Master" where
  "go_step env (DEnsure r) m = (Some (DNodes r), do_ensure env m)"
| "go_step env (DNodes r) m =
     (let nodes = GetHealthyNodes (env_order env) (m_reg m)
      in (Some (if length nodes = 0 then DReset r else DSelect r nodes), m))"
| "go_step env (DSelect r nodes) m =
     (case env_select env (sched_heap (m_sched m) r) nodes (m_bal m) of
        (Inl err, b) \<Rightarrow> (Some (DReset r), m\<lparr>m_bal := b\<rparr>)
      | (Inr node, b) \<Rightarrow> (Some (DClient r node), m\<lparr>m_bal := b\<rparr>))"
| "go_step env (DClient r node) m =
     (case getClient (env_dial env) node (m_pool m) of
        (Inl err, p) \<Rightarrow> (Some (DMarkFailed r (''get client: '' @ err)), m\<lparr>m_pool := p\<rparr>)
      | (Inr client, p) \<Rightarrow> (Some (DMarkRunning r node client), m\<lparr>m_pool := p\<rparr>))"
| "go_step env (DMarkRunning r node client) m =
     (Some (DIncrement r node client), do_mark_running r node (env_now_started env) m)"
| "go_step env (DIncrement r node client) m = (Some (DExecute r node client), do_increment node m)"
| "go_step env (DExecute r node client) m =
     (let t = sched_heap (m_sched m) r
      in case env_exec env client (execute_request t) of
           Inl err \<Rightarrow> (Some (DUndoIncrement r node (''execute: '' @ err)), m)
         | Inr resp \<Rightarrow> (Some (DSaveResult r node (response_result t node resp (env_now_replied env))), m))"
| "go_step env (DSaveResult r node res) m = (Some (DMarkComplete r node res), do_save_result res m)"
| "go_step env (DMarkComplete r node res) m =
     (Some (DDecrement r node), do_mark_complete r res (env_now_done env) m)"
| "go_step env (DDecrement r node) m = (None, do_decrement node m)"
| "go_step env (DUndoIncrement r node err) m = (Some (DMarkFailed r err), do_decrement node m)"
| "go_step env (DMarkFailed r err) m = (Some (DStoreFailed r), do_mark_failed r err (env_now_done env) m)"
| "go_step env (DStoreFailed r) m = (Some (DCanRetry r), do_store_failed r m)"
| "go_step env (DCanRetry r) m =
     (if CanRetry (sched_heap (m_sched m) r) then Some (DReset r) else None, m)"
| "go_step env (DReset r) m = (Some (DResend r), m\<lparr>m_sched := requeue_reset r (m_sched m)\<rparr>)"
| "go_step env (DResend r) m =
     (None, case sched_send r (m_sched m) of None \<Rightarrow> m | Some s \<Rightarrow> m\<lparr>m_sched := s\<rparr>)"
| "go_step env (SSaveJob i now now' req) m = (Some (SNewTask i now' req), do_save_job (submit_job i now req) m)"
| "go_step env (SNewTask i now' req) m =
     (let (r, m') = do_new_task (submit_task i now' req) m in (Some (SInsert r), m'))"
| "go_step env (SInsert r) m =
     (case enqueue_insert r (m_sched m) of
        (Some err, s) \<Rightarrow> (None, m\<lparr>m_sched := s\<rparr>)
      | (None, s) \<Rightarrow> (Some (SSend r), m\<lparr>m_sched := s\<rparr>))"
| "go_step env (SSend r) m =
     (case sched_send r (m_sched m) of
        None \<Rightarrow> (Some (SUndo r), m)
      | Some s \<Rightarrow> (None, m\<lparr>m_sched := s\<rparr>))"
| "go_step env (SUndo r) m = (None, m\<lparr>m_sched := enqueue_undo r (m_sched m)\<rparr>)"
| "go_step env (CRead i) m =
     (case GetJob i (m_store m) of
        None \<Rightarrow> (None, m)
      | Some job \<Rightarrow> (if cancellable (job_Status job) then Some (CWrite i) else None, m))"
| "go_step env (CWrite i) m = (None, do_cancel i m)"

text \<open>A goroutine left to itself; the fuel bounds its steps.\<close>

fun go_run ::
    "nat \<Rightarrow> ('b, 'n) Env \<Rightarrow> 'n pc \<Rightarrow> ('b, 'c, 'x, 'n) Master \<Rightarrow> ('b, 'c, 'x, 'n) Master option" where
  "go_run 0 env p m = None"
| "go_run (Suc n) env p m =
     (case go_step env p m of (None, m') \<Rightarrow> Some m' | (Some p', m') \<Rightarrow> go_run n env p' m')"

section \<open>The system\<close>

record ('b, 'c, 'x, 'n) Sys =
  sys_m :: "('b, 'c, 'x, 'n) Master"
  sys_go :: "nat \<rightharpoonup> 'n pc"

datatype ('b, 'n) label =
    Go nat "('b, 'n) Env"
  | Loop nat
  | Submitted nat string time time SubmitRequest
  | Cancelling nat string
  | Registering time RegisterRequest
  | Deregistering string
  | Beating time HeartbeatRequest
  | HealthTick time "string list"
  | ScaleTick "string list"

text \<open>
  \<open>Go\<close> steps a goroutine; \<open>Loop\<close> is the dispatch loop taking a task and starting its goroutine; a
  valid submission and a cancel request start theirs. The requests of workers and the two timers are
  single steps here: they touch neither the scheduler nor the store.
\<close>

inductive sys_step :: "('b, 'c, 'x, 'n) Sys \<Rightarrow> ('b, 'n) label \<Rightarrow> ('b, 'c, 'x, 'n) Sys \<Rightarrow> bool" where
  step_go: "sys_go s g = Some p \<Longrightarrow> go_step env p (sys_m s) = (p', m') \<Longrightarrow>
    sys_step s (Go g env) (s\<lparr>sys_m := m', sys_go := (sys_go s)(g := p')\<rparr>)"
| step_loop: "Dequeue done pick (m_sched (sys_m s)) = Dequeued r sch \<Longrightarrow> sys_go s g = None \<Longrightarrow>
    sys_step s (Loop g) (s\<lparr>sys_m := (sys_m s)\<lparr>m_sched := sch\<rparr>, sys_go := (sys_go s)(g \<mapsto> DEnsure r)\<rparr>)"
| step_submit: "well_formed_request req \<Longrightarrow> sys_go s g = None \<Longrightarrow>
    sys_step s (Submitted g i now now' req) (s\<lparr>sys_go := (sys_go s)(g \<mapsto> SSaveJob i now now' req)\<rparr>)"
| step_cancel: "i \<noteq> '''' \<Longrightarrow> sys_go s g = None \<Longrightarrow>
    sys_step s (Cancelling g i) (s\<lparr>sys_go := (sys_go s)(g \<mapsto> CRead i)\<rparr>)"
| step_register: "sys_step s (Registering now req) (s\<lparr>sys_m := snd (Server_Register now req (sys_m s))\<rparr>)"
| step_deregister: "sys_step s (Deregistering i) (s\<lparr>sys_m := snd (Server_Deregister i (sys_m s))\<rparr>)"
| step_heartbeat: "sys_step s (Beating now hb) (s\<lparr>sys_m := snd (Server_Heartbeat now hb (sys_m s))\<rparr>)"
| step_health: "sys_step s (HealthTick now ks) (s\<lparr>sys_m := health_tick now ks (sys_m s)\<rparr>)"
| step_scale: "sys_step s (ScaleTick ks) (s\<lparr>sys_m := scale_down_tick ks (sys_m s)\<rparr>)"

inductive_cases sys_step_goE: "sys_step s (Go g env) t"
inductive_simps sys_step_go_iff: "sys_step s (Go g env) t"

text \<open>The start: no task, no job, no goroutine. The bound of the queue is any that \<open>NewScheduler\<close> makes, and
  registry, balancer, scaler and connections are left open, so what holds in all runs holds whatever
  workers had registered before.\<close>

definition sys_init :: "('b, 'c, 'x, 'n) Sys \<Rightarrow> bool" where
  "sys_init s \<longleftrightarrow> (\<exists>n. m_sched (sys_m s) = NewScheduler n) \<and> m_store (sys_m s) = NewStore \<and>
     sys_go s = Map.empty"

section \<open>A goroutine run without interruption\<close>

text \<open>Each lemma holds for every fuel that is large enough.\<close>

lemma go_run_Requeue: "go_run (Suc (Suc n)) env (DReset r) m = Some (do_requeue r m)"
  by (cases "sched_send r (requeue_reset r (m_sched m))")
     (simp_all add: do_requeue_def Requeue_def Let_def)

lemma go_run_failed:
  "go_run (Suc (Suc (Suc (Suc (Suc n))))) env (DMarkFailed r err) m = Some (dispatch_failed env r err m)"
  by (simp add: dispatch_failed_def Let_def go_run_Requeue del: go_run.simps(2))
     (simp add: go_run_Requeue [simplified])

lemma go_run_succeeded:
  "go_run (Suc (Suc (Suc n))) env (DSaveResult r node res) m = Some (dispatch_succeeded env node r res m)"
  by (simp add: dispatch_succeeded_def)

lemma go_run_step:
  "go_step env p m = (Some p', m') \<Longrightarrow> go_run (Suc n) env p m = go_run n env p' m'"
  by simp

lemma go_run_sent:
  "go_run (Suc (Suc (Suc (Suc (Suc (Suc (Suc (Suc (Suc (Suc n)))))))))) env (DClient r node) m =
   Some (case sendToWorker env node r m of
           (Inl err, m') \<Rightarrow> dispatch_failed env r err m'
         | (Inr res, m') \<Rightarrow> dispatch_succeeded env node r res m')"
proof (cases "getClient (env_dial env) node (m_pool m)")
  case (Pair c p)
  show ?thesis
  proof (cases c)
    case (Inl err)
    with Pair show ?thesis
      by (subst go_run_step, simp) (simp only: go_run_failed, simp add: sendToWorker_def)
  next
    case (Inr client)
    let ?m = "do_increment node (do_mark_running r node (env_now_started env) (m\<lparr>m_pool := p\<rparr>))"
    have "go_run (Suc (Suc (Suc (Suc (Suc (Suc (Suc (Suc (Suc (Suc n)))))))))) env (DClient r node) m =
        go_run (Suc (Suc (Suc (Suc (Suc (Suc (Suc n))))))) env (DExecute r node client) ?m"
      using Pair Inr by simp
    also have "\<dots> = Some (case env_exec env client (execute_request (sched_heap (m_sched ?m) r)) of
        Inl err \<Rightarrow> dispatch_failed env r (''execute: '' @ err) (do_decrement node ?m)
      | Inr resp \<Rightarrow> dispatch_succeeded env node r
          (response_result (sched_heap (m_sched ?m) r) node resp (env_now_replied env)) ?m)"
      by (subst go_run.simps)
         (auto simp: Let_def go_run_failed go_run_succeeded simp del: go_run.simps(2) split: sum.splits;
          subst go_run.simps; simp add: go_run_failed del: go_run.simps(2))
    finally show ?thesis
      using Pair Inr by (auto simp: sendToWorker_def Let_def split: sum.splits)
  qed
qed

lemma go_run_dispatch:
  "go_run (Suc (Suc (Suc (Suc (Suc (Suc (Suc (Suc (Suc (Suc (Suc (Suc (Suc n))))))))))))) env (DEnsure r) m =
   Some (dispatchTask env r m)"
proof -
  let ?m = "do_ensure env m"
  have eq: "go_run (Suc (Suc (Suc (Suc (Suc (Suc (Suc (Suc (Suc (Suc (Suc (Suc (Suc n))))))))))))) env (DEnsure r) m =
     go_run (Suc (Suc (Suc (Suc (Suc (Suc (Suc (Suc (Suc (Suc (Suc n)))))))))))  env
       (if dispatch_nodes env ?m = [] then DReset r else DSelect r (dispatch_nodes env ?m)) ?m"
    by (subst go_run_step, simp, subst go_run_step, simp add: Let_def) (simp only: do_ensure_frame)
  show ?thesis
  proof (cases "dispatch_nodes env ?m = []")
    case True
    then show ?thesis unfolding eq by (simp only: simp_thms if_True go_run_Requeue) (simp add: dispatchTask_def)
  next
    case False
    obtain c b where sel: "env_select env (sched_heap (m_sched ?m) r) (dispatch_nodes env ?m) (m_bal ?m) = (c, b)"
      by fastforce
    show ?thesis
    proof (cases c)
      case (Inl err)
      with sel False show ?thesis
        unfolding eq by (simp only: if_False, subst go_run_step, simp)
          (simp only: go_run_Requeue, simp add: dispatchTask_def)
    next
      case (Inr node)
      with sel False show ?thesis
        unfolding eq by (simp only: if_False, subst go_run_step, simp)
          (simp only: go_run_sent, simp add: dispatchTask_def)
    qed
  qed
qed

text \<open>A dispatch goroutine that nobody interrupts ends after at most 13 critical sections and has done what
  the sequential \<open>dispatchTask\<close> does.\<close>

lemma go_run_dispatch13: "go_run 13 env (DEnsure r) m = Some (dispatchTask env r m)"
  using go_run_dispatch [of 0 env r m] by (simp only: eval_nat_numeral BitM.simps)

lemma go_run_submit:
  "well_formed_request req \<Longrightarrow>
   go_run 5 env (SSaveJob i now now' req) m = Some (snd (Submit i now now' req m))"
  by (auto simp: eval_nat_numeral Submit_def well_formed_request_def Let_def Enqueue_def
      split: prod.splits option.splits)

text \<open>Likewise a submission goroutine with a valid request ends after at most five critical
  sections in the state that the sequential \<open>Submit\<close> returns.\<close>

theorem submit_goroutine_refines:
  assumes "well_formed_request req"
  shows "go_run 5 env (SSaveJob i now now' req) m = Some (snd (Submit i now now' req m))"
  by (rule go_run_submit [OF assms])

theorem submit_goroutine_refines_witness:
  "go_run 5 (sample_env (Inl ''down'') []) (SSaveJob ''j'' 0 0 sample_request) sample_idle =
   Some (snd (Submit ''j'' 0 0 sample_request sample_idle))"
  by (rule submit_goroutine_refines) (simp add: well_formed_request_def sample_request_def)

text \<open>An uninterrupted goroutine is one of the system's runs.\<close>

lemma reach_go_run:
  "reach ini sys_step s \<Longrightarrow> sys_go s g = Some p \<Longrightarrow> go_run n env p (sys_m s) = Some m' \<Longrightarrow>
   reach ini sys_step (s\<lparr>sys_m := m', sys_go := (sys_go s)(g := None)\<rparr>)"
proof (induction n arbitrary: s p)
  case 0
  then show ?case by simp
next
  case (Suc n)
  obtain q m1 where step: "go_step env p (sys_m s) = (q, m1)" by fastforce
  let ?s = "s\<lparr>sys_m := m1, sys_go := (sys_go s)(g := q)\<rparr>"
  have r: "reach ini sys_step ?s"
    by (rule reach_step [OF Suc.prems(1) step_go [OF Suc.prems(2) step]])
  show ?case
  proof (cases q)
    case None
    with r step Suc.prems(3) show ?thesis by (simp add: fun_upd_def)
  next
    case (Some p')
    with step Suc.prems(3) have "go_run n env p' (sys_m ?s) = Some m'" by simp
    from Suc.IH [OF r _ this] Some show ?thesis by (simp add: fun_upd_def cong: if_cong)
  qed
qed

lemma reach_goI:
  "reach ini sys_step s \<Longrightarrow> sys_go s g = Some p \<Longrightarrow> go_step env p (sys_m s) = (q, m') \<Longrightarrow>
   t = s\<lparr>sys_m := m', sys_go := (sys_go s)(g := q)\<rparr> \<Longrightarrow> reach ini sys_step t"
  by (blast intro: reach_step step_go)

lemma reach_submitI:
  "reach ini sys_step s \<Longrightarrow> well_formed_request req \<Longrightarrow> sys_go s g = None \<Longrightarrow>
   t = s\<lparr>sys_go := (sys_go s)(g \<mapsto> SSaveJob i now now' req)\<rparr> \<Longrightarrow> reach ini sys_step t"
  by (blast intro: reach_step step_submit)

lemma reach_cancelI:
  "reach ini sys_step s \<Longrightarrow> i \<noteq> [] \<Longrightarrow> sys_go s g = None \<Longrightarrow>
   t = s\<lparr>sys_go := (sys_go s)(g \<mapsto> CRead i)\<rparr> \<Longrightarrow> reach ini sys_step t"
  by (blast intro: reach_step step_cancel)

lemma reach_loopI:
  "reach ini sys_step s \<Longrightarrow> Dequeue done pick (m_sched (sys_m s)) = Dequeued r sch \<Longrightarrow> sys_go s g = None \<Longrightarrow>
   t = s\<lparr>sys_m := (sys_m s)\<lparr>m_sched := sch\<rparr>, sys_go := (sys_go s)(g \<mapsto> DEnsure r)\<rparr> \<Longrightarrow> reach ini sys_step t"
  by (blast intro: reach_step step_loop)

lemma reach_runI:
  "reach ini sys_step s \<Longrightarrow> sys_go s g = Some p \<Longrightarrow> go_run n env p (sys_m s) = Some m' \<Longrightarrow>
   t = s\<lparr>sys_m := m', sys_go := (sys_go s)(g := None)\<rparr> \<Longrightarrow> reach ini sys_step t"
  by (simp only: reach_go_run)

text \<open>Some steps of a goroutine, as long as it has any.\<close>

fun go_steps ::
    "nat \<Rightarrow> ('b, 'n) Env \<Rightarrow> 'n pc \<Rightarrow> ('b, 'c, 'x, 'n) Master \<Rightarrow> 'n pc option \<times> ('b, 'c, 'x, 'n) Master" where
  "go_steps 0 env p m = (Some p, m)"
| "go_steps (Suc n) env p m =
     (case go_step env p m of (None, m') \<Rightarrow> (None, m') | (Some p', m') \<Rightarrow> go_steps n env p' m')"

lemma reach_stepsI:
  "reach ini sys_step s \<Longrightarrow> sys_go s g = Some p \<Longrightarrow> go_steps n env p (sys_m s) = (q, m') \<Longrightarrow>
   reach ini sys_step (s\<lparr>sys_m := m', sys_go := (sys_go s)(g := q)\<rparr>)"
proof (induction n arbitrary: s p)
  case 0
  then show ?case by (auto simp: fun_upd_idem)
next
  case (Suc n)
  obtain p1 m1 where step: "go_step env p (sys_m s) = (p1, m1)" by fastforce
  let ?s = "s\<lparr>sys_m := m1, sys_go := (sys_go s)(g := p1)\<rparr>"
  have r: "reach ini sys_step ?s"
    by (rule reach_step [OF Suc.prems(1) step_go [OF Suc.prems(2) step]])
  show ?case
  proof (cases p1)
    case None
    with r step Suc.prems(3) show ?thesis by (simp add: fun_upd_def)
  next
    case (Some p')
    with step Suc.prems(3) have "go_steps n env p' (sys_m ?s) = (q, m')" by simp
    from Suc.IH [OF r _ this] Some show ?thesis by (simp add: fun_upd_def cong: if_cong)
  qed
qed

end
