(* ===== verification/MasterInvariant.thy ===== *)
theory MasterInvariant
  imports MasterSystem
begin

text \<open>
  What no interleaving of the master's goroutines can break: the scheduler stays well-formed, a task
  is in the queue or in the hands of one goroutine but never twice, every task has its job, and the
  store knows only four job statuses.
\<close>

section \<open>Who holds a task\<close>

text \<open>The task that a goroutine holds: one it has dequeued, or has entered in the table.\<close>

fun holds :: "'n pc \<Rightarrow> task_ref option" where
  "holds (DEnsure r) = Some r"
| "holds (DNodes r) = Some r"
| "holds (DSelect r nodes) = Some r"
| "holds (DClient r node) = Some r"
| "holds (DMarkRunning r node client) = Some r"
| "holds (DIncrement r node client) = Some r"
| "holds (DExecute r node client) = Some r"
| "holds (DSaveResult r node res) = Some r"
| "holds (DMarkComplete r node res) = Some r"
| "holds (DDecrement r node) = Some r"
| "holds (DUndoIncrement r node err) = Some r"
| "holds (DMarkFailed r err) = Some r"
| "holds (DStoreFailed r) = Some r"
| "holds (DCanRetry r) = Some r"
| "holds (DReset r) = Some r"
| "holds (DResend r) = Some r"
| "holds (SSend r) = Some r"
| "holds (SUndo r) = Some r"
| "holds _ = None"

definition holds_opt :: "'n pc option \<Rightarrow> task_ref option" where
  "holds_opt p = Option.bind p holds"

lemma holds_opt_simps [simp]: "holds_opt None = None" "holds_opt (Some p) = holds p"
  by (simp_all add: holds_opt_def)

definition owned :: "(nat \<rightharpoonup> 'n pc) \<Rightarrow> Scheduler \<Rightarrow> bool" where
  "owned go s \<longleftrightarrow> distinct (pending_refs s) \<and>
     (\<forall>g r. holds_opt (go g) = Some r \<longrightarrow> known r s \<and> r \<notin> set (pending_refs s)) \<and>
     (\<forall>g g' r. holds_opt (go g) = Some r \<longrightarrow> holds_opt (go g') = Some r \<longrightarrow> g = g')"

lemma ownedD:
  assumes "owned go s"
  shows "distinct (pending_refs s)"
    and "holds_opt (go g) = Some r \<Longrightarrow> known r s"
    and "holds_opt (go g) = Some r \<Longrightarrow> r \<notin> set (pending_refs s)"
    and "holds_opt (go g) = Some r \<Longrightarrow> holds_opt (go g') = Some r \<Longrightarrow> g = g'"
  using assms unfolding owned_def by blast+

lemma ownedI:
  assumes "distinct (pending_refs s)"
    and "\<And>g r. holds_opt (go g) = Some r \<Longrightarrow> known r s \<and> r \<notin> set (pending_refs s)"
    and "\<And>g g' r. holds_opt (go g) = Some r \<Longrightarrow> holds_opt (go g') = Some r \<Longrightarrow> g = g'"
  shows "owned go s"
  unfolding owned_def using assms by blast

text \<open>
  The three ways in which a step changes hands: it keeps the queue (and may gain an unknown task
  or lose its own), it puts its own task into the queue, or it takes the first one out.
\<close>

lemma owned_keep:
  assumes own: "owned go s" and pend: "pending_refs s' = pending_refs s"
    and keep: "\<And>q. known q s \<Longrightarrow> known q s' \<or> (holds_opt (go g) = Some q \<and> holds_opt p' = None)"
    and gain: "\<And>q. holds_opt p' = Some q \<Longrightarrow> known q s' \<and> (holds_opt (go g) = Some q \<or> \<not> known q s)"
    and wf: "sched_wf s"
  shows "owned (go(g := p')) s'"
proof (rule ownedI)
  show "distinct (pending_refs s')" using ownedD(1) [OF own] by (simp add: pend)
  fix h r assume h: "holds_opt ((go(g := p')) h) = Some r"
  show "known r s' \<and> r \<notin> set (pending_refs s')"
  proof (cases "h = g")
    case True
    with h gain [of r] have "known r s'" and r: "holds_opt (go g) = Some r \<or> \<not> known r s" by auto
    moreover have "r \<notin> set (pending_refs s)"
      using r ownedD(3) [OF own] sched_wf_pendingD [OF wf] by blast
    ultimately show ?thesis by (simp add: pend)
  next
    case False
    with h have hr: "holds_opt (go h) = Some r" by simp
    then have "known r s" by (rule ownedD(2) [OF own])
    moreover have "holds_opt (go g) \<noteq> Some r" using ownedD(4) [OF own hr] False by blast
    ultimately have "known r s'" using keep by blast
    with ownedD(3) [OF own hr] show ?thesis by (simp add: pend)
  qed
next
  fix h h' r assume h: "holds_opt ((go(g := p')) h) = Some r" and h': "holds_opt ((go(g := p')) h') = Some r"
  have other: False if "k \<noteq> g" "holds_opt (go k) = Some r" "holds_opt p' = Some r" for k
    using gain [OF that(3)] ownedD(2,4) [OF own that(2)] that(1) by blast
  show "h = h'"
    using h h' other [of h] other [of h'] ownedD(4) [OF own, of h r h']
    by (simp split: if_splits)
qed

lemma owned_give:
  assumes own: "owned go s" and r: "holds_opt (go g) = Some r"
    and pend: "pending_refs s' = pending_refs s @ [r]" and keep: "\<And>q. known q s \<Longrightarrow> known q s'"
  shows "owned (go(g := None)) s'"
proof (rule ownedI)
  show "distinct (pending_refs s')" using ownedD(1,3) [OF own] r by (simp add: pend)
  fix h q assume h: "holds_opt ((go(g := None)) h) = Some q"
  then have hq: "holds_opt (go h) = Some q" "h \<noteq> g" by (auto split: if_splits)
  then have "q \<noteq> r" using ownedD(4) [OF own, of h q g] r by blast
  then show "known q s' \<and> q \<notin> set (pending_refs s')"
    using keep ownedD(2,3) [OF own hq(1)] by (simp add: pend)
next
  fix h h' q assume "holds_opt ((go(g := None)) h) = Some q" "holds_opt ((go(g := None)) h') = Some q"
  then show "h = h'" using ownedD(4) [OF own, of h q h'] by (simp split: if_splits)
qed

lemma owned_take:
  assumes own: "owned go s" and g: "go g = None" and pend: "pending_refs s = r # pending_refs s'"
    and keep: "\<And>q. known q s' = known q s" and p: "holds p = Some r" and wf: "sched_wf s"
  shows "owned (go(g \<mapsto> p)) s'"
proof (rule ownedI)
  show "distinct (pending_refs s')" using ownedD(1) [OF own] by (simp add: pend)
  fix h q assume h: "holds_opt ((go(g \<mapsto> p)) h) = Some q"
  show "known q s' \<and> q \<notin> set (pending_refs s')"
  proof (cases "h = g")
    case True
    with h p have "q = r" by simp
    with sched_wf_pendingD [OF wf, of r] ownedD(1) [OF own] show ?thesis by (simp add: pend keep)
  next
    case False
    with h have "holds_opt (go h) = Some q" by simp
    from ownedD(2,3) [OF own this] show ?thesis by (simp add: pend keep)
  qed
next
  have "holds_opt (go k) \<noteq> Some r" for k using ownedD(3) [OF own, of k r] by (auto simp: pend)
  then show "h = h'" if "holds_opt ((go(g \<mapsto> p)) h) = Some q" "holds_opt ((go(g \<mapsto> p)) h') = Some q" for h h' q
    using that ownedD(4) [OF own, of h q h'] p by (simp split: if_splits)
qed

section \<open>What a step does to the scheduler\<close>

text \<open>A quiet step writes at most one task object and keeps its identity.\<close>

definition quiet :: "Scheduler \<Rightarrow> Scheduler \<Rightarrow> bool" where
  "quiet s s' \<longleftrightarrow> (\<exists>r f. (\<forall>t. task_ID (f t) = task_ID t) \<and> s' = task_upd r f s)"

lemma quietI: "(\<And>t. task_ID (f t) = task_ID t) \<Longrightarrow> quiet s (task_upd r f s)"
  unfolding quiet_def by blast

lemma quiet_refl: "quiet s s"
  using quietI [of id s 0] by (simp add: task_upd_def)

lemma quietD:
  assumes "quiet s s'"
  shows "sched_wf s' = sched_wf s" "known q s' = known q s" "sched_pending s' = sched_pending s"
    "sched_tasks s' = sched_tasks s" "sched_next s' = sched_next s"
    "task_ID (sched_heap s' q) = task_ID (sched_heap s q)"
  using assms by (auto simp: quiet_def sched_wf_task_upd known_task_upd)

lemma quiet_marks:
  "quiet s (snd (MarkRunning i w now s))" "quiet s (snd (MarkFailed i e now s))"
  "quiet s (snd (MarkComplete i res now s))" "quiet s (requeue_reset r s)"
  by (auto simp: MarkRunning_def MarkFailed_def MarkComplete_def requeue_reset_def quiet_refl
      intro!: quietI split: option.splits)

fun moves :: "'n pc \<Rightarrow> bool" where
  "moves (DResend r) = True"
| "moves (SNewTask i now' req) = True"
| "moves (SInsert r) = True"
| "moves (SSend r) = True"
| "moves (SUndo r) = True"
| "moves _ = False"

lemma go_step_quiet:
  assumes "\<not> moves p" and "go_step env p m = (p', m')"
  shows "quiet (m_sched m) (m_sched m') \<and> (holds_opt p' = holds p \<or> holds_opt p' = None) \<and>
    (\<forall>r. p' \<noteq> Some (SInsert r)) \<and> (\<forall>i now' req. p' = Some (SNewTask i now' req) \<longrightarrow>
       (\<exists>now. p = SSaveJob i now now' req))"
  using assms
  by (cases p) (auto simp: quiet_refl quiet_marks do_sections do_save_job_def do_cancel_def Let_def
      split: prod.splits sum.splits option.splits if_splits)

section \<open>What a step does to the store\<close>

definition reported :: "TaskStatus \<Rightarrow> bool" where
  "reported st \<longleftrightarrow> st \<in> {TaskStatusPending, TaskStatusCompleted, TaskStatusFailed, TaskStatusCancelled}"

lemma reported_simps [simp]:
  "reported TaskStatusPending" "reported TaskStatusFailed" "reported TaskStatusCancelled"
  "reported (result_job_status res)" "\<not> reported TaskStatusRunning" "\<not> reported TaskStatusTimeout"
  by (simp_all add: reported_def result_job_status_def)

definition store_statuses :: "Store \<Rightarrow> bool" where
  "store_statuses st \<longleftrightarrow> (\<forall>i j. GetJob i st = Some j \<longrightarrow> reported (job_Status j))"

text \<open>The four writes that the master makes.\<close>

definition store_evolves :: "Store \<Rightarrow> Store \<Rightarrow> bool" where
  "store_evolves st st' \<longleftrightarrow> st' = st \<or>
     (\<exists>i now req. st' = SaveJob (submit_job i now req) st) \<or>
     (\<exists>res. st' = SaveResult res st) \<or>
     (\<exists>i. st' = UpdateJobStatus i TaskStatusFailed st) \<or>
     (\<exists>i. st' = UpdateJobStatus i TaskStatusCancelled st)"

lemma store_evolvesI [intro]:
  "store_evolves st st" "store_evolves st (SaveJob (submit_job i now req) st)"
  "store_evolves st (SaveResult res st)" "store_evolves st (UpdateJobStatus i TaskStatusFailed st)"
  "store_evolves st (UpdateJobStatus i TaskStatusCancelled st)"
  unfolding store_evolves_def by blast+

lemma store_evolves_keeps:
  assumes "store_evolves st st'"
  shows "GetJob i st \<noteq> None \<Longrightarrow> GetJob i st' \<noteq> None"
    and "store_statuses st \<Longrightarrow> store_statuses st'"
    and "store_wf st \<Longrightarrow> store_wf st'"
proof -
  show "GetJob i st \<noteq> None \<Longrightarrow> GetJob i st' \<noteq> None"
    using assms by (auto simp: store_evolves_def store.get_simps)
  show "store_statuses st \<Longrightarrow> store_statuses st'"
    using assms
    by (auto simp: store_evolves_def store_statuses_def store.get_simps split: if_splits)
  show "store_wf st \<Longrightarrow> store_wf st'"
    using assms by (auto simp: store_evolves_def intro!: store_wf_ops)
qed

lemma go_step_store:
  "go_step env p m = (p', m') \<Longrightarrow> store_evolves (m_store m) (m_store m')"
  by (cases p)
     (auto simp: do_sections do_save_job_def do_new_task_def do_cancel_def Let_def
       split: prod.splits sum.splits option.splits if_splits)

lemma GetResult_ops [simp]:
  "GetResult i (SaveJob j st) = GetResult i st"
  "GetResult i (UpdateJobStatus k a st) = GetResult i st"
  "GetResult i (SaveResult res st) = (if i = res_TaskID res then Some res else GetResult i st)"
  by (auto simp: GetResult_def SaveJob_def UpdateJobStatus_def SaveResult_def Let_def split: option.splits)

lemma SaveJob_present: "GetJob i (SaveJob (submit_job i now req) st) \<noteq> None"
  by (simp add: store.get_save)

section \<open>Every step keeps the ownership discipline\<close>

lemma enqueue_insert_new:
  assumes "enqueue_insert r s = (None, s')"
  shows "pending_refs s' = pending_refs s" and "known r s'" and "\<not> known r s"
    and "known q s \<Longrightarrow> known q s'" and "sched_next s' = sched_next s"
    and "task_ID (sched_heap s' q) = task_ID (sched_heap s q)"
    and "sched_tasks s' = (sched_tasks s)(task_ID (sched_heap s r) \<mapsto> r)"
  using assms by (auto simp: enqueue_insert_def Let_def known_def split: if_splits)

lemma enqueue_insert_old: "enqueue_insert r s = (Some e, s') \<Longrightarrow> s' = s"
  by (auto simp: enqueue_insert_def Let_def split: if_splits)

lemma known_undo:
  "known q s \<Longrightarrow> known r s \<Longrightarrow> q \<noteq> r \<Longrightarrow> known q (enqueue_undo r s)"
  by (auto simp: known_def enqueue_undo_def)

lemma known_send: "sched_send r s = Some s' \<Longrightarrow> known q s' = known q s"
  by (auto simp: sched_send_simps)

lemma owned_quiet:
  assumes wf: "sched_wf (m_sched m)" and own: "owned go (m_sched m)" and g: "go g = Some p"
    and quiet: "\<not> moves p" and step: "go_step env p m = (p', m')"
  shows "sched_wf (m_sched m') \<and> owned (go(g := p')) (m_sched m')"
proof -
  note q = go_step_quiet [OF quiet step]
  then have qs: "quiet (m_sched m) (m_sched m')" by blast
  have "owned (go(g := p')) (m_sched m')"
    by (rule owned_keep [OF own _ _ _ wf])
       (use q g ownedD(2) [OF own, of g] in \<open>auto simp: quietD [OF qs]\<close>)
  with wf show ?thesis by (simp add: quietD [OF qs])
qed

lemma owned_sent:
  assumes wf: "sched_wf s" and own: "owned go s" and g: "go g = Some p" "holds p = Some r" and send: "sched_send r s = Some s'"
  shows "sched_wf s' \<and> owned (go(g := None)) s'"
proof
  have held: "known r s" "r \<notin> set (pending_refs s)" using ownedD(2,3) [OF own, of g r] g by simp_all
  show "sched_wf s'" by (rule sched_wf_send [OF wf held(1) send])
  show "owned (go(g := None)) s'"
    by (rule owned_give [OF own, of _ r]) (use g held known_send [OF send] send in \<open>auto simp: sched_send_simps\<close>)
qed

lemma owned_insert:
  assumes wf: "sched_wf s" and own: "owned go s" and new: "r < sched_next s" and ins: "enqueue_insert r s = (None, s')"
  shows "sched_wf s' \<and> owned (go(g := Some (SSend r))) s'"
proof
  note i = enqueue_insert_new [OF ins]
  show "sched_wf s'" by (rule sched_wf_insert(1) [OF wf new ins])
  show "owned (go(g := Some (SSend r))) s'" by (rule owned_keep [OF own i(1) _ _ wf]) (auto simp: i)
qed

lemma go_step_owned:
  assumes wf: "sched_wf (m_sched m)" and own: "owned go (m_sched m)" and g: "go g = Some p"
    and new: "\<And>r. p = SInsert r \<Longrightarrow> r < sched_next (m_sched m)"
    and step: "go_step env p m = (p', m')"
  shows "sched_wf (m_sched m') \<and> owned (go(g := p')) (m_sched m')"
proof (cases "moves p")
  case False
  then show ?thesis by (rule owned_quiet [OF wf own g _ step])
next
  case True
  have held: "known r (m_sched m)" "r \<notin> set (pending_refs (m_sched m))" if "holds p = Some r" for r
    using ownedD(2,3) [OF own, of g r] that g by simp_all
  have drop: "owned (go(g := None)) (m_sched m)"
    by (rule owned_keep [OF own refl _ _ wf]) auto
  show ?thesis
  proof (cases p)
    case (DResend r)
    with step owned_sent [OF wf own g, of r] wf drop show ?thesis by (auto split: option.splits)
  next
    case (SNewTask i now' req)
    have keep: "known q (with_task t (m_sched m))" if "known q (m_sched m)" for q t
      using that known_allocated [OF wf that] by (simp add: known_alloc)
    let ?t = "submit_task i now' req"
    have "owned (go(g := Some (SInsert (sched_next (m_sched m))))) (with_task ?t (m_sched m))"
      by (rule owned_keep [OF own _ _ _ wf]) (auto simp: keep)
    with SNewTask step sched_wf_alloc [OF wf, of ?t] show ?thesis
      by (auto simp: do_new_task_def task_alloc_def)
  next
    case (SInsert r)
    with step wf drop owned_insert [OF wf own new, of r] enqueue_insert_old [of r "m_sched m"]
    show ?thesis by (auto split: prod.splits option.splits)
  next
    case (SSend r)
    have "owned (go(g := Some (SUndo r))) (m_sched m)"
      by (rule owned_keep [OF own refl _ _ wf]) (use SSend g held in auto)
    with SSend step owned_sent [OF wf own g, of r] wf show ?thesis by (auto split: option.splits)
  next
    case (SUndo r)
    have "owned (go(g := None)) (enqueue_undo r (m_sched m))"
      by (rule owned_keep [OF own _ _ _ wf])
         (use SUndo g held known_undo [of _ "m_sched m" r] in \<open>auto simp: enqueue_undo_def\<close>)
    with SUndo step sched_wf_undo [OF wf held(2,1)] show ?thesis by auto
  qed (use True in simp_all)
qed

section \<open>Every task has its job\<close>

fun pc_ok :: "Scheduler \<Rightarrow> Store \<Rightarrow> 'n pc \<Rightarrow> bool" where
  "pc_ok s st (SNewTask i now' req) \<longleftrightarrow> GetJob i st \<noteq> None"
| "pc_ok s st (SInsert r) \<longleftrightarrow> r < sched_next s \<and> GetJob (task_ID (sched_heap s r)) st \<noteq> None"
| "pc_ok s st _ \<longleftrightarrow> True"

definition tasks_have_jobs :: "Scheduler \<Rightarrow> Store \<Rightarrow> bool" where
  "tasks_have_jobs s st \<longleftrightarrow> (\<forall>i. sched_tasks s i \<noteq> None \<longrightarrow> GetJob i st \<noteq> None)"

text \<open>A scheduler only grows: addresses stay allocated and their task IDs do not change.\<close>

definition grows :: "Scheduler \<Rightarrow> Scheduler \<Rightarrow> bool" where
  "grows s s' \<longleftrightarrow> sched_next s \<le> sched_next s' \<and>
     (\<forall>r < sched_next s. task_ID (sched_heap s' r) = task_ID (sched_heap s r))"

lemma grows_quiet: "quiet s s' \<Longrightarrow> grows s s'"
  by (simp add: grows_def quietD)

lemma go_step_grows:
  assumes "go_step env p m = (p', m')"
  shows "grows (m_sched m) (m_sched m')"
proof (cases "moves p")
  case False
  with go_step_quiet [OF False assms] show ?thesis by (simp add: grows_quiet)
next
  case True
  with assms show ?thesis
    by (cases p)
       (auto simp: grows_def sched_send_simps do_new_task_def task_alloc_def enqueue_undo_def
         enqueue_insert_def Let_def split: prod.splits option.splits if_splits)
qed

lemma pc_ok_mono:
  "pc_ok s st p \<Longrightarrow> grows s s' \<Longrightarrow> (\<And>i. GetJob i st \<noteq> None \<Longrightarrow> GetJob i st' \<noteq> None) \<Longrightarrow> pc_ok s' st' p"
  by (cases p) (auto simp: grows_def)

lemma go_step_pc_ok:
  assumes ok: "pc_ok (m_sched m) (m_store m) p" and step: "go_step env p m = (Some p', m')"
  shows "pc_ok (m_sched m') (m_store m') p'"
proof (cases "moves p")
  case False
  note q = go_step_quiet [OF False step]
  show ?thesis
  proof (cases p')
    case (SNewTask i now' req)
    with q obtain now where "p = SSaveJob i now now' req" by blast
    with SNewTask step show ?thesis by (auto simp: do_save_job_def store.get_save)
  qed (use q in auto)
next
  case True
  with assms show ?thesis
    by (cases p) (auto simp: do_new_task_def task_alloc_def split: prod.splits option.splits)
qed

lemma go_step_tasks:
  assumes ok: "pc_ok (m_sched m) (m_store m) p" and tj: "tasks_have_jobs (m_sched m) (m_store m)"
    and step: "go_step env p m = (p', m')"
  shows "tasks_have_jobs (m_sched m') (m_store m')"
proof -
  note kept = store_evolves_keeps(1) [OF go_step_store [OF step]]
  have "GetJob i (m_store m) \<noteq> None" if "sched_tasks (m_sched m') i \<noteq> None" for i
  proof (cases "moves p")
    case False
    have qs: "quiet (m_sched m) (m_sched m')" using go_step_quiet [OF False step] by blast
    then show ?thesis using that tj by (simp add: tasks_have_jobs_def quietD(4) [OF qs])
  next
    case True
    with that tj ok step show ?thesis
      by (cases p)
         (auto simp: tasks_have_jobs_def do_new_task_def task_alloc_def sched_send_simps enqueue_undo_def
           enqueue_insert_def Let_def split: prod.splits option.splits if_splits)
  qed
  with kept show ?thesis unfolding tasks_have_jobs_def by blast
qed

section \<open>The invariant of the system\<close>

definition sys_inv :: "('b, 'c, 'x, 'n) Sys \<Rightarrow> bool" where
  "sys_inv s \<longleftrightarrow> sched_wf (m_sched (sys_m s)) \<and> owned (sys_go s) (m_sched (sys_m s)) \<and>
     (\<forall>g p. sys_go s g = Some p \<longrightarrow> pc_ok (m_sched (sys_m s)) (m_store (sys_m s)) p) \<and>
     tasks_have_jobs (m_sched (sys_m s)) (m_store (sys_m s)) \<and>
     store_statuses (m_store (sys_m s)) \<and> store_wf (m_store (sys_m s))"

lemma sys_invD:
  assumes "sys_inv s"
  shows "sched_wf (m_sched (sys_m s))" "owned (sys_go s) (m_sched (sys_m s))"
    "sys_go s g = Some p \<Longrightarrow> pc_ok (m_sched (sys_m s)) (m_store (sys_m s)) p"
    "tasks_have_jobs (m_sched (sys_m s)) (m_store (sys_m s))"
    "store_statuses (m_store (sys_m s))" "store_wf (m_store (sys_m s))"
  using assms unfolding sys_inv_def by blast+

lemma sys_invI:
  assumes "sched_wf (m_sched (sys_m s))" "owned (sys_go s) (m_sched (sys_m s))"
    "\<And>g p. sys_go s g = Some p \<Longrightarrow> pc_ok (m_sched (sys_m s)) (m_store (sys_m s)) p"
    "tasks_have_jobs (m_sched (sys_m s)) (m_store (sys_m s))"
    "store_statuses (m_store (sys_m s))" "store_wf (m_store (sys_m s))"
  shows "sys_inv s"
  unfolding sys_inv_def using assms by blast

lemma sys_inv_init: "sys_init s \<Longrightarrow> sys_inv s"
proof -
  assume "sys_init s"
  then obtain n where s: "m_sched (sys_m s) = NewScheduler n" "m_store (sys_m s) = NewStore"
    "sys_go s = Map.empty"
    by (auto simp: sys_init_def)
  show ?thesis
    by (rule sys_invI)
       (simp_all add: s sched_wf_New store_wf_New owned_def tasks_have_jobs_def store_statuses_def
         GetJob_def, simp add: NewStore_def)
qed

lemma sys_inv_go:
  assumes inv: "sys_inv s" and g: "sys_go s g = Some p" and step: "go_step env p (sys_m s) = (p', m')"
  shows "sys_inv (s\<lparr>sys_m := m', sys_go := (sys_go s)(g := p')\<rparr>)"
proof (rule sys_invI)
  note i = sys_invD [OF inv]
  note kept = store_evolves_keeps [OF go_step_store [OF step]]
  have own: "sched_wf (m_sched m') \<and> owned ((sys_go s)(g := p')) (m_sched m')"
    by (rule go_step_owned [OF i(1,2) g _ step]) (use i(3) [OF g] in auto)
  let ?s = "s\<lparr>sys_m := m', sys_go := (sys_go s)(g := p')\<rparr>"
  show "sched_wf (m_sched (sys_m ?s))" "owned (sys_go ?s) (m_sched (sys_m ?s))"
    using own by simp_all
  show "tasks_have_jobs (m_sched (sys_m ?s)) (m_store (sys_m ?s))"
    using go_step_tasks [OF i(3) [OF g] i(4) step] by simp
  show "store_statuses (m_store (sys_m ?s))" "store_wf (m_store (sys_m ?s))"
    using kept(2) [OF i(5)] kept(3) [OF i(6)] by simp_all
  fix h q assume "sys_go ?s h = Some q"
  then consider "h = g" "p' = Some q" | "h \<noteq> g" "sys_go s h = Some q" by (auto split: if_splits)
  then show "pc_ok (m_sched (sys_m ?s)) (m_store (sys_m ?s)) q"
  proof cases
    case 1
    with go_step_pc_ok [OF i(3) [OF g]] step show ?thesis by simp
  next
    case 2
    from pc_ok_mono [OF i(3) [OF 2(2)] go_step_grows [OF step] kept(1)] show ?thesis by simp
  qed
qed

text \<open>Requests of workers and the timers leave scheduler and store alone.\<close>

lemma background_frame [frame]:
  "m_sched (snd (Server_Register now req m)) = m_sched m"
  "m_store (snd (Server_Register now req m)) = m_store m"
  "m_sched (snd (Server_Deregister i m)) = m_sched m"
  "m_store (snd (Server_Deregister i m)) = m_store m"
  "m_sched (snd (Server_Heartbeat now hb m)) = m_sched m"
  "m_store (snd (Server_Heartbeat now hb m)) = m_store m"
  "m_sched (health_tick now ks m) = m_sched m" "m_store (health_tick now ks m) = m_store m"
  "m_sched (scale_down_tick ks m) = m_sched m" "m_store (scale_down_tick ks m) = m_store m"
  by (auto simp: Server_Register_def Server_Deregister_def Server_Heartbeat_def health_tick_def
      scale_down_tick_def split: prod.splits option.splits bool.splits)

lemma sys_inv_background:
  "sys_inv s \<Longrightarrow> m_sched m' = m_sched (sys_m s) \<Longrightarrow> m_store m' = m_store (sys_m s) \<Longrightarrow>
   sys_inv (s\<lparr>sys_m := m'\<rparr>)"
  by (simp add: sys_inv_def)

lemma sys_inv_spawn:
  assumes "sys_inv s" and "sys_go s g = None" and "holds p = None"
    and "pc_ok (m_sched (sys_m s)) (m_store (sys_m s)) p"
  shows "sys_inv (s\<lparr>sys_go := (sys_go s)(g \<mapsto> p)\<rparr>)"
proof (rule sys_invI)
  note i = sys_invD [OF assms(1)]
  show "owned (sys_go (s\<lparr>sys_go := (sys_go s)(g \<mapsto> p)\<rparr>)) (m_sched (sys_m (s\<lparr>sys_go := (sys_go s)(g \<mapsto> p)\<rparr>)))"
    using owned_keep [OF i(2) refl, of g "Some p"] assms(3) i(1) by simp
qed (use assms sys_invD [OF assms(1)] in \<open>auto split: if_splits\<close>)

lemma sys_inv_loop:
  assumes inv: "sys_inv s" and deq: "Dequeue done pick (m_sched (sys_m s)) = Dequeued r sch"
    and g: "sys_go s g = None"
  shows "sys_inv (s\<lparr>sys_m := (sys_m s)\<lparr>m_sched := sch\<rparr>, sys_go := (sys_go s)(g \<mapsto> DEnsure r)\<rparr>)"
proof -
  note i = sys_invD [OF inv]
  have recv: "sched_recv (m_sched (sys_m s)) = Some (r, sch)"
    using deq by (auto simp: Dequeue_def split: option.splits prod.splits if_splits)
  then obtain xs where xs: "pending_refs (m_sched (sys_m s)) = r # xs"
    and sch: "sch = (m_sched (sys_m s))\<lparr>sched_pending := Chan xs (queue_cap (m_sched (sys_m s)))\<rparr>"
    by (auto simp: sched_recv_simps)
  have "owned ((sys_go s)(g \<mapsto> DEnsure r)) sch"
    by (rule owned_take [OF i(2) g _ _ _ i(1)]) (simp_all add: xs sch)
  moreover have "sched_wf sch" using sched_wf_recv [OF i(1) recv] by blast
  moreover have "pc_ok sch st p = pc_ok (m_sched (sys_m s)) st p" for st and p :: "'d pc"
    by (cases p) (simp_all add: sch)
  moreover have "tasks_have_jobs sch st = tasks_have_jobs (m_sched (sys_m s)) st" for st
    by (simp add: sch tasks_have_jobs_def)
  ultimately show ?thesis
    using i by (intro sys_invI) (auto split: if_splits)
qed

lemma sys_inv_step:
  assumes inv: "sys_inv s" and step: "sys_step s l t"
  shows "sys_inv t"
  using step
proof cases
  case step_go
  with inv show ?thesis by (simp add: sys_inv_go)
next
  case step_loop
  with inv show ?thesis by (simp add: sys_inv_loop)
qed (use inv in \<open>simp_all add: background_frame sys_inv_spawn sys_inv_background\<close>)

interpretation master: invariant_system sys_init sys_step sys_inv
  by unfold_locales (auto intro: sys_inv_init sys_inv_step)

section \<open>What every run of the master guarantees\<close>

text \<open>A run: one submission, taken by the dispatch loop.\<close>

definition sample_start :: "(RoundRobinBalancer, unit, unit, string) Sys" where
  "sample_start = \<lparr>sys_m = sample_idle, sys_go = Map.empty\<rparr>"

definition sample_submitted :: "(RoundRobinBalancer, unit, unit, string) Sys" where
  "sample_submitted = \<lparr>sys_m = snd (Submit ''j1'' 0 0 sample_request sample_idle), sys_go = Map.empty\<rparr>"

definition sample_dispatching :: "(RoundRobinBalancer, unit, unit, string) Sys" where
  "sample_dispatching = \<lparr>sys_m = dequeued (sys_m sample_submitted), sys_go = [1 \<mapsto> DEnsure 0]\<rparr>"

lemma sample_request_ok [simp]: "well_formed_request sample_request"
  by (simp add: well_formed_request_def sample_request_def)

lemma reach_start: "reach sys_init sys_step sample_start"
proof (rule reach_init)
  show "sys_init sample_start" by (auto simp: sys_init_def sample_start_def)
qed

lemma start_submitted: "reach (\<lambda>u. u = sample_start) sys_step sample_submitted"
proof -
  let ?p = "SSaveJob ''j1'' 0 0 sample_request :: string pc"
  let ?s = "\<lparr>sys_m = sample_idle, sys_go = [0 \<mapsto> ?p]\<rparr>"
  have r0: "reach (\<lambda>u. u = sample_start) sys_step sample_start" by (rule reach_self)
  have r1: "reach (\<lambda>u. u = sample_start) sys_step ?s"
    by (rule reach_submitI [OF r0 sample_request_ok, where g = 0]) (simp_all add: sample_start_def)
  show ?thesis
    by (rule reach_runI [OF r1, where g = 0 and p = ?p and n = 5 and env = "sample_env (Inr sample_reply) [''w1'']"])
       (simp_all only: go_run_submit [OF sample_request_ok], simp_all add: sample_submitted_def)
qed

lemma reach_submitted: "reach sys_init sys_step sample_submitted"
  by (rule reach_trans [OF reach_start start_submitted])

lemma sample_waiting_submitted: "waiting 0 0 (sys_m sample_submitted)"
  using waiting_submitted [of sample_request sample_idle "''j1''" 0 0]
  by (simp add: sample_submitted_def sched_wf_New)

lemma start_dispatching: "reach (\<lambda>u. u = sample_start) sys_step sample_dispatching"
proof -
  have "sched_recv (m_sched (sys_m sample_submitted)) = Some (0, m_sched (dequeued (sys_m sample_submitted)))"
    using sample_waiting_submitted by (simp add: sched_recv_simps waiting_def)
  then have "Dequeue False False (m_sched (sys_m sample_submitted)) =
      Dequeued 0 (m_sched (dequeued (sys_m sample_submitted)))"
    by (simp add: Dequeue_def)
  then show ?thesis
    by (rule reach_loopI [OF start_submitted, where g = 1])
       (simp_all add: sample_dispatching_def sample_submitted_def)
qed

lemma reach_dispatching: "reach sys_init sys_step sample_dispatching"
  by (rule reach_trans [OF reach_start start_dispatching])

text \<open>Claim C5: however the goroutines of the master interleave, no task is ever in two hands: the
  queue holds no task twice, no goroutine works on a task that is also queued, and no two goroutines
  work on the same task; so no task is sent to two workers at the same time.\<close>

theorem task_in_one_hand:
  assumes "reach sys_init sys_step s"
  shows "distinct (pending_refs (m_sched (sys_m s))) \<and>
    (\<forall>g p r. sys_go s g = Some p \<and> holds p = Some r \<longrightarrow> r \<notin> set (pending_refs (m_sched (sys_m s)))) \<and>
    (\<forall>g g' p p' r. sys_go s g = Some p \<and> sys_go s g' = Some p' \<and> holds p = Some r \<and> holds p' = Some r
       \<longrightarrow> g = g')"
proof -
  note own = ownedD [OF sys_invD(2) [OF master.reach_inva [OF assms]]]
  show ?thesis
    using own(1) own(3) own(4) by (metis holds_opt_simps(2))
qed

theorem task_in_one_hand_witness:
  "sys_go sample_dispatching 1 = Some (DEnsure 0) \<and>
   0 \<notin> set (pending_refs (m_sched (sys_m sample_dispatching)))"
proof -
  have "sys_go sample_dispatching 1 = Some (DEnsure 0)" by (simp add: sample_dispatching_def)
  with task_in_one_hand [OF reach_dispatching] show ?thesis by (metis holds.simps(1))
qed

text \<open>Claim C6: in every reachable state the queue is within its bound, the table of tasks agrees with
  the task objects, and every task the scheduler knows has a job in the store, so no accepted task can
  finish without a job to file its result in.\<close>

theorem reachable_consistent:
  assumes "reach sys_init sys_step s"
  shows "let sch = m_sched (sys_m s); st = m_store (sys_m s)
    in PendingCount sch \<le> sched_maxQueue sch \<and> store_wf st \<and>
       (\<forall>i r. sched_tasks sch i = Some r \<longrightarrow> task_ID (sched_heap sch r) = i \<and> GetJob i st \<noteq> None)"
proof -
  note i = sys_invD [OF master.reach_inva [OF assms]]
  show ?thesis
    using i(4,6) sched_wf_boundD [OF i(1)] sched_wf_tableD [OF i(1)]
    by (simp add: Let_def PendingCount_def chan_len_def tasks_have_jobs_def)
qed

theorem reachable_consistent_witness:
  "sched_tasks (m_sched (sys_m sample_submitted)) ''j1'' = Some 0 \<and>
   GetJob ''j1'' (m_store (sys_m sample_submitted)) \<noteq> None"
proof -
  have "PendingCount (m_sched sample_idle) < queue_cap (m_sched sample_idle)"
    by (simp add: new_scheduler)
  then have "sched_tasks (m_sched (sys_m sample_submitted)) ''j1'' = Some 0"
    using Submit_room(8) [of sample_request sample_idle "''j1''" 0 0]
    by (simp add: sample_submitted_def)
  with reachable_consistent [OF reach_submitted] show ?thesis by (simp add: Let_def)
qed

text \<open>Claim C31: a status query never answers RUNNING or TIMEOUT, in no reachable state: the store is
  only ever told PENDING, COMPLETED, FAILED and CANCELLED, so a client cannot see that its job runs
  and the RUNNING case of a cancel request is never taken.\<close>

theorem never_reports_running:
  assumes "reach sys_init sys_step s" and "GetStatus i (sys_m s) = Inr resp"
  shows "gs_Status resp \<in> {JOB_STATUS_PENDING, JOB_STATUS_COMPLETED, JOB_STATUS_FAILED, JOB_STATUS_CANCELLED}"
proof -
  obtain j where j: "GetJob i (m_store (sys_m s)) = Some j" and resp: "resp = status_response j"
    using assms(2) by (auto simp: GetStatus_def split: if_splits option.splits)
  have "reported (job_Status j)"
    using sys_invD(5) [OF master.reach_inva [OF assms(1)]] j by (simp add: store_statuses_def)
  then show ?thesis by (auto simp: resp reported_def)
qed

theorem never_reports_running_witness:
  "\<exists>resp. GetStatus ''j1'' (sys_m sample_dispatching) = Inr resp \<and>
     gs_Status resp \<noteq> JOB_STATUS_RUNNING"
proof -
  have "m_store (sys_m sample_submitted) = SaveJob (submit_job ''j1'' 0 sample_request) NewStore"
    by (simp add: sample_submitted_def Submit_wf)
  then have "GetStatus ''j1'' (sys_m sample_dispatching) =
      Inr (status_response (submit_job ''j1'' 0 sample_request))"
    by (simp add: sample_dispatching_def GetStatus_def store.get_save)
  with never_reports_running [OF reach_dispatching this] show ?thesis by auto
qed

section \<open>A race of a cancel request\<close>

lemma sample_dispatching_facts:
  defines "m \<equiv> sys_m sample_dispatching"
  shows "m_store m = SaveJob (submit_job ''j1'' 0 sample_request) NewStore"
    and "m_reg m = m_reg (sample_master [] True)" and "m_bal m = m_bal (sample_master [] True)"
    and "m_pool m = empty_pool" and "task_ID (sched_heap (m_sched m) 0) = ''j1''"
    and "known 0 (m_sched m)"
proof -
  have room: "PendingCount (m_sched sample_idle) < queue_cap (m_sched sample_idle)"
    by (simp add: new_scheduler)
  note sub = Submit_room [OF sample_request_ok _ room, of "''j1''" 0 0]
  show "m_store m = SaveJob (submit_job ''j1'' 0 sample_request) NewStore"
    and "m_reg m = m_reg (sample_master [] True)" and "m_bal m = m_bal (sample_master [] True)"
    and "m_pool m = empty_pool" and "task_ID (sched_heap (m_sched m) 0) = ''j1''"
    using sub by (simp_all add: m_def sample_dispatching_def sample_submitted_def)
  show "known 0 (m_sched m)"
    using waiting_dequeued [OF sample_waiting_submitted] by (simp add: m_def sample_dispatching_def)
qed

definition sample_completed :: "(RoundRobinBalancer, unit, unit, string) Master" where
  "sample_completed =
     dispatchTask (sample_env (Inr sample_reply) [''w1'']) 0 (sys_m sample_dispatching)"

lemma sample_completed_store:
  "\<exists>res. m_store sample_completed = SaveResult res (SaveJob (submit_job ''j1'' 0 sample_request) NewStore) \<and>
     res_TaskID res = ''j1'' \<and> IsSuccess res"
proof -
  let ?env = "sample_env (Inr sample_reply) [''w1'']" and ?m = "sys_m sample_dispatching"
  have cl: "getClient (env_dial ?env) sample_node (m_pool ?m) =
      (Inr (WorkerServiceClient ''10.0.0.1:50052''), snd (getClient Inr sample_node empty_pool))"
    by (simp add: sample_dispatching_facts prod_eq_iff)
  have "m_store sample_completed = SaveResult (response_result (sched_heap (m_sched ?m) 0) sample_node
      sample_reply (env_now_replied ?env)) (m_store ?m)"
    unfolding sample_completed_def
    using dispatch_reply_effect [OF sample_dispatching_facts(6) _ _ _ cl, of "\<lparr>rr_counter = 1\<rparr>" sample_reply]
    by (simp add: sample_dispatching_facts)
  then show ?thesis
    by (intro exI conjI) (simp_all add: sample_dispatching_facts IsSuccess_def,
        simp_all add: sample_reply_def sample_dispatching_facts)
qed

lemma sample_completed_job:
  "\<exists>j res. GetJob ''j1'' (m_store sample_completed) = Some j \<and> job_Result j = Some res \<and> IsSuccess res"
proof -
  obtain res where "m_store sample_completed = SaveResult res (SaveJob (submit_job ''j1'' 0 sample_request) NewStore)"
    "res_TaskID res = ''j1''" "IsSuccess res"
    using sample_completed_store by blast
  then show ?thesis by (simp add: store.get_save store.get_save_result)
qed

lemma reach_cancelled_late:
  "reach sys_init sys_step
     \<lparr>sys_m = do_cancel ''j1'' sample_completed, sys_go = Map.empty :: nat \<rightharpoonup> string pc\<rparr>"
proof -
  let ?env = "sample_env (Inr sample_reply) [''w1'']" and ?m = "sys_m sample_dispatching"
  let ?s = "\<lambda>m (p :: string pc option) q. \<lparr>sys_m = m, sys_go = Map.empty(1 := p, 2 := q)\<rparr>"
  have s0: "sample_dispatching = ?s ?m (Some (DEnsure 0)) None"
    by (simp add: sample_dispatching_def fun_eq_iff)
  have r0: "reach sys_init sys_step (?s ?m (Some (DEnsure 0)) None)"
    using reach_dispatching by (simp only: s0 [symmetric])
  have r1: "reach sys_init sys_step (?s ?m (Some (DEnsure 0)) (Some (CRead ''j1'')))"
    by (rule reach_cancelI [OF r0, where g = 2 and i = "''j1''"]) simp_all
  have read: "go_step ?env (CRead ''j1'') ?m = (Some (CWrite ''j1''), ?m)"
    by (simp add: sample_dispatching_facts store.get_save cancellable_def)
  have r2: "reach sys_init sys_step (?s ?m (Some (DEnsure 0)) (Some (CWrite ''j1'')))"
    by (rule reach_goI [OF r1, where g = 2 and p = "CRead ''j1''" and env = ?env])
       (simp_all only: Sys.simps read, simp_all)
  have run: "go_run 13 ?env (DEnsure 0) ?m = Some sample_completed"
    by (simp only: go_run_dispatch13 sample_completed_def)
  have r3: "reach sys_init sys_step (?s sample_completed None (Some (CWrite ''j1'')))"
    by (rule reach_runI [OF r2, where g = 1 and p = "DEnsure 0" and n = 13 and env = ?env])
       (simp_all only: Sys.simps run, simp_all add: fun_upd_twist)
  show ?thesis
    by (rule reach_goI [OF r3, where g = 2 and p = "CWrite ''j1''" and env = ?env]) (simp_all add: fun_eq_iff)
qed

text \<open>Claim C30: because \<open>Cancel\<close> reads the status and writes it in two critical sections, a run
  exists in which a job completes with a SUCCESS result and is then shown as CANCELLED for good,
  although the cancel request answered on the strength of a status that no longer held.\<close>

theorem cancel_races_with_completion:
  "\<exists>(s :: (RoundRobinBalancer, unit, unit, string) Sys) j res. reach sys_init sys_step s \<and>
     GetJob ''j1'' (m_store (sys_m s)) = Some j \<and> job_Result j = Some res \<and> IsSuccess res \<and>
     map_sum id gs_Status (GetStatus ''j1'' (sys_m s)) = Inr JOB_STATUS_CANCELLED"
proof -
  let ?s = "\<lparr>sys_m = do_cancel ''j1'' sample_completed, sys_go = Map.empty :: nat \<rightharpoonup> string pc\<rparr>"
  obtain j res where "GetJob ''j1'' (m_store sample_completed) = Some j" "job_Result j = Some res"
    "IsSuccess res"
    using sample_completed_job by blast
  then have "GetJob ''j1'' (m_store (sys_m ?s)) = Some (j\<lparr>job_Status := TaskStatusCancelled\<rparr>) \<and>
      job_Result (j\<lparr>job_Status := TaskStatusCancelled\<rparr>) = Some res \<and> IsSuccess res \<and>
      map_sum id gs_Status (GetStatus ''j1'' (sys_m ?s)) = Inr JOB_STATUS_CANCELLED"
    by (simp add: do_cancel_def store.get_set_status GetStatus_def)
  with reach_cancelled_late show ?thesis by blast
qed

end
