(* ===== verification/MasterTypes.thy ===== *)
theory MasterTypes
  imports MasterInvariant
begin

text \<open>
  The types that the master's values keep in every run: the model computes with unbounded integers and
  wraps where the source does, and here it is shown that the fields of tasks, jobs, results and nodes
  stay in the range of their Go types. The values that occur are fewer than the types allow.
\<close>

section \<open>Typed values\<close>

definition task_typed :: "Task \<Rightarrow> bool" where
  "task_typed t \<longleftrightarrow> in32 (task_Priority t) \<and> in64 (task_Timeout t) \<and> in64 (task_Retries t) \<and>
     task_Status t \<in> {TaskStatusCreated, TaskStatusPending, TaskStatusRunning, TaskStatusCompleted, TaskStatusFailed}"

definition result_typed :: "Result \<Rightarrow> bool" where
  "result_typed res \<longleftrightarrow> in32 (res_ExitCode res) \<and> in64 (res_Duration res) \<and> (\<forall>n. res_Status res \<noteq> ResultStatusOther n)"

definition job_typed :: "Job \<Rightarrow> bool" where
  "job_typed j \<longleftrightarrow> in32 (job_Priority j) \<and> in64 (job_Timeout j) \<and> reported (job_Status j) \<and>
     pred_option result_typed (job_Result j)"

definition node_typed :: "NodeInfo \<Rightarrow> bool" where
  "node_typed n \<longleftrightarrow> in32 (node_MaxTasks n) \<and> in64 (node_ActiveTasks n) \<and> node_Status n \<noteq> NodeStatusDraining"

text \<open>Messages, as the protocol buffers type them.\<close>

definition request_typed :: "SubmitRequest \<Rightarrow> bool" where
  "request_typed req \<longleftrightarrow> in32 (sub_Priority req) \<and> in64 (as_duration (sub_Timeout req))"

definition reply_typed :: "ExecuteResponse \<Rightarrow> bool" where
  "reply_typed resp \<longleftrightarrow> in32 (xr_ExitCode resp) \<and> in64 (as_duration (xr_Duration resp))"

fun label_typed :: "('b, 'n) label \<Rightarrow> bool" where
  "label_typed (Go g env) \<longleftrightarrow> (\<forall>c q resp. env_exec env c q = Inr resp \<longrightarrow> reply_typed resp)"
| "label_typed (Submitted g i now now' req) \<longleftrightarrow> request_typed req"
| "label_typed (Registering now req) \<longleftrightarrow> in32 (rq_MaxConcurrentTasks req)"
| "label_typed (Beating now hb) \<longleftrightarrow> in32 (hb_ActiveTasks hb)"
| "label_typed _ \<longleftrightarrow> True"

section \<open>Typed states\<close>

definition sched_typed :: "Scheduler \<Rightarrow> bool" where
  "sched_typed s \<longleftrightarrow> (\<forall>r. task_typed (sched_heap s r)) \<and>
     (\<forall>r < sched_next s. task_MaxRetries (sched_heap s r) = 3)"

definition store_typed :: "Store \<Rightarrow> bool" where
  "store_typed st \<longleftrightarrow> (\<forall>i j. GetJob i st = Some j \<longrightarrow> job_typed j) \<and>
     (\<forall>i res. GetResult i st = Some res \<longrightarrow> result_typed res)"

definition reg_typed :: "'d NodeRegistry \<Rightarrow> bool" where
  "reg_typed r \<longleftrightarrow> (\<forall>i n. reg_nodes r i = Some n \<longrightarrow> node_typed n)"

fun pc_typed :: "'n pc \<Rightarrow> bool" where
  "pc_typed (DSaveResult r node res) \<longleftrightarrow> result_typed res"
| "pc_typed (SSaveJob i now now' req) \<longleftrightarrow> request_typed req"
| "pc_typed (SNewTask i now' req) \<longleftrightarrow> request_typed req"
| "pc_typed _ \<longleftrightarrow> True"

definition sys_typed :: "('b, 'c, 'x, 'n) Sys \<Rightarrow> bool" where
  "sys_typed s \<longleftrightarrow> sched_typed (m_sched (sys_m s)) \<and> store_typed (m_store (sys_m s)) \<and>
     reg_typed (m_reg (sys_m s)) \<and> (\<forall>g p. sys_go s g = Some p \<longrightarrow> pc_typed p)"

lemma sys_typedD:
  assumes "sys_typed s"
  shows "sched_typed (m_sched (sys_m s))" "store_typed (m_store (sys_m s))" "reg_typed (m_reg (sys_m s))"
    "sys_go s g = Some p \<Longrightarrow> pc_typed p"
  using assms unfolding sys_typed_def by blast+

lemma sys_typedI:
  assumes "sched_typed (m_sched (sys_m s))" "store_typed (m_store (sys_m s))" "reg_typed (m_reg (sys_m s))"
    "\<And>g p. sys_go s g = Some p \<Longrightarrow> pc_typed p"
  shows "sys_typed s"
  unfolding sys_typed_def using assms by blast

named_theorems typed \<open>operations that keep the types\<close>

section \<open>The scheduler\<close>

lemma sched_typed_upd:
  "(\<And>t. task_typed t \<Longrightarrow> task_typed (f t)) \<Longrightarrow> (\<And>t. task_MaxRetries (f t) = task_MaxRetries t) \<Longrightarrow>
   sched_typed s \<Longrightarrow> sched_typed (task_upd r f s)"
  by (simp add: sched_typed_def)

lemma sched_typed_marks [typed]:
  assumes "sched_typed s"
  shows "sched_typed (snd (MarkRunning i w now s))" and "sched_typed (snd (MarkFailed i e now s))"
    and "sched_typed (snd (MarkComplete i res now s))" and "sched_typed (requeue_reset r s)"
  using assms
  by (auto simp: MarkRunning_def MarkFailed_def MarkComplete_def requeue_reset_def task_typed_def
      split: option.splits intro!: sched_typed_upd)

lemma sched_typed_queue:
  assumes "sched_typed s"
  shows "sched_send r s = Some s' \<Longrightarrow> sched_typed s'" and "sched_recv s = Some (r, s') \<Longrightarrow> sched_typed s'"
    and "sched_typed (enqueue_undo r s)" and "enqueue_insert r s = (e, s') \<Longrightarrow> sched_typed s'"
  using assms
  by (auto simp: sched_typed_def sched_send_simps sched_recv_simps enqueue_undo_def enqueue_insert_def Let_def
      task_typed_def split: if_splits)

lemma sched_typed_alloc [typed]:
  assumes "sched_typed s" and "request_typed req"
  shows "sched_typed (with_task (submit_task i now req) s)"
  using assms
  by (auto simp: sched_typed_def submit_task_def NewTask_def task_typed_def request_typed_def submit_timeout_def
      as_duration_def in64_def second_def less_Suc_eq split: option.splits)

lemma sched_typed_new_task:
  "sched_typed s \<Longrightarrow> request_typed req \<Longrightarrow> task_alloc (submit_task i now req) s = (r, s') \<Longrightarrow> sched_typed s'"
  using sched_typed_alloc [of s req i now] by simp

lemma sched_typed_New [typed]: "sched_typed (NewScheduler n)"
  by (simp add: sched_typed_def NewScheduler_def Let_def zero_task_def task_typed_def in32_def in64_def)

section \<open>Store and registry\<close>

lemma store_typed_ops [typed]:
  assumes "store_typed st"
  shows "request_typed req \<Longrightarrow> store_typed (SaveJob (submit_job i now req) st)"
    and "reported a \<Longrightarrow> store_typed (UpdateJobStatus i a st)"
    and "result_typed res \<Longrightarrow> store_typed (SaveResult res st)"
  using assms
  by (auto simp: store_typed_def store.get_simps job_typed_def submit_job_def request_typed_def submit_timeout_def
      as_duration_def in64_def second_def split: if_splits option.splits)

lemma store_typed_New [typed]: "store_typed NewStore"
  by (simp add: store_typed_def NewStore_def GetJob_def GetResult_def)

lemma reply_result_typed [typed]: "reply_typed resp \<Longrightarrow> result_typed (response_result t node resp now)"
  by (cases "xr_Status resp") (simp_all add: reply_typed_def result_typed_def response_result_def)

lemma in64_pred: "in64 x \<Longrightarrow> 0 < x \<Longrightarrow> in64 (x - 1)"
  by (simp add: in64_def)

lemma reg_typed_load [typed]:
  assumes "reg_typed r"
  shows "reg_typed (IncrementActiveTasks i r)" and "reg_typed (DecrementActiveTasks i r)"
  using assms
  by (auto simp: reg_typed_def IncrementActiveTasks_def DecrementActiveTasks_def node_typed_def in64_pred
      split: option.splits)

lemma reg_typed_nodes [typed]:
  assumes "reg_typed r"
  shows "in32 (node_MaxTasks n) \<Longrightarrow> in64 (node_ActiveTasks n) \<Longrightarrow> reg_typed (Register n now r)"
    and "reg_typed (Deregister i r)" and "in32 a \<Longrightarrow> reg_typed (snd (Heartbeat i a now r))"
  using assms
  by (auto simp: reg_typed_def Register_def Deregister_def Heartbeat_def heartbeat_node_def Let_def node_typed_def
      in32_in64 split: option.splits if_splits)

lemma health_scan_typed:
  "health_scan now hb un m rem ks = (m', rem') \<Longrightarrow> (\<forall>i n. m i = Some n \<longrightarrow> node_typed n) \<Longrightarrow>
   m' i = Some n \<Longrightarrow> node_typed n"
proof (induction ks arbitrary: m rem)
  case (Cons k ks)
  show ?case
  proof (cases "m k")
    case None
    with Cons show ?thesis by auto
  next
    case (Some q)
    have upd: "\<forall>i n. (m(k \<mapsto> q\<lparr>node_Status := NodeStatusUnhealthy\<rparr>)) i = Some n \<longrightarrow> node_typed n"
      using Cons.prems(2) Some by (auto simp: node_typed_def)
    show ?thesis
      using Cons.prems Some Cons.IH [of m] Cons.IH [of m "rem @ [k]"] Cons.IH [OF _ upd]
      by (simp add: Let_def fun_upd_def split: if_splits)
  qed
qed simp

lemma health_remove_typed:
  "health_remove cb ids m d = (m', d') \<Longrightarrow> m' i = Some n \<Longrightarrow> m i = Some n"
  by (induction ids arbitrary: m d) (auto split: if_splits, metis go_delete_apply option.distinct(1))

lemma reg_typed_checkHealth [typed]:
  assumes "reg_typed r"
  shows "reg_typed (fst (checkHealth now ks r d))"
proof -
  obtain m1 rem where scan: "health_scan now (reg_heartbeatTimeout r) (reg_unhealthyTimeout r) (reg_nodes r) [] ks = (m1, rem)"
    by fastforce
  obtain m2 d' where removed: "health_remove (reg_onNodeRemoved r) rem m1 d = (m2, d')" by fastforce
  have "node_typed n" if "m2 i = Some n" for i n
    using health_scan_typed [OF scan _ health_remove_typed [OF removed that]] assms by (simp add: reg_typed_def)
  then show ?thesis by (simp add: checkHealth_def scan removed reg_typed_def)
qed


section \<open>Every step keeps the types\<close>

lemma go_step_sched_typed:
  assumes sch: "sched_typed (m_sched m)" and pc: "pc_typed p" and step: "go_step env p m = (p', m')"
  shows "sched_typed (m_sched m')"
  using step pc sch sched_typed_queue [OF sch] sched_typed_new_task [OF sch]
  by (cases p)
     (auto simp: sched_typed_marks do_sections do_save_job_def do_new_task_def do_cancel_def Let_def
       split: prod.splits sum.splits option.splits if_splits)

lemma go_step_store_typed:
  assumes st: "store_typed (m_store m)" and pc: "pc_typed p" and step: "go_step env p m = (p', m')"
  shows "store_typed (m_store m')"
  using step pc st
  by (cases p)
     (auto simp: store_typed_ops do_sections do_save_job_def do_new_task_def do_cancel_def Let_def
       split: prod.splits sum.splits option.splits if_splits)

lemma go_step_reg_typed:
  assumes reg: "reg_typed (m_reg m)" and step: "go_step env p m = (p', m')"
  shows "reg_typed (m_reg m')"
  using step reg
  by (cases p)
     (auto simp: reg_typed_load do_sections do_save_job_def do_new_task_def do_cancel_def Let_def
       split: prod.splits sum.splits option.splits if_splits)

lemma go_step_pc_typed:
  assumes "\<And>c q resp. env_exec env c q = Inr resp \<Longrightarrow> reply_typed resp" and "pc_typed p"
    and "go_step env p m = (Some p', m')"
  shows "pc_typed p'"
  using assms(2,3)
  by (cases p)
     (auto simp: reply_result_typed assms(1) do_new_task_def Let_def
       split: prod.splits sum.splits option.splits if_splits)

lemma background_typed:
  assumes "reg_typed (m_reg m)"
  shows "in32 (rq_MaxConcurrentTasks req) \<Longrightarrow> reg_typed (m_reg (snd (Server_Register now req m)))"
    and "reg_typed (m_reg (snd (Server_Deregister i m)))"
    and "in32 (hb_ActiveTasks hb) \<Longrightarrow> reg_typed (m_reg (snd (Server_Heartbeat now hb m)))"
    and "reg_typed (m_reg (health_tick now ks m))" and "reg_typed (m_reg (scale_down_tick ks m))"
proof -
  show "in32 (rq_MaxConcurrentTasks req) \<Longrightarrow> reg_typed (m_reg (snd (Server_Register now req m)))"
    using assms by (auto simp: Server_Register_def register_node_def zero_node_def in64_def intro!: reg_typed_nodes(1))
  show "reg_typed (m_reg (snd (Server_Deregister i m)))"
    using assms by (simp add: Server_Deregister_def typed)
  show "in32 (hb_ActiveTasks hb) \<Longrightarrow> reg_typed (m_reg (snd (Server_Heartbeat now hb m)))"
    using reg_typed_nodes(3) [OF assms, of "hb_ActiveTasks hb" "hb_WorkerId hb" now] assms
    by (auto simp: Server_Heartbeat_def split: prod.splits bool.splits)
  show "reg_typed (m_reg (health_tick now ks m))"
    using reg_typed_checkHealth [OF assms, of now ks "m_pool m"] by (simp add: health_tick_def split_beta)
  show "reg_typed (m_reg (scale_down_tick ks m))"
    using assms by (simp add: scale_down_tick_def split: option.splits)
qed

definition typed_step :: "('b, 'c, 'x, 'n) Sys \<Rightarrow> ('b, 'n) label \<Rightarrow> ('b, 'c, 'x, 'n) Sys \<Rightarrow> bool" where
  "typed_step s l t \<longleftrightarrow> sys_step s l t \<and> label_typed l"

definition typed_init :: "('b, 'c, 'x, 'n) Sys \<Rightarrow> bool" where
  "typed_init s \<longleftrightarrow> sys_init s \<and> reg_typed (m_reg (sys_m s))"

lemma sys_typed_step:
  assumes typed: "sys_typed s" and "typed_step s l t"
  shows "sys_typed t"
proof -
  have step: "sys_step s l t" and lab: "label_typed l" using assms(2) by (simp_all add: typed_step_def)
  note ty = sys_typedD [OF typed]
  show ?thesis
    using step
  proof cases
    case (step_go g p env p' m')
    have "\<And>c q resp. env_exec env c q = Inr resp \<Longrightarrow> reply_typed resp" using lab step_go by simp
    note pc = go_step_pc_typed [OF this ty(4) [OF step_go(3)]]
    from pc go_step_sched_typed [OF ty(1) ty(4) [OF step_go(3)] step_go(4)] step_go(2,4) ty(4)
      go_step_store_typed [OF ty(2) ty(4) [OF step_go(3)] step_go(4)] go_step_reg_typed [OF ty(3) step_go(4)]
    show ?thesis by (intro sys_typedI) (auto split: if_splits)
  next
    case (step_loop dn pick r sch g)
    then have "sched_typed sch"
      using sched_typed_queue(2) [OF ty(1)] by (auto simp: Dequeue_def split: option.splits prod.splits if_splits)
    with step_loop ty show ?thesis by (intro sys_typedI) (auto split: if_splits)
  qed (use ty lab in \<open>auto intro!: sys_typedI simp: background_frame background_typed split: if_splits\<close>)
qed

interpretation ranges: invariant_system typed_init typed_step sys_typed
proof unfold_locales
  fix s :: "('a, 'b, 'c, 'd) Sys" assume "typed_init s"
  then show "sys_typed s" by (intro sys_typedI) (auto simp: typed_init_def sys_init_def typed)
qed (rule sys_typed_step)


section \<open>What the types promise\<close>

definition sample_worker_request :: RegisterRequest where
  "sample_worker_request = \<lparr>rq_WorkerId = ''w1'', rq_Address = ''10.0.0.1:50052'', rq_Capabilities = [],
     rq_MaxConcurrentTasks = 10, rq_Labels = Map.empty\<rparr>"

text \<open>Claim C17: Of the values that the types of the code allow, only these occur in a run whose messages
  are typed as the protocol buffers type them. A task is CREATED, PENDING, RUNNING, COMPLETED or FAILED,
  never cancelled or timed out, and has a budget of three retries; a node is never DRAINING, whatever it
  reports, and its capacity is the 32-bit number of its registration; a stored result has one of the four
  named statuses. A status reply carries output, error and worker of the result, and the conversion of its
  exit code from \<open>int\<close> to \<open>int32\<close> loses nothing.\<close>

theorem occurring_values:
  assumes "reach typed_init typed_step s"
  shows "(\<forall>r < sched_next (m_sched (sys_m s)). let t = sched_heap (m_sched (sys_m s)) r in task_MaxRetries t = 3 \<and>
      task_Status t \<in> {TaskStatusCreated, TaskStatusPending, TaskStatusRunning, TaskStatusCompleted, TaskStatusFailed}) \<and>
    (\<forall>i n. GetNode i (m_reg (sys_m s)) = Some n \<longrightarrow>
      in32 (node_MaxTasks n) \<and> node_Status n \<in> {NodeStatusHealthy, NodeStatusUnhealthy}) \<and>
    (\<forall>i res. GetResult i (m_store (sys_m s)) = Some res \<longrightarrow>
      res_Status res \<in> {ResultStatusSuccess, ResultStatusFailure, ResultStatusTimeout, ResultStatusCancelled}) \<and>
    (\<forall>i j res resp. GetJob i (m_store (sys_m s)) = Some j \<and> job_Result j = Some res \<and>
      GetStatus i (sys_m s) = Inr resp \<longrightarrow> gs_ExitCode resp = res_ExitCode res \<and>
        gs_Output resp = res_Output res \<and> gs_Error resp = res_Error res \<and> gs_WorkerId resp = res_WorkerID res)"
proof (intro conjI allI impI)
  note ty = sys_typedD [OF ranges.reach_inva [OF assms]]
  fix r assume "r < sched_next (m_sched (sys_m s))"
  then show "let t = sched_heap (m_sched (sys_m s)) r in task_MaxRetries t = 3 \<and>
      task_Status t \<in> {TaskStatusCreated, TaskStatusPending, TaskStatusRunning, TaskStatusCompleted, TaskStatusFailed}"
    using ty(1) by (simp add: Let_def sched_typed_def task_typed_def)
next
  note ty = sys_typedD [OF ranges.reach_inva [OF assms]]
  fix i n assume "GetNode i (m_reg (sys_m s)) = Some n"
  with ty(3) have n: "node_typed n" by (simp add: GetNode_def reg_typed_def)
  then show "in32 (node_MaxTasks n)" by (simp add: node_typed_def)
  show "node_Status n \<in> {NodeStatusHealthy, NodeStatusUnhealthy}"
    using n by (cases "node_Status n") (simp_all add: node_typed_def)
next
  note ty = sys_typedD [OF ranges.reach_inva [OF assms]]
  fix i res assume "GetResult i (m_store (sys_m s)) = Some res"
  with ty(2) have r: "result_typed res" by (simp add: store_typed_def)
  show "res_Status res \<in> {ResultStatusSuccess, ResultStatusFailure, ResultStatusTimeout, ResultStatusCancelled}"
    using r by (cases "res_Status res") (simp_all add: result_typed_def)
next
  note ty = sys_typedD [OF ranges.reach_inva [OF assms]]
  fix i j res resp
  assume a: "GetJob i (m_store (sys_m s)) = Some j \<and> job_Result j = Some res \<and> GetStatus i (sys_m s) = Inr resp"
  with ty(2) have "job_typed j" by (auto simp: store_typed_def)
  with a have "wrap32 (res_ExitCode res) = res_ExitCode res"
    by (simp add: job_typed_def result_typed_def wrap32_id)
  with a show "gs_ExitCode resp = res_ExitCode res" "gs_Output resp = res_Output res" "gs_Error resp = res_Error res"
    "gs_WorkerId resp = res_WorkerID res"
    by (auto simp: GetStatus_def status_response_def Let_def split: if_splits)
qed

theorem occurring_values_witness:
  "\<exists>n. GetNode ''w1'' (m_reg (snd (Server_Register 0 sample_worker_request sample_idle))) = Some n \<and>
     in32 (node_MaxTasks n) \<and> node_Status n \<in> {NodeStatusHealthy, NodeStatusUnhealthy}"
proof -
  let ?t = "sample_start\<lparr>sys_m := snd (Server_Register 0 sample_worker_request (sys_m sample_start))\<rparr>"
  have "reg_typed (m_reg (sample_master [] True))"
    by (simp add: reg_typed_def sample_master_def sample_node_def zero_node_def node_typed_def in32_def in64_def)
  then have "typed_init sample_start"
    by (auto simp: typed_init_def sys_init_def sample_start_def)
  moreover have "typed_step sample_start (Registering 0 sample_worker_request) ?t"
    by (simp add: typed_step_def step_register sample_worker_request_def in32_def)
  ultimately have "reach typed_init typed_step ?t" by (rule reach_step [OF reach_init])
  note r = occurring_values [OF this, THEN conjunct2, THEN conjunct1]
  have "\<exists>n. GetNode ''w1'' (m_reg (sys_m ?t)) = Some n"
    by (simp add: sample_start_def GetNode_def Server_Register_def sample_worker_request_def Register_def
        register_node_def)
  with r show ?thesis by (auto simp: sample_start_def)
qed

end
