(* ===== verification/JobLifecycle.thy ===== *)
theory JobLifecycle
  imports MasterInvariant
begin

text \<open>
  The life of a job, as the master promises it: an abstract job service with a bounded queue, and the
  proof that the master with all its goroutines refines it. Nothing of workers, connections and
  critical sections is left in the abstract service: a job is waiting, in work, or neither, and its
  result is written once.
\<close>

section \<open>The results of finished tasks\<close>

text \<open>A task that is still to be worked on: it waits, or a goroutine has not yet filed its result.\<close>

fun finished :: "'n pc \<Rightarrow> bool" where
  "finished (DMarkComplete r node res) = True"
| "finished (DDecrement r node) = True"
| "finished _ = False"

definition active :: "(nat \<rightharpoonup> 'n pc) \<Rightarrow> Scheduler \<Rightarrow> task_ref \<Rightarrow> bool" where
  "active go s r \<longleftrightarrow> r \<in> set (pending_refs s) \<or>
     (\<exists>g p. go g = Some p \<and> holds p = Some r \<and> \<not> finished p)"

definition settled :: "(nat \<rightharpoonup> 'n pc) \<Rightarrow> Scheduler \<Rightarrow> Store \<Rightarrow> bool" where
  "settled go s st \<longleftrightarrow>
     (\<forall>r. active go s r \<longrightarrow> GetResult (task_ID (sched_heap s r)) st = None) \<and>
     (\<forall>i. GetResult i st \<noteq> None \<longrightarrow> sched_tasks s i \<noteq> None) \<and>
     (\<forall>g r node res. go g = Some (DSaveResult r node res) \<longrightarrow> res_TaskID res = task_ID (sched_heap s r))"

lemma settledD:
  assumes "settled go s st"
  shows "active go s r \<Longrightarrow> GetResult (task_ID (sched_heap s r)) st = None"
    and "GetResult i st \<noteq> None \<Longrightarrow> sched_tasks s i \<noteq> None"
    and "go g = Some (DSaveResult r node res) \<Longrightarrow> res_TaskID res = task_ID (sched_heap s r)"
  using assms unfolding settled_def by blast+

lemma settledI:
  assumes "\<And>r. active go s r \<Longrightarrow> GetResult (task_ID (sched_heap s r)) st = None"
    and "\<And>i. GetResult i st \<noteq> None \<Longrightarrow> sched_tasks s i \<noteq> None"
    and "\<And>g r node res. go g = Some (DSaveResult r node res) \<Longrightarrow> res_TaskID res = task_ID (sched_heap s r)"
  shows "settled go s st"
  unfolding settled_def using assms by blast

lemma active_holds: "go g = Some p \<Longrightarrow> holds p = Some r \<Longrightarrow> \<not> finished p \<Longrightarrow> active go s r"
  unfolding active_def by blast

lemma active_known:
  assumes "sched_wf s" and "owned go s" and "active go s r"
  shows "known r s"
  using assms(3) unfolding active_def
proof
  assume "r \<in> set (pending_refs s)"
  then show ?thesis by (rule sched_wf_pendingD [OF assms(1)])
next
  assume "\<exists>g p. go g = Some p \<and> holds p = Some r \<and> \<not> finished p"
  then obtain g p where "go g = Some p" "holds p = Some r" by blast
  with ownedD(2) [OF assms(2), of g r] show ?thesis by simp
qed

lemma known_inj: "known q s \<Longrightarrow> known r s \<Longrightarrow> task_ID (sched_heap s q) = task_ID (sched_heap s r) \<Longrightarrow> q = r"
  by (simp add: known_def)

lemma settled_init: "settled Map.empty (NewScheduler n) NewStore"
  by (rule settledI) (simp_all add: active_def NewScheduler_def chan_make_def GetResult_def NewStore_def Let_def)

text \<open>What a step may make active: its own task, if it had it before, or a task just entered.\<close>

lemma active_update:
  assumes "active (go(g := p')) s' r"
  shows "r \<in> set (pending_refs s') \<or> (\<exists>h p. h \<noteq> g \<and> go h = Some p \<and> holds p = Some r \<and> \<not> finished p) \<or>
    (\<exists>p. p' = Some p \<and> holds p = Some r \<and> \<not> finished p)"
  using assms unfolding active_def by (metis fun_upd_apply)

lemma finished_next: "finished p \<Longrightarrow> go_step env p m = (p', m') \<Longrightarrow> p' = None \<or> (\<exists>q. p' = Some q \<and> finished q)"
  by (cases p) auto

lemma go_step_results:
  "go_step env p m = (p', m') \<Longrightarrow> GetResult i (m_store m') =
     (case p of DSaveResult r node res \<Rightarrow> if i = res_TaskID res then Some res else GetResult i (m_store m)
      | _ \<Rightarrow> GetResult i (m_store m))"
  by (cases p)
     (auto simp: do_sections do_save_job_def do_new_task_def do_cancel_def Let_def
       split: prod.splits sum.splits option.splits if_splits)

lemma go_step_to_save:
  assumes "go_step env p m = (Some (DSaveResult r node res), m')"
  shows "res_TaskID res = task_ID (sched_heap (m_sched m) r) \<and> m' = m"
  using assms
  by (cases p) (auto simp: Let_def do_new_task_def split: prod.splits sum.splits option.splits if_splits)

text \<open>No active task but its own has the ID of a result that is about to be saved.\<close>

lemma saved_other:
  assumes own: "owned go s" and g: "go g = Some (DSaveResult r' node res)"
    and id: "res_TaskID res = task_ID (sched_heap s r')"
    and act: "active (go(g := Some q)) s r" and fin: "finished q" and known: "known r s"
  shows "task_ID (sched_heap s r) \<noteq> res_TaskID res"
proof -
  have hold: "holds_opt (go g) = Some r'" using g by simp
  have "r \<noteq> r'"
  proof
    assume r: "r = r'"
    have "r' \<notin> set (pending_refs s)" by (rule ownedD(3) [OF own hold])
    moreover have "h = g" if "go h = Some k" "holds k = Some r'" for h k
      using ownedD(4) [OF own _ hold, of h] that by simp
    ultimately show False using active_update [OF act] r fin by auto
  qed
  then show ?thesis using id known known_inj [OF known ownedD(2) [OF own hold]] by auto
qed

lemma settled_quiet:
  assumes wf: "sched_wf (m_sched m)" and own: "owned go (m_sched m)" and g: "go g = Some p"
    and set: "settled go (m_sched m) (m_store m)" and quiet: "\<not> moves p" and step: "go_step env p m = (p', m')"
  shows "settled (go(g := p')) (m_sched m') (m_store m')"
proof (rule settledI)
  note q = go_step_quiet [OF quiet step]
  then have qs: "quiet (m_sched m) (m_sched m')" by blast
  note same = quietD [OF qs]
  { fix r assume act: "active (go(g := p')) (m_sched m') r"
    have was: "active go (m_sched m) r"
      using active_update [OF act] active_holds [of go g p r, OF g] q finished_next [OF _ step]
      unfolding same active_def by (metis holds_opt_simps option.discI option.inject)
    note known = active_known [OF wf own was]
    have "task_ID (sched_heap (m_sched m) r) \<noteq> res_TaskID res" if p: "p = DSaveResult r' node res" for r' node res
    proof -
      have "active (go(g := Some (DMarkComplete r' node res))) (m_sched m) r"
        using act step p by (auto simp: active_def same)
      from saved_other [OF own _ _ this _ known] g settledD(3) [OF set] p show ?thesis by simp
    qed
    with settledD(1) [OF set was] show "GetResult (task_ID (sched_heap (m_sched m') r)) (m_store m') = None"
      by (auto simp: go_step_results [OF step] same split: pc.split) }
  { fix i assume "GetResult i (m_store m') \<noteq> None"
    then consider "GetResult i (m_store m) \<noteq> None"
      | r node res where "p = DSaveResult r node res" "i = res_TaskID res"
      by (auto simp: go_step_results [OF step] split: pc.splits if_splits)
    then show "sched_tasks (m_sched m') i \<noteq> None"
    proof cases
      case 1
      then show ?thesis using settledD(2) [OF set] by (simp add: same)
    next
      case (2 r node res)
      have "known r (m_sched m)" by (rule ownedD(2) [OF own, of g]) (simp add: g 2)
      with 2 settledD(3) [OF set, of g r node res] g show ?thesis by (simp add: same known_def)
    qed }
  fix h r node res assume h: "(go(g := p')) h = Some (DSaveResult r node res)"
  then show "res_TaskID res = task_ID (sched_heap (m_sched m') r)"
    using step go_step_to_save [of env p m r node res m'] settledD(3) [OF set, of h r node res]
    by (auto simp: quietD(6) [OF qs] split: if_splits)
qed

text \<open>The steps that move a task: each is a change of the queue, the table or the heap alone.\<close>

lemma settled_move:
  assumes set: "settled go s st" and wf: "sched_wf s" and own: "owned go s"
    and was_active: "\<And>r. active go' s' r \<Longrightarrow> active go s r \<or> GetResult (task_ID (sched_heap s' r)) st = None"
    and ids: "\<And>r. known r s \<Longrightarrow> task_ID (sched_heap s' r) = task_ID (sched_heap s r)"
    and tab: "\<And>i. sched_tasks s i \<noteq> None \<Longrightarrow> sched_tasks s' i \<noteq> None \<or> GetResult i st = None"
    and save: "\<And>h r node res. go' h = Some (DSaveResult r node res) \<Longrightarrow> go h = Some (DSaveResult r node res)"
  shows "settled go' s' st"
proof (rule settledI)
  fix r assume "active go' s' r"
  then show "GetResult (task_ID (sched_heap s' r)) st = None"
    using was_active [of r] settledD(1) [OF set, of r] ids [of r] active_known [OF wf own, of r] by auto
next
  fix i assume "GetResult i st \<noteq> None"
  then show "sched_tasks s' i \<noteq> None" using settledD(2) [OF set, of i] tab [of i] by auto
next
  fix h r node res assume "go' h = Some (DSaveResult r node res)"
  then have h: "go h = Some (DSaveResult r node res)" by (rule save)
  then have "known r s" by (intro ownedD(2) [OF own, of h]) simp
  with settledD(3) [OF set h] ids show "res_TaskID res = task_ID (sched_heap s' r)" by simp
qed

lemma active_other:
  assumes "active (go(g := p')) s' r" and "pending_refs s' = pending_refs s"
    and "\<And>p. p' = Some p \<Longrightarrow> holds p = Some r \<Longrightarrow> \<not> finished p \<Longrightarrow> active go s r"
  shows "active go s r"
  using active_update [OF assms(1)] assms(2,3) unfolding active_def by metis

lemma settled_sent:
  assumes set: "settled go s st" and wf: "sched_wf s" and own: "owned go s"
    and act: "active go s r" and send: "sched_send r s = Some t"
  shows "settled (go(g := None)) t st"
proof (rule settled_move [OF set wf own])
  fix q assume "active (go(g := None)) t q"
  from active_update [OF this] send act show "active go s q \<or> GetResult (task_ID (sched_heap t q)) st = None"
    by (auto simp: sched_send_simps active_def split: if_splits)
qed (use send in \<open>auto simp: sched_send_simps split: if_splits\<close>)

lemma settled_insert:
  assumes set: "settled go s st" and wf: "sched_wf s" and own: "owned go s"
    and ins: "enqueue_insert r s = (None, t)"
  shows "settled (go(g := Some (SSend r))) t st"
proof -
  note i = enqueue_insert_new [OF ins]
  have "sched_tasks s (task_ID (sched_heap s r)) = None"
    using ins by (auto simp: enqueue_insert_def Let_def split: if_splits)
  then have fresh: "GetResult (task_ID (sched_heap t r)) st = None"
    using settledD(2) [OF set, of "task_ID (sched_heap s r)"] i(6) by metis
  show ?thesis
  proof (rule settled_move [OF set wf own])
    fix q assume q: "active (go(g := Some (SSend r))) t q"
    show "active go s q \<or> GetResult (task_ID (sched_heap t q)) st = None"
      using active_update [OF q] fresh i(1) unfolding active_def by auto
  qed (use i in \<open>auto split: if_splits\<close>)
qed

lemma settled_moves:
  assumes wf: "sched_wf (m_sched m)" and own: "owned go (m_sched m)" and g: "go g = Some p"
    and set: "settled go (m_sched m) (m_store m)" and moves: "moves p" and step: "go_step env p m = (p', m')"
  shows "settled (go(g := p')) (m_sched m') (m_store m')"
proof -
  have act: "active go (m_sched m) r" if "holds p = Some r" "\<not> finished p" for r
    using g that unfolding active_def by blast
  have none: "settled (go(g := None)) (m_sched m) (m_store m)"
    by (rule settled_move [OF set wf own]) (auto intro: active_other split: if_splits)
  show ?thesis
  proof (cases p)
    case (DResend r)
    with step none settled_sent [OF set wf own act, of r] show ?thesis by (auto split: option.splits)
  next
    case (SNewTask i now' req)
    have "settled (go(g := Some (SInsert (sched_next (m_sched m))))) (with_task (submit_task i now' req) (m_sched m)) (m_store m)"
      by (rule settled_move [OF set wf own])
         (use known_allocated [OF wf] in \<open>auto intro: active_other split: if_splits\<close>)
    with SNewTask step show ?thesis by (auto simp: do_new_task_def task_alloc_def)
  next
    case (SInsert r)
    with step none settled_insert [OF set wf own, of r] enqueue_insert_old [of r "m_sched m"]
    show ?thesis by (auto split: prod.splits option.splits)
  next
    case (SSend r)
    have "settled (go(g := Some (SUndo r))) (m_sched m) (m_store m)"
      by (rule settled_move [OF set wf own])
         (use act [of r] SSend in \<open>auto intro: active_other split: if_splits\<close>)
    with SSend step settled_sent [OF set wf own act, of r] show ?thesis by (auto split: option.splits)
  next
    case (SUndo r)
    have "GetResult (task_ID (sched_heap (m_sched m) r)) (m_store m) = None"
      using settledD(1) [OF set act] SUndo by simp
    then have "settled (go(g := None)) (enqueue_undo r (m_sched m)) (m_store m)"
      by (intro settled_move [OF set wf own])
         (auto simp: enqueue_undo_def intro: active_other split: if_splits)
    with SUndo step show ?thesis by auto
  qed (use moves in simp_all)
qed

lemma settled_go:
  assumes inv: "sys_inv s" and set: "settled (sys_go s) (m_sched (sys_m s)) (m_store (sys_m s))"
    and g: "sys_go s g = Some p" and step: "go_step env p (sys_m s) = (p', m')"
  shows "settled ((sys_go s)(g := p')) (m_sched m') (m_store m')"
  using settled_quiet [OF sys_invD(1,2) [OF inv] g set _ step] settled_moves [OF sys_invD(1,2) [OF inv] g set _ step]
  by blast


lemma settled_spawn:
  assumes "settled (sys_go s) sch st" and "holds p = None" and "sys_go s g = None"
  shows "settled ((sys_go s)(g \<mapsto> p)) sch st"
proof -
  have "active (sys_go s) sch r" if "active ((sys_go s)(g \<mapsto> p)) sch r" for r
    by (rule active_other [OF that refl]) (use assms(2) in auto)
  with settledD [OF assms(1)] assms(2) show ?thesis
    by (intro settledI) (blast, blast, auto split: if_splits)
qed

lemma settled_loop:
  assumes set: "settled go s st" and deq: "Dequeue done pick s = Dequeued r s'" and g: "go g = None"
  shows "settled (go(g \<mapsto> DEnsure r)) s' st"
proof -
  from deq obtain xs where xs: "pending_refs s = r # xs" and s': "s' = s\<lparr>sched_pending := Chan xs (queue_cap s)\<rparr>"
    by (auto simp: Dequeue_def sched_recv_simps split: option.splits prod.splits if_splits)
  have act: "active go s q" if "active (go(g \<mapsto> DEnsure r)) s' q" for q
    using active_update [OF that] unfolding active_def xs s' by auto
  have tab: "sched_tasks s' = sched_tasks s" "sched_heap s' = sched_heap s" by (simp_all add: s')
  show ?thesis
  proof (rule settledI)
    fix q assume "active (go(g \<mapsto> DEnsure r)) s' q"
    from settledD(1) [OF set act [OF this]]
    show "GetResult (task_ID (sched_heap s' q)) st = None" by (simp only: tab)
  next
    fix i assume "GetResult i st \<noteq> None"
    from settledD(2) [OF set this] show "sched_tasks s' i \<noteq> None" unfolding tab .
  next
    fix h q node res assume "(go(g \<mapsto> DEnsure r)) h = Some (DSaveResult q node res)"
    then have "go h = Some (DSaveResult q node res)" by (auto split: if_splits)
    from settledD(3) [OF set this] show "res_TaskID res = task_ID (sched_heap s' q)" by (simp only: tab)
  qed
qed

lemma settled_step:
  assumes inv: "sys_inv s" and set: "settled (sys_go s) (m_sched (sys_m s)) (m_store (sys_m s))"
    and step: "sys_step s l t"
  shows "settled (sys_go t) (m_sched (sys_m t)) (m_store (sys_m t))"
  using step
proof cases
  case (step_go g p env p' m')
  with settled_go [OF inv set] show ?thesis by simp
next
  case (step_loop dn pick r sch g)
  with settled_loop [OF set step_loop(3)] show ?thesis by simp
qed (use set in \<open>simp_all add: background_frame settled_spawn\<close>)

text \<open>The invariant of a master whose results are settled.\<close>

definition sys_live :: "('b, 'c, 'x, 'n) Sys \<Rightarrow> bool" where
  "sys_live s \<longleftrightarrow> sys_inv s \<and> settled (sys_go s) (m_sched (sys_m s)) (m_store (sys_m s))"

lemma sys_liveD: "sys_live s \<Longrightarrow> sys_inv s" "sys_live s \<Longrightarrow> settled (sys_go s) (m_sched (sys_m s)) (m_store (sys_m s))"
  by (simp_all add: sys_live_def)

interpretation lived: invariant_system sys_init sys_step sys_live
proof unfold_locales
  fix s :: "('a, 'b, 'c, 'd) Sys" assume i: "sys_init s"
  then show "sys_live s"
    by (auto simp: sys_live_def sys_inv_init sys_init_def settled_init)
qed (auto simp: sys_live_def sys_inv_step settled_step)

lemma result_stays:
  assumes live: "sys_live s" and step: "sys_step s l t" and res: "GetResult i (m_store (sys_m s)) = Some res"
  shows "GetResult i (m_store (sys_m t)) = Some res"
  using step
proof cases
  case (step_go g p env p' m')
  have "GetResult i (m_store m') = Some res"
  proof (cases "\<exists>r node q. p = DSaveResult r node q")
    case True
    then obtain r node q where p: "p = DSaveResult r node q" by blast
    note set = sys_liveD(2) [OF live]
    have "active (sys_go s) (m_sched (sys_m s)) r"
      by (rule active_holds [of _ g p]) (simp_all add: step_go p)
    from settledD(1) [OF set this] settledD(3) [OF set, of g r node q] res step_go(3) p
    have "res_TaskID q \<noteq> i" by auto
    with res step_go(4) show ?thesis by (auto simp: p go_step_results [OF step_go(4)])
  next
    case False
    with res show ?thesis by (simp add: go_step_results [OF step_go(4)] split: pc.split)
  qed
  with step_go show ?thesis by simp
qed (use res in \<open>simp_all add: background_frame\<close>)


text \<open>Claim C4: A result is written at most once. Once a job has a result, no step of the master
  changes it, and from then on no goroutine is about to send the job to a worker: whatever the
  interleaving, retries included, a job that has its result is never executed again.\<close>

theorem result_written_once:
  assumes "reach sys_init sys_step s" and "GetResult i (m_store (sys_m s)) = Some res"
    and "sys_step s l t"
  shows "GetResult i (m_store (sys_m t)) = Some res \<and>
    (\<forall>g r node client. sys_go t g = Some (DExecute r node client) \<longrightarrow> task_ID (sched_heap (m_sched (sys_m t)) r) \<noteq> i) \<and>
    i \<notin> (\<lambda>r. task_ID (sched_heap (m_sched (sys_m t)) r)) ` set (pending_refs (m_sched (sys_m t)))"
proof -
  have keep: "GetResult i (m_store (sys_m t)) = Some res"
    by (rule result_stays [OF lived.reach_inva [OF assms(1)] assms(3,2)])
  note set = sys_liveD(2) [OF lived.reach_inva [OF reach_step [OF assms(1,3)]]]
  have no: "task_ID (sched_heap (m_sched (sys_m t)) r) \<noteq> i" if "active (sys_go t) (m_sched (sys_m t)) r" for r
    using settledD(1) [OF set that] keep by auto
  have "active (sys_go t) (m_sched (sys_m t)) r" if "sys_go t g = Some (DExecute r node client)" for g r node client
    by (rule active_holds [of _ g "DExecute r node client"]) (simp_all add: that)
  moreover have "active (sys_go t) (m_sched (sys_m t)) r" if "r \<in> set (pending_refs (m_sched (sys_m t)))" for r
    using that by (simp add: active_def)
  ultimately show ?thesis using keep no by blast
qed

theorem result_written_once_witness:
  "\<exists>res. GetResult ''j1'' (m_store (do_cancel ''j1'' sample_completed)) = Some res \<and> IsSuccess res \<and>
     GetResult ''j1'' (m_store (snd (Server_Deregister ''w1'' (do_cancel ''j1'' sample_completed)))) = Some res"
proof -
  obtain res where res: "GetResult ''j1'' (m_store (do_cancel ''j1'' sample_completed)) = Some res" "IsSuccess res"
    using sample_completed_store by (auto simp: do_cancel_def)
  let ?s = "\<lparr>sys_m = do_cancel ''j1'' sample_completed, sys_go = Map.empty :: nat \<rightharpoonup> string pc\<rparr>"
  have "sys_step ?s (Deregistering ''w1'') (?s\<lparr>sys_m := snd (Server_Deregister ''w1'' (sys_m ?s))\<rparr>)"
    by (rule step_deregister)
  from result_written_once [OF reach_cancelled_late _ this, of "''j1''" res] res show ?thesis by auto
qed

section \<open>The abstract job service\<close>

text \<open>
  What the master is for, without workers, connections and critical sections: every job has a status
  and at most one result; accepted jobs wait in a bounded queue in order, or are being worked on.
\<close>

record JobService =
  jb_status :: "string \<Rightarrow> TaskStatus option"
  jb_result :: "string \<Rightarrow> Result option"
  jb_queue :: "string list"
  jb_busy :: "string set"
  jb_bound :: int

definition spec_init :: "JobService \<Rightarrow> bool" where
  "spec_init a \<longleftrightarrow> jb_status a = Map.empty \<and> jb_result a = Map.empty \<and> jb_queue a = [] \<and>
     jb_busy a = {} \<and> 0 < jb_bound a"

datatype spec_event = Filed string | Admitted string | Queued string | Taken string
  | Answered string Result | Failing string | Abandoned string | Withdrawn string

inductive spec_step :: "JobService \<Rightarrow> spec_event \<Rightarrow> JobService \<Rightarrow> bool" where
  spec_filed: "spec_step a (Filed i) (a\<lparr>jb_status := (jb_status a)(i \<mapsto> TaskStatusPending)\<rparr>)"
| spec_admitted: "jb_status a i \<noteq> None \<Longrightarrow> jb_result a i = None \<Longrightarrow> i \<notin> set (jb_queue a) \<union> jb_busy a \<Longrightarrow>
    spec_step a (Admitted i) (a\<lparr>jb_busy := insert i (jb_busy a)\<rparr>)"
| spec_queued: "i \<in> jb_busy a \<Longrightarrow> int (length (jb_queue a)) < jb_bound a \<Longrightarrow>
    spec_step a (Queued i) (a\<lparr>jb_queue := jb_queue a @ [i], jb_busy := jb_busy a - {i}\<rparr>)"
| spec_taken: "jb_queue a = i # q \<Longrightarrow>
    spec_step a (Taken i) (a\<lparr>jb_queue := q, jb_busy := insert i (jb_busy a)\<rparr>)"
| spec_answered: "i \<in> jb_busy a \<Longrightarrow> jb_result a i = None \<Longrightarrow> res_TaskID res = i \<Longrightarrow>
    spec_step a (Answered i res) (a\<lparr>jb_result := (jb_result a)(i \<mapsto> res),
      jb_status := (jb_status a)(i \<mapsto> result_job_status res), jb_busy := jb_busy a - {i}\<rparr>)"
| spec_failing: "i \<in> jb_busy a \<Longrightarrow>
    spec_step a (Failing i) (a\<lparr>jb_status := (jb_status a)(i \<mapsto> TaskStatusFailed)\<rparr>)"
| spec_abandoned: "i \<in> jb_busy a \<Longrightarrow> spec_step a (Abandoned i) (a\<lparr>jb_busy := jb_busy a - {i}\<rparr>)"
| spec_withdrawn: "jb_status a i \<noteq> None \<Longrightarrow>
    spec_step a (Withdrawn i) (a\<lparr>jb_status := (jb_status a)(i \<mapsto> TaskStatusCancelled)\<rparr>)"

text \<open>The job service keeps its own books.\<close>

definition spec_inv :: "JobService \<Rightarrow> bool" where
  "spec_inv a \<longleftrightarrow> distinct (jb_queue a) \<and> set (jb_queue a) \<inter> jb_busy a = {} \<and>
     int (length (jb_queue a)) \<le> jb_bound a \<and>
     (\<forall>i \<in> set (jb_queue a) \<union> jb_busy a. jb_status a i \<noteq> None \<and> jb_result a i = None) \<and>
     (\<forall>i. jb_result a i \<noteq> None \<longrightarrow> jb_status a i \<noteq> None) \<and> (\<forall>i st. jb_status a i = Some st \<longrightarrow> reported st)"

lemma spec_inv_step: "spec_step a e b \<Longrightarrow> spec_inv a \<Longrightarrow> spec_inv b"
  by (induction rule: spec_step.induct) (auto simp: spec_inv_def)

interpretation service: invariant_system spec_init spec_step spec_inv
  by unfold_locales (auto simp: spec_inv_step, auto simp: spec_init_def spec_inv_def)


section \<open>The master refines the job service\<close>

fun working :: "'n pc option \<Rightarrow> task_ref set" where
  "working None = {}"
| "working (Some p) = (if finished p then {} else set_option (holds p))"

definition at_work :: "(nat \<rightharpoonup> 'n pc) \<Rightarrow> task_ref set" where
  "at_work go = (\<Union>g. working (go g))"

abbreviation ID_of :: "Scheduler \<Rightarrow> task_ref \<Rightarrow> string" where
  "ID_of s r \<equiv> task_ID (sched_heap s r)"

definition job_service :: "('b, 'c, 'x, 'n) Sys \<Rightarrow> JobService" where
  "job_service s = (let sch = m_sched (sys_m s); st = m_store (sys_m s) in
     \<lparr>jb_status = (\<lambda>i. map_option job_Status (GetJob i st)), jb_result = (\<lambda>i. GetResult i st),
      jb_queue = map (ID_of sch) (pending_refs sch), jb_busy = ID_of sch ` at_work (sys_go s),
      jb_bound = sched_maxQueue sch\<rparr>)"

lemma job_service_fields [simp]:
  "jb_status (job_service s) i = map_option job_Status (GetJob i (m_store (sys_m s)))"
  "jb_result (job_service s) i = GetResult i (m_store (sys_m s))"
  "jb_queue (job_service s) = map (ID_of (m_sched (sys_m s))) (pending_refs (m_sched (sys_m s)))"
  "jb_busy (job_service s) = ID_of (m_sched (sys_m s)) ` at_work (sys_go s)"
  "jb_bound (job_service s) = sched_maxQueue (m_sched (sys_m s))"
  by (simp_all add: job_service_def Let_def)

lemma job_service_eqI:
  "(\<And>i. jb_status a i = jb_status b i) \<Longrightarrow> (\<And>i. jb_result a i = jb_result b i) \<Longrightarrow>
   jb_queue a = jb_queue b \<Longrightarrow> jb_busy a = jb_busy b \<Longrightarrow> jb_bound a = jb_bound b \<Longrightarrow> a = (b :: JobService)"
  by (cases a; cases b) (simp add: fun_eq_iff)

lemma at_work_iff: "r \<in> at_work go \<longleftrightarrow> (\<exists>g. r \<in> working (go g))"
  by (simp add: at_work_def)

lemma working_iff: "r \<in> working q \<longleftrightarrow> (\<exists>p. q = Some p \<and> holds p = Some r \<and> \<not> finished p)"
  by (cases q) (auto simp: elem_set)

lemma active_at_work: "active go s r \<longleftrightarrow> r \<in> set (pending_refs s) \<or> r \<in> at_work go"
  by (auto simp: active_def at_work_iff working_iff)

lemma working_held: "r \<in> working q \<Longrightarrow> holds_opt q = Some r"
  by (auto simp: working_iff)

lemma at_work_held: "owned go s \<Longrightarrow> r \<in> at_work go \<Longrightarrow> known r s \<and> r \<notin> set (pending_refs s)"
  using ownedD(2,3) [of go s _ r] working_held unfolding at_work_iff by blast

lemma at_work_upd:
  assumes "owned go s"
  shows "at_work (go(g := p')) = at_work go - working (go g) \<union> working p'"
proof -
  have "h = g" if "r \<in> working (go h)" "r \<in> working (go g)" for h r
    by (rule ownedD(4) [OF assms working_held [OF that(1)] working_held [OF that(2)]])
  then show ?thesis
    by (auto simp: at_work_iff split: if_splits) (metis fun_upd_apply)+
qed

lemma ID_inj_work:
  assumes "owned go s"
  shows "inj_on (ID_of s) (at_work go)"
  by (rule inj_onI) (use at_work_held [OF assms] known_inj [of _ s] in blast)

lemma busy_drop:
  assumes own: "owned go s" and r: "working (go g) = {r}" and p': "working p' = {}"
  shows "ID_of s ` at_work (go(g := p')) = ID_of s ` at_work go - {ID_of s r}"
proof -
  have "r \<in> at_work go" using r unfolding at_work_iff by blast
  then have "ID_of s ` (at_work go - {r}) = ID_of s ` at_work go - ID_of s ` {r}"
    by (intro inj_on_image_set_diff [OF ID_inj_work [OF own]]) simp_all
  then show ?thesis by (simp add: at_work_upd [OF own] r p')
qed


text \<open>A step that keeps the store, the queue, the IDs and its task is invisible.\<close>

lemma quiet_maxQueue: "quiet s s' \<Longrightarrow> sched_maxQueue s' = sched_maxQueue s"
  by (auto simp: quiet_def)

lemma invisible:
  assumes own: "owned (sys_go s) (m_sched (sys_m s))" and qs: "quiet (m_sched (sys_m s)) (m_sched m')"
    and st: "m_store m' = m_store (sys_m s)" and w: "working p' = working (sys_go s g)"
  shows "job_service (s\<lparr>sys_m := m', sys_go := (sys_go s)(g := p')\<rparr>) = job_service s"
proof -
  have "working (sys_go s g) \<subseteq> at_work (sys_go s)" by (auto simp: at_work_iff)
  then have "at_work ((sys_go s)(g := p')) = at_work (sys_go s)" by (auto simp: at_work_upd [OF own] w)
  then show ?thesis
    by (intro job_service_eqI) (simp_all add: st quietD [OF qs] quiet_maxQueue [OF qs])
qed

lemma go_step_invisible:
  assumes "go_step env p m = (p', m')" and "\<not> moves p"
    and "\<And>r node res. p \<noteq> DSaveResult r node res" and "\<And>r. p \<noteq> DStoreFailed r" and "\<And>r. p \<noteq> DCanRetry r"
    and "\<And>i now now' req. p \<noteq> SSaveJob i now now' req" and "\<And>i. p \<noteq> CWrite i"
  shows "m_store m' = m_store m \<and> working p' = working (Some p)"
  using assms
  by (cases p) (auto simp: do_sections Let_def split: prod.splits sum.splits option.splits if_splits)

lemma spec_stepI: "spec_step a e b \<Longrightarrow> c = b \<Longrightarrow> spec_step a e c"
  by simp

lemma work_ID:
  assumes inv: "sys_inv s" and r: "working (sys_go s g) = {r}"
  shows "ID_of (m_sched (sys_m s)) r \<in> jb_busy (job_service s)" and "r \<in> at_work (sys_go s)"
    and "known r (m_sched (sys_m s))" and "GetJob (ID_of (m_sched (sys_m s)) r) (m_store (sys_m s)) \<noteq> None"
proof -
  show w: "r \<in> at_work (sys_go s)" using r unfolding at_work_iff by blast
  then show "ID_of (m_sched (sys_m s)) r \<in> jb_busy (job_service s)" by simp
  show k: "known r (m_sched (sys_m s))" using at_work_held [OF sys_invD(2) [OF inv] w] by blast
  with sys_invD(4) [OF inv] show "GetJob (ID_of (m_sched (sys_m s)) r) (m_store (sys_m s)) \<noteq> None"
    by (auto simp: known_def tasks_have_jobs_def)
qed

lemma job_status_ops [simp]:
  "map_option job_Status (GetJob i (SaveJob j st)) =
     (if i = job_ID j then Some (job_Status j) else map_option job_Status (GetJob i st))"
  "map_option job_Status (GetJob i (UpdateJobStatus k a st)) =
     (if i = k then map_option (\<lambda>_. a) (GetJob i st) else map_option job_Status (GetJob i st))"
  "map_option job_Status (GetJob i (SaveResult res st)) =
     (if i = res_TaskID res then map_option (\<lambda>_. result_job_status res) (GetJob i st)
      else map_option job_Status (GetJob i st))"
  by (auto simp: store.get_simps option.map_comp comp_def)

text \<open>The goroutines that write the store.\<close>

lemma sim_save_result:
  assumes live: "sys_live s" and g: "sys_go s g = Some (DSaveResult r node res)"
  shows "spec_step (job_service s) (Answered (ID_of (m_sched (sys_m s)) r) res)
    (job_service (s\<lparr>sys_m := do_save_result res (sys_m s), sys_go := (sys_go s)(g \<mapsto> DMarkComplete r node res)\<rparr>))"
proof -
  note inv = sys_liveD(1) [OF live] and set = sys_liveD(2) [OF live]
  have w: "working (sys_go s g) = {r}" by (simp add: g)
  note id = settledD(3) [OF set g] and work = work_ID [OF inv w]
  have none: "GetResult (ID_of (m_sched (sys_m s)) r) (m_store (sys_m s)) = None"
    by (rule settledD(1) [OF set]) (simp add: active_at_work work)
  show ?thesis
    by (rule spec_stepI [OF spec_answered [OF work(1)]], simp add: none, simp add: id, rule job_service_eqI)
       (use work(4) busy_drop [OF sys_invD(2) [OF inv] w, of "Some (DMarkComplete r node res)"] in
         \<open>simp_all add: do_save_result_def id\<close>)
qed

lemma sim_store_failed:
  assumes inv: "sys_inv s" and g: "sys_go s g = Some (DStoreFailed r)"
  shows "spec_step (job_service s) (Failing (ID_of (m_sched (sys_m s)) r))
    (job_service (s\<lparr>sys_m := do_store_failed r (sys_m s), sys_go := (sys_go s)(g \<mapsto> DCanRetry r)\<rparr>))"
proof -
  have w: "working (sys_go s g) = {r}" by (simp add: g)
  note work = work_ID [OF inv w]
  have "at_work ((sys_go s)(g \<mapsto> DCanRetry r)) = at_work (sys_go s)"
    using work(2) by (auto simp: at_work_upd [OF sys_invD(2) [OF inv]] w)
  then show ?thesis
    using work(4)
    by (intro spec_stepI [OF spec_failing [OF work(1)]] job_service_eqI) (simp_all add: do_store_failed_def)
qed

lemma sim_drop:
  assumes inv: "sys_inv s" and w: "working (sys_go s g) = {r}" and qs: "quiet (m_sched (sys_m s)) (m_sched m')"
    and st: "m_store m' = m_store (sys_m s)"
  shows "spec_step (job_service s) (Abandoned (ID_of (m_sched (sys_m s)) r))
    (job_service (s\<lparr>sys_m := m', sys_go := (sys_go s)(g := None)\<rparr>))"
  using busy_drop [OF sys_invD(2) [OF inv] w, of None]
  by (intro spec_stepI [OF spec_abandoned [OF work_ID(1) [OF inv w]]] job_service_eqI)
     (simp_all add: st quietD [OF qs] quiet_maxQueue [OF qs])


text \<open>The goroutines that move a task.\<close>

lemma sim_send:
  assumes inv: "sys_inv s" and w: "working (sys_go s g) = {r}"
    and send: "sched_send r (m_sched (sys_m s)) = Some sch"
  shows "spec_step (job_service s) (Queued (ID_of (m_sched (sys_m s)) r))
    (job_service (s\<lparr>sys_m := (sys_m s)\<lparr>m_sched := sch\<rparr>, sys_go := (sys_go s)(g := None)\<rparr>))"
proof -
  have bound: "int (length (jb_queue (job_service s))) < jb_bound (job_service s)"
    using send sched_wf_boundD [OF sys_invD(1) [OF inv]] by (auto simp: sched_send_simps)
  have sch: "pending_refs sch = pending_refs (m_sched (sys_m s)) @ [r]"
    "sched_heap sch = sched_heap (m_sched (sys_m s))" "sched_maxQueue sch = sched_maxQueue (m_sched (sys_m s))"
    using send by (auto simp: sched_send_simps)
  show ?thesis
    using busy_drop [OF sys_invD(2) [OF inv] w, of None]
    by (intro spec_stepI [OF spec_queued [OF work_ID(1) [OF inv w] bound]] job_service_eqI) (simp_all add: sch)
qed

lemma sim_undo:
  assumes inv: "sys_inv s" and g: "sys_go s g = Some (SUndo r)"
  shows "spec_step (job_service s) (Abandoned (ID_of (m_sched (sys_m s)) r))
    (job_service (s\<lparr>sys_m := (sys_m s)\<lparr>m_sched := enqueue_undo r (m_sched (sys_m s))\<rparr>,
       sys_go := (sys_go s)(g := None)\<rparr>))"
proof -
  have w: "working (sys_go s g) = {r}" by (simp add: g)
  show ?thesis
    using busy_drop [OF sys_invD(2) [OF inv] w, of None]
    by (intro spec_stepI [OF spec_abandoned [OF work_ID(1) [OF inv w]]] job_service_eqI)
       (simp_all add: enqueue_undo_def)
qed

lemma sim_insert:
  assumes live: "sys_live s" and g: "sys_go s g = Some (SInsert r)"
    and ins: "enqueue_insert r (m_sched (sys_m s)) = (None, sch)"
  shows "spec_step (job_service s) (Admitted (ID_of (m_sched (sys_m s)) r))
    (job_service (s\<lparr>sys_m := (sys_m s)\<lparr>m_sched := sch\<rparr>, sys_go := (sys_go s)(g \<mapsto> SSend r)\<rparr>))"
proof -
  note inv = sys_liveD(1) [OF live] and own = sys_invD(2) [OF sys_liveD(1) [OF live]]
  let ?i = "ID_of (m_sched (sys_m s)) r"
  have new: "sched_tasks (m_sched (sys_m s)) ?i = None" and max: "sched_maxQueue sch = sched_maxQueue (m_sched (sys_m s))"
    using ins by (auto simp: enqueue_insert_def Let_def split: if_splits)
  have job: "jb_status (job_service s) ?i \<noteq> None"
    using sys_invD(3) [OF inv g] by auto
  have res: "jb_result (job_service s) ?i = None"
    using settledD(2) [OF sys_liveD(2) [OF live], of ?i] new by (metis job_service_fields(2))
  have "known q (m_sched (sys_m s))" if "q \<in> set (pending_refs (m_sched (sys_m s))) \<union> at_work (sys_go s)" for q
    using that at_work_held [OF own] sched_wf_pendingD [OF sys_invD(1) [OF inv]] by blast
  then have idle: "?i \<notin> set (jb_queue (job_service s)) \<union> jb_busy (job_service s)"
    using new by (auto simp: known_def)
  have work: "at_work ((sys_go s)(g \<mapsto> SSend r)) = insert r (at_work (sys_go s))"
    by (auto simp: at_work_upd [OF own] g)
  show ?thesis
    by (intro spec_stepI [OF spec_admitted [OF job res idle]] job_service_eqI)
       (simp_all add: work max enqueue_insert_new(1,6) [OF ins])
qed

lemma job_service_new_task:
  assumes inv: "sys_inv s" and g: "working (sys_go s g) = {}"
  shows "job_service (s\<lparr>sys_m := (sys_m s)\<lparr>m_sched := with_task t (m_sched (sys_m s))\<rparr>,
       sys_go := (sys_go s)(g \<mapsto> SInsert r)\<rparr>) = job_service s"
proof -
  note wf = sys_invD(1) [OF inv] and own = sys_invD(2) [OF inv]
  have old: "q \<noteq> sched_next (m_sched (sys_m s))"
    if "q \<in> set (pending_refs (m_sched (sys_m s))) \<union> at_work (sys_go s)" for q
    using that at_work_held [OF own] sched_wf_pendingD [OF wf] known_allocated [OF wf] by blast
  have work: "at_work ((sys_go s)(g \<mapsto> SInsert r)) = at_work (sys_go s)"
    by (simp add: at_work_upd [OF own] g)
  have "ID_of (with_task t (m_sched (sys_m s))) ` at_work (sys_go s) = ID_of (m_sched (sys_m s)) ` at_work (sys_go s)"
    by (rule image_cong) (use old in auto)
  moreover have "map (ID_of (with_task t (m_sched (sys_m s)))) (pending_refs (m_sched (sys_m s))) =
      map (ID_of (m_sched (sys_m s))) (pending_refs (m_sched (sys_m s)))"
    using old by auto
  ultimately show ?thesis
    by (intro job_service_eqI) (simp_all add: work)
qed

lemma sim_loop:
  assumes inv: "sys_inv s" and deq: "Dequeue dn pick (m_sched (sys_m s)) = Dequeued r sch" and g: "sys_go s g = None"
  shows "spec_step (job_service s) (Taken (ID_of (m_sched (sys_m s)) r))
    (job_service (s\<lparr>sys_m := (sys_m s)\<lparr>m_sched := sch\<rparr>, sys_go := (sys_go s)(g \<mapsto> DEnsure r)\<rparr>))"
proof -
  from deq obtain xs where xs: "pending_refs (m_sched (sys_m s)) = r # xs"
    and sch: "sch = (m_sched (sys_m s))\<lparr>sched_pending := Chan xs (queue_cap (m_sched (sys_m s)))\<rparr>"
    by (auto simp: Dequeue_def sched_recv_simps split: option.splits prod.splits if_splits)
  have q: "jb_queue (job_service s) = ID_of (m_sched (sys_m s)) r # map (ID_of (m_sched (sys_m s))) xs"
    by (simp add: xs)
  have "at_work ((sys_go s)(g \<mapsto> DEnsure r)) = insert r (at_work (sys_go s))"
    by (auto simp: at_work_upd [OF sys_invD(2) [OF inv]] g)
  then show ?thesis
    by (intro spec_stepI [OF spec_taken [OF q]] job_service_eqI) (simp_all add: sch)
qed


lemma job_service_idle:
  assumes "owned (sys_go s) (m_sched (sys_m s))" and "working (sys_go s g) = working p'"
  shows "job_service (s\<lparr>sys_go := (sys_go s)(g := p')\<rparr>) = job_service s"
  using invisible [OF assms(1) quiet_refl refl assms(2) [symmetric]] by simp

lemma sim_store_write:
  assumes own: "owned (sys_go s) (m_sched (sys_m s))" and "working (sys_go s g) = {}" and "working p' = {}"
  shows "spec_step (job_service s) (Filed i)
      (job_service (s\<lparr>sys_m := do_save_job (submit_job i now req) (sys_m s), sys_go := (sys_go s)(g := p')\<rparr>))"
    and "GetJob i (m_store (sys_m s)) \<noteq> None \<Longrightarrow> spec_step (job_service s) (Withdrawn i)
      (job_service (s\<lparr>sys_m := do_cancel i (sys_m s), sys_go := (sys_go s)(g := p')\<rparr>))"
proof -
  have work: "at_work ((sys_go s)(g := p')) = at_work (sys_go s)"
    by (simp add: at_work_upd [OF own] assms)
  show "spec_step (job_service s) (Filed i)
      (job_service (s\<lparr>sys_m := do_save_job (submit_job i now req) (sys_m s), sys_go := (sys_go s)(g := p')\<rparr>))"
    by (intro spec_stepI [OF spec_filed] job_service_eqI) (simp_all add: work do_save_job_def submit_job_def)
  assume job: "GetJob i (m_store (sys_m s)) \<noteq> None"
  then have "jb_status (job_service s) i \<noteq> None" by simp
  with job show "spec_step (job_service s) (Withdrawn i)
      (job_service (s\<lparr>sys_m := do_cancel i (sys_m s), sys_go := (sys_go s)(g := p')\<rparr>))"
    by (intro spec_stepI [OF spec_withdrawn] job_service_eqI) (auto simp: work do_cancel_def)
qed

lemma do_cancel_unknown: "GetJob i (m_store m) = None \<Longrightarrow> do_cancel i m = m"
  by (simp add: do_cancel_def UpdateJobStatus_def GetJob_def)

definition refines_step :: "('b, 'c, 'x, 'n) Sys \<Rightarrow> ('b, 'c, 'x, 'n) Sys \<Rightarrow> bool" where
  "refines_step s t \<longleftrightarrow> job_service t = job_service s \<or> (\<exists>e. spec_step (job_service s) e (job_service t))"

lemma refines_stepI: "job_service t = job_service s \<Longrightarrow> refines_step s t"
  "spec_step (job_service s) e (job_service t) \<Longrightarrow> refines_step s t"
  unfolding refines_step_def by blast+

lemma sim_go_quiet:
  assumes live: "sys_live s" and g: "sys_go s g = Some p" and step: "go_step env p (sys_m s) = (p', m')"
    and quiet: "\<not> moves p"
  shows "refines_step s (s\<lparr>sys_m := m', sys_go := (sys_go s)(g := p')\<rparr>)"
proof -
  note inv = sys_liveD(1) [OF live]
  note own = sys_invD(2) [OF inv]
  have qs: "quiet (m_sched (sys_m s)) (m_sched m')" using go_step_quiet [OF quiet step] by blast
  consider (save) r node res where "p = DSaveResult r node res" | (failed) r where "p = DStoreFailed r"
    | (retry) r where "p = DCanRetry r" | (filed) i now now' req where "p = SSaveJob i now now' req"
    | (cancel) i where "p = CWrite i"
    | (other) "m_store m' = m_store (sys_m s) \<and> working p' = working (Some p)"
    using go_step_invisible [OF step quiet] by metis
  then show ?thesis
  proof cases
    case save
    with step g sim_save_result [OF live] show ?thesis by (auto intro!: refines_stepI(2))
  next
    case failed
    with step g sim_store_failed [OF inv] show ?thesis by (auto intro!: refines_stepI(2))
  next
    case (retry r)
    then have w: "working (sys_go s g) = {r}" and m': "m' = sys_m s" using g step by auto
    show ?thesis
    proof (cases p')
      case None
      from sim_drop [OF inv w quiet_refl refl] show ?thesis unfolding None m' by (rule refines_stepI(2))
    next
      case (Some q)
      with retry step have "working p' = {r}" by (auto split: if_splits)
      with invisible [OF own qs, of p' g] w m' show ?thesis by (intro refines_stepI(1)) simp
    qed
  next
    case filed
    with step g sim_store_write(1) [OF own, of g p'] show ?thesis by (auto intro!: refines_stepI(2))
  next
    case (cancel i)
    show ?thesis
    proof (cases "GetJob i (m_store (sys_m s)) = None")
      case True
      with cancel step have "m' = sys_m s \<and> p' = None" by (simp add: do_cancel_unknown)
      with invisible [OF own qs, of p' g] g cancel show ?thesis by (intro refines_stepI(1)) simp
    next
      case False
      with cancel step g sim_store_write(2) [OF own, of g p'] show ?thesis by (auto intro!: refines_stepI(2))
    qed
  next
    case other
    with invisible [OF own qs, of p' g] g show ?thesis by (intro refines_stepI(1)) simp
  qed
qed

lemma sim_go_moves:
  assumes live: "sys_live s" and g: "sys_go s g = Some p" and step: "go_step env p (sys_m s) = (p', m')"
    and moves: "moves p"
  shows "refines_step s (s\<lparr>sys_m := m', sys_go := (sys_go s)(g := p')\<rparr>)"
proof -
  note inv = sys_liveD(1) [OF live]
  note own = sys_invD(2) [OF inv]
  have sent: "refines_step s (s\<lparr>sys_m := (sys_m s)\<lparr>m_sched := sch\<rparr>, sys_go := (sys_go s)(g := None)\<rparr>)"
    if "working (sys_go s g) = {r}" "sched_send r (m_sched (sys_m s)) = Some sch" for r sch
    by (rule refines_stepI(2) [OF sim_send [OF inv that]])
  have idle: "refines_step s (s\<lparr>sys_go := (sys_go s)(g := q)\<rparr>)" if "working q = working (Some p)" for q
    by (rule refines_stepI(1) [OF job_service_idle [OF own]]) (simp add: g that)
  have upd: "s\<lparr>sys_m := sys_m s, sys_go := go\<rparr> = s\<lparr>sys_go := go\<rparr>" for go by simp
  show ?thesis
  proof (cases p)
    case (DResend r)
    then have w: "working (sys_go s g) = {r}" by (simp add: g)
    show ?thesis
    proof (cases "sched_send r (m_sched (sys_m s))")
      case None
      with DResend step sim_drop [OF inv w quiet_refl refl] show ?thesis by (auto intro!: refines_stepI(2))
    next
      case (Some sch)
      with DResend step sent [OF w, of sch] show ?thesis by auto
    qed
  next
    case (SNewTask i now' req)
    with step job_service_new_task [OF inv, of g] g show ?thesis
      by (auto intro!: refines_stepI(1) simp: do_new_task_def task_alloc_def)
  next
    case (SInsert r)
    show ?thesis
    proof (cases "enqueue_insert r (m_sched (sys_m s))")
      case (Pair e sch)
      show ?thesis
      proof (cases e)
        case None
        with Pair SInsert step g sim_insert [OF live, of g r sch] show ?thesis by (auto intro!: refines_stepI(2))
      next
        case (Some err)
        with Pair have old: "enqueue_insert r (m_sched (sys_m s)) = (Some err, sch)" by simp
        with enqueue_insert_old [OF old] SInsert step have "m' = sys_m s" and "p' = None" by auto
        with idle [of None] SInsert show ?thesis by (simp add: upd)
      qed
    qed
  next
    case (SSend r)
    with step g sent [of r] idle [of "Some (SUndo r)"] show ?thesis by (auto simp: upd split: option.splits)
  next
    case (SUndo r)
    with step g sim_undo [OF inv] show ?thesis by (auto intro!: refines_stepI(2))
  qed (use moves in simp_all)
qed

lemma sim_step:
  assumes live: "sys_live s" and step: "sys_step s l t"
  shows "refines_step s t"
  using step
proof cases
  case (step_go g p env p' m')
  with sim_go_quiet [OF live, of g p env p' m'] sim_go_moves [OF live, of g p env p' m'] show ?thesis by auto
next
  case (step_loop dn pick r sch g)
  with sim_loop [OF sys_liveD(1) [OF live]] show ?thesis by (blast intro: refines_stepI(2))
qed (auto intro!: refines_stepI(1) job_service_idle [OF sys_invD(2) [OF sys_liveD(1) [OF live]]]
      job_service_eqI simp: background_frame)

interpretation job: simulation sys_init sys_step spec_init spec_step job_service
proof unfold_locales
  fix s :: "('a, 'b, 'c, 'd) Sys" assume "sys_init s"
  then show "spec_init (job_service s)"
    by (auto simp: sys_init_def spec_init_def NewStore_def NewScheduler_def chan_make_def Let_def
        GetJob_def GetResult_def at_work_def fun_eq_iff job_service_def)
next
  fix s t :: "('a, 'b, 'c, 'd) Sys" and l
  assume "reach sys_init sys_step s" and "sys_step s l t"
  then show "job_service t = job_service s \<or> (\<exists>e. spec_step (job_service s) e (job_service t))"
    using sim_step [OF lived.reach_inva] unfolding refines_step_def by blast
qed


lemma GetStatus_service:
  "map_sum id gs_Status (GetStatus i (sys_m s)) =
     (if i = '''' then Inl (GrpcError InvalidArgument ''job_id is required'')
      else case jb_status (job_service s) i of
             None \<Rightarrow> Inl (GrpcError NotFound (''job '' @ i @ '' not found''))
           | Some st \<Rightarrow> Inr (toProtoJobStatus st))"
  by (simp add: GetStatus_def status_response_def Let_def split: option.split)

text \<open>Claim C3: The master refines the job service. However its goroutines interleave, every critical
  section is invisible to the service or one of its events (a job filed, admitted, queued within the
  bound, taken in order, answered once, failed, given up, withdrawn), so every reachable state of the
  master is a reachable state of the service, and a status query answers what the service says.\<close>

theorem master_refines_job_service:
  assumes "reach sys_init sys_step s" and "sys_step s l t"
  shows "reach spec_init spec_step (job_service s) \<and>
    (job_service t = job_service s \<or> (\<exists>e. spec_step (job_service s) e (job_service t))) \<and>
    (\<forall>i. map_sum id gs_Status (GetStatus i (sys_m s)) =
       (if i = '''' then Inl (GrpcError InvalidArgument ''job_id is required'')
        else case jb_status (job_service s) i of
               None \<Rightarrow> Inl (GrpcError NotFound (''job '' @ i @ '' not found''))
             | Some st \<Rightarrow> Inr (toProtoJobStatus st)))"
  using job.reach_img [OF assms(1)] job.stp_sim [OF assms] GetStatus_service by blast

theorem master_refines_job_service_witness:
  "reach spec_init spec_step (job_service sample_submitted) \<and> jb_queue (job_service sample_submitted) = [''j1''] \<and>
   jb_status (job_service sample_submitted) ''j1'' = Some TaskStatusPending"
proof -
  have "sys_step sample_submitted (Deregistering ''w1'')
      (sample_submitted\<lparr>sys_m := snd (Server_Deregister ''w1'' (sys_m sample_submitted))\<rparr>)"
    by (rule step_deregister)
  note r = master_refines_job_service [OF reach_submitted this]
  have "pending_refs (m_sched (sys_m sample_submitted)) = [0]"
    using sample_waiting_submitted by (simp add: waiting_def)
  moreover have "ID_of (m_sched (sys_m sample_submitted)) 0 = ''j1''"
    using sample_dispatching_facts(5) by (simp add: sample_dispatching_def)
  moreover have "m_store (sys_m sample_submitted) = SaveJob (submit_job ''j1'' 0 sample_request) NewStore"
    using sample_dispatching_facts(1) by (simp add: sample_dispatching_def)
  ultimately show ?thesis using r by (simp add: submit_job_def)
qed

text \<open>The books of the service are the master's: an ID waits once or is in work, never both, the queue
  keeps its bound, and no job that waits or is in work has a result.\<close>

theorem service_books:
  assumes "reach sys_init sys_step s"
  shows "distinct (jb_queue (job_service s)) \<and> set (jb_queue (job_service s)) \<inter> jb_busy (job_service s) = {} \<and>
    int (length (jb_queue (job_service s))) \<le> jb_bound (job_service s) \<and>
    (\<forall>i \<in> set (jb_queue (job_service s)) \<union> jb_busy (job_service s). jb_result (job_service s) i = None)"
  using job.transfer [OF assms, of spec_inv] service.reach_inva by (auto simp: spec_inv_def)

end
