(* ===== verification/MasterProcess.thy ===== *)
theory MasterProcess
  imports JobLifecycle
begin

text \<open>
  The process of the master: \<open>Run\<close> of \<open>server.go\<close> starts the dispatch loop, the health monitor, the
  scale-down timer and the shutdown goroutine beside the gRPC server, and returns when the server has
  stopped. Each of these goroutines may take the next step, between the critical sections of the
  requests and the dispatches.
\<close>

section \<open>The process\<close>

text \<open>Where \<open>Run\<close> is, and where its shutdown goroutine is.\<close>

datatype run_state = AboutToListen | Serving | Returned "string option"

datatype shutdown_pc = ShutWait | ShutGraceful | ShutStop

record ('c, 'x, 'n) MasterProc =
  mp_srv :: "('c, 'x, 'n) Server"
  mp_go :: "nat \<rightharpoonup> 'n pc"
  mp_run :: run_state
  mp_ctx_done :: bool
  mp_loop :: bool
  mp_monitor :: bool
  mp_timer :: bool
  mp_shutdown :: shutdown_pc

definition proc_sys :: "('c, 'x, 'n) MasterProc \<Rightarrow> (RoundRobinBalancer, 'c, 'x, 'n) Sys" where
  "proc_sys p = \<lparr>sys_m = srv_m (mp_srv p), sys_go = mp_go p\<rparr>"

definition with_sys ::
    "(RoundRobinBalancer, 'c, 'x, 'n) Sys \<Rightarrow> ('c, 'x, 'n) MasterProc \<Rightarrow> ('c, 'x, 'n) MasterProc" where
  "with_sys s p = p\<lparr>mp_srv := (mp_srv p)\<lparr>srv_m := sys_m s\<rparr>, mp_go := sys_go s\<rparr>"

text \<open>The process as \<open>NewServer\<close> leaves it to \<open>Run\<close>.\<close>

definition proc_boot :: "('c, 'x, 'n) Server \<Rightarrow> ('c, 'x, 'n) MasterProc" where
  "proc_boot srv = \<lparr>mp_srv = srv, mp_go = Map.empty, mp_run = AboutToListen, mp_ctx_done = False,
     mp_loop = False, mp_monitor = False, mp_timer = False, mp_shutdown = ShutWait\<rparr>"

definition proc_init :: "('c, 'x, 'n) MasterProc \<Rightarrow> bool" where
  "proc_init p \<longleftrightarrow> (\<exists>srv. p = proc_boot srv) \<and> sys_init (proc_sys p)"

text \<open>The goroutines of requests, which \<open>GracefulStop\<close> waits for.\<close>

fun request_pc :: "'n pc \<Rightarrow> bool" where
  "request_pc (SSaveJob i now now' req) = True"
| "request_pc (SNewTask i now' req) = True"
| "request_pc (SInsert r) = True"
| "request_pc (SSend r) = True"
| "request_pc (SUndo r) = True"
| "request_pc (CRead i) = True"
| "request_pc (CWrite i) = True"
| "request_pc _ = False"

text \<open>
  What a step of the system needs of the process: the loop and the timers act while their goroutine
  lives, and requests come in until the graceful stop.
\<close>

fun enabled :: "('c, 'x, 'n) MasterProc \<Rightarrow> ('b, 'n) label \<Rightarrow> bool" where
  "enabled p (Go g env) = True"
| "enabled p (Loop g) = mp_loop p"
| "enabled p (HealthTick now ks) = mp_monitor p"
| "enabled p (ScaleTick ks) = mp_timer p"
| "enabled p _ = (mp_shutdown p \<noteq> ShutStop)"

text \<open>
  \<open>Serve\<close> returns nothing after the graceful stop, and an error when the listener breaks or when the
  server was stopped before \<open>Serve\<close> was called, which a signal during the start can bring about.
\<close>

datatype ('b, 'n) proc_label =
    PListen "string option"
  | PSys "('b, 'n) label"
  | PSignal
  | PLoopEnd "string list"
  | PMonitorEnd
  | PTimerEnd
  | PNotServing
  | PGracefulStop
  | PReturn
  | PServeFailed string

inductive proc_step ::
    "('c, 'x, 'n) MasterProc \<Rightarrow> (RoundRobinBalancer, 'n) proc_label \<Rightarrow> ('c, 'x, 'n) MasterProc \<Rightarrow> bool" where
  p_listen_failed: "mp_run p = AboutToListen \<Longrightarrow>
    proc_step p (PListen (Some err)) (p\<lparr>mp_run := Returned (Some (''listen: '' @ err))\<rparr>)"
| p_listen: "mp_run p = AboutToListen \<Longrightarrow>
    proc_step p (PListen None) (p\<lparr>mp_run := Serving, mp_loop := True, mp_monitor := True,
      mp_timer := (m_scaler (srv_m (mp_srv p)) \<noteq> None)\<rparr>)"
| p_sys: "mp_run p = Serving \<Longrightarrow> enabled p l \<Longrightarrow> sys_step (proc_sys p) l s \<Longrightarrow>
    proc_step p (PSys l) (with_sys s p)"
| p_signal: "proc_step p PSignal (p\<lparr>mp_ctx_done := True\<rparr>)"
| p_loop_end: "mp_run p = Serving \<Longrightarrow> mp_ctx_done p \<Longrightarrow> mp_loop p \<Longrightarrow>
    iterates ks (pool_conns (m_pool (srv_m (mp_srv p)))) \<Longrightarrow>
    proc_step p (PLoopEnd ks) (p\<lparr>mp_loop := False, mp_srv := (mp_srv p)
      \<lparr>srv_m := (srv_m (mp_srv p))\<lparr>m_pool := closeConnections ks (m_pool (srv_m (mp_srv p)))\<rparr>\<rparr>\<rparr>)"
| p_monitor_end: "mp_run p = Serving \<Longrightarrow> mp_ctx_done p \<Longrightarrow> proc_step p PMonitorEnd (p\<lparr>mp_monitor := False\<rparr>)"
| p_timer_end: "mp_run p = Serving \<Longrightarrow> mp_ctx_done p \<Longrightarrow> proc_step p PTimerEnd (p\<lparr>mp_timer := False\<rparr>)"
| p_not_serving: "mp_run p = Serving \<Longrightarrow> mp_ctx_done p \<Longrightarrow> mp_shutdown p = ShutWait \<Longrightarrow>
    proc_step p PNotServing (p\<lparr>mp_srv := begin_shutdown (mp_srv p), mp_shutdown := ShutGraceful\<rparr>)"
| p_graceful_stop: "mp_run p = Serving \<Longrightarrow> mp_shutdown p = ShutGraceful \<Longrightarrow>
    proc_step p PGracefulStop (p\<lparr>mp_shutdown := ShutStop\<rparr>)"
| p_return: "mp_run p = Serving \<Longrightarrow> mp_shutdown p = ShutStop \<Longrightarrow>
    (\<And>g q. mp_go p g = Some q \<Longrightarrow> \<not> request_pc q) \<Longrightarrow>
    proc_step p PReturn (p\<lparr>mp_run := Returned None\<rparr>)"
| p_serve_failed: "mp_run p = Serving \<Longrightarrow>
    proc_step p (PServeFailed err) (p\<lparr>mp_run := Returned (Some err)\<rparr>)"

section \<open>The invariants of the process\<close>

lemma proc_sys_fields [simp]:
  "sys_m (proc_sys p) = srv_m (mp_srv p)" "sys_go (proc_sys p) = mp_go p"
  "proc_sys (with_sys s p) = s"
  by (simp_all add: proc_sys_def with_sys_def)

definition proc_inv :: "('c, 'x, 'n) MasterProc \<Rightarrow> bool" where
  "proc_inv p \<longleftrightarrow> sys_live (proc_sys p) \<and> finite (dom (mp_go p)) \<and>
     (mp_shutdown p \<noteq> ShutWait \<longrightarrow> mp_ctx_done p \<and> \<not> srv_serving (mp_srv p)) \<and>
     (mp_run p = Returned None \<longrightarrow> mp_shutdown p = ShutStop \<and> (\<forall>g q. mp_go p g = Some q \<longrightarrow> \<not> request_pc q))"

lemma proc_invD:
  assumes "proc_inv p"
  shows "sys_live (proc_sys p)" and "finite (dom (mp_go p))"
    and "mp_shutdown p \<noteq> ShutWait \<Longrightarrow> mp_ctx_done p \<and> \<not> srv_serving (mp_srv p)"
    and "mp_run p = Returned None \<Longrightarrow> mp_shutdown p = ShutStop"
    and "mp_run p = Returned None \<Longrightarrow> mp_go p g = Some q \<Longrightarrow> \<not> request_pc q"
  using assms unfolding proc_inv_def by blast+

lemma sys_step_finite: "sys_step s l t \<Longrightarrow> finite (dom (sys_go s)) \<Longrightarrow> finite (dom (sys_go t))"
  by (induction rule: sys_step.induct) simp_all

lemma sys_live_pool:
  assumes "sys_live (proc_sys p)" and "m_sched m = m_sched (srv_m (mp_srv p))" and "m_store m = m_store (srv_m (mp_srv p))"
  shows "sys_live \<lparr>sys_m = m, sys_go = mp_go p\<rparr>"
  using assms by (simp add: sys_live_def sys_inv_def)

lemma proc_inv_step:
  assumes inv: "proc_inv p" and step: "proc_step p l q"
  shows "proc_inv q"
  using step
proof cases
  case (p_sys l s)
  have "sys_live s" by (rule lived.stp_inva [OF proc_invD(1) [OF inv] p_sys(5)])
  moreover have "finite (dom (sys_go s))" using sys_step_finite [OF p_sys(5)] proc_invD(2) [OF inv] by simp
  ultimately have "proc_inv (with_sys s p)"
    using proc_invD(3) [OF inv] p_sys(3) by (simp add: proc_inv_def) (simp add: with_sys_def)
  with p_sys(2) show ?thesis by simp
next
  case (p_loop_end ks)
  have "sys_live (proc_sys q)"
    unfolding proc_sys_def by (rule sys_live_pool) (use proc_invD(1) [OF inv] p_loop_end in \<open>simp_all add: sys_live_pool proc_sys_def\<close>)
  with p_loop_end inv show ?thesis by (simp add: proc_inv_def)
qed (use inv in \<open>auto simp: proc_inv_def proc_sys_def begin_shutdown_def\<close>)

lemma proc_inv_init: "proc_init p \<Longrightarrow> proc_inv p"
  using lived.ini_inva by (auto simp: proc_init_def proc_inv_def proc_boot_def)

interpretation process: invariant_system proc_init proc_step proc_inv
  by unfold_locales (auto intro: proc_inv_init proc_inv_step)

text \<open>The server that \<open>NewServer\<close> makes starts a process.\<close>

lemma NewServer_init: "proc_init (proc_boot (NewServer cfg in_cluster new_for_config cluster))"
  by (auto simp: proc_init_def proc_boot_def sys_init_def NewServer_def)


section \<open>Shutting down\<close>

text \<open>While every goroutine of the process lives, every run of the system is a run of the process.\<close>

definition all_alive :: "('c, 'x, 'n) MasterProc \<Rightarrow> bool" where
  "all_alive p \<longleftrightarrow> mp_run p = Serving \<and> mp_loop p \<and> mp_monitor p \<and> mp_timer p \<and> mp_shutdown p \<noteq> ShutStop"

lemma alive_enabled: "all_alive p \<Longrightarrow> enabled p l"
  by (cases l) (simp_all add: all_alive_def)

lemma with_sys_twice [simp]: "with_sys t (with_sys s p) = with_sys t p"
  by (simp add: with_sys_def)

lemma with_sys_same [simp]: "with_sys (proc_sys p) p = p"
  by (simp add: with_sys_def proc_sys_def)

lemma all_alive_with_sys [simp]: "all_alive (with_sys s p) = all_alive p"
  by (simp add: all_alive_def with_sys_def)

lemma lift_run:
  assumes "reach (\<lambda>u. u = proc_sys p) sys_step s" and p: "reach ini proc_step p" "all_alive p"
  shows "reach ini proc_step (with_sys s p)"
  using assms(1)
proof (induction rule: reach.induct)
  case (reach_init s)
  with p show ?case by simp
next
  case (reach_step s l t)
  have "mp_run (with_sys s p) = Serving" "enabled (with_sys s p) l"
    using p(2) alive_enabled [of "with_sys s p" l] by (simp_all add: all_alive_def with_sys_def)
  from p_sys [OF this, of t] reach_step.hyps(2) have "proc_step (with_sys s p) (PSys l) (with_sys t p)" by simp
  with reach_step.IH show ?case by (rule reach.reach_step)
qed

text \<open>A process with one worker, to which a job has been submitted.\<close>

definition sample_server :: "(unit, unit, string) Server" where
  "sample_server = \<lparr>srv_cfg = default_master_config, srv_m = sample_idle, srv_serving = True\<rparr>"

lemma reach_sample_boot: "reach proc_init proc_step (proc_boot sample_server)"
proof (rule reach_init)
  show "proc_init (proc_boot sample_server)"
    by (auto simp: proc_init_def proc_boot_def sys_init_def sample_server_def)
qed

definition sample_serving :: "(unit, unit, string) MasterProc" where
  "sample_serving = (proc_boot sample_server)\<lparr>mp_run := Serving, mp_loop := True, mp_monitor := True, mp_timer := True\<rparr>"

lemma reach_serving: "reach proc_init proc_step sample_serving"
proof -
  have "proc_step (proc_boot sample_server) (PListen None) sample_serving"
    using p_listen [of "proc_boot sample_server"]
    by (simp add: sample_serving_def proc_boot_def sample_server_def)
  then show ?thesis by (rule reach_step [OF reach_sample_boot])
qed

text \<open>The job on its way to the worker.\<close>

lemma start_executing:
  "\<exists>m node client. reach (\<lambda>u. u = sample_start) sys_step
     \<lparr>sys_m = m, sys_go = [1 \<mapsto> DExecute 0 node client] :: nat \<rightharpoonup> string pc\<rparr> \<and>
     m_store m = SaveJob (submit_job ''j1'' 0 sample_request) NewStore"
proof -
  let ?env = "sample_env (Inr sample_reply) [''w1'']" and ?m = "sys_m sample_dispatching"
  have "\<exists>m node client. go_steps 6 ?env (DEnsure 0) ?m = (Some (DExecute 0 node client), m) \<and> m_store m = m_store ?m"
    by (simp add: eval_nat_numeral sample_dispatching_facts Let_def do_sections getClient_def dial_client_def empty_pool_def)
  then obtain m node client where steps: "go_steps 6 ?env (DEnsure 0) ?m = (Some (DExecute 0 node client), m)"
    and "m_store m = m_store ?m" by blast
  then have store: "m_store m = SaveJob (submit_job ''j1'' 0 sample_request) NewStore"
    by (simp only: sample_dispatching_facts(1))
  have "sys_go sample_dispatching 1 = Some (DEnsure 0)" by (simp add: sample_dispatching_def)
  from reach_stepsI [OF start_dispatching this steps] show ?thesis
    using store by (intro exI [of _ m] exI [of _ node] exI [of _ client]) (simp add: sample_dispatching_def)
qed

lemma stop_process:
  assumes r: "reach ini proc_step p" and p: "mp_run p = Serving" "mp_shutdown p = ShutWait"
    and idle: "\<And>g q. mp_go p g = Some q \<Longrightarrow> \<not> request_pc q"
  shows "reach ini proc_step (p\<lparr>mp_ctx_done := True, mp_srv := begin_shutdown (mp_srv p),
    mp_shutdown := ShutStop, mp_run := Returned None\<rparr>)"
proof -
  let ?p1 = "p\<lparr>mp_ctx_done := True\<rparr>"
  let ?p2 = "?p1\<lparr>mp_srv := begin_shutdown (mp_srv p), mp_shutdown := ShutGraceful\<rparr>"
  let ?p3 = "?p2\<lparr>mp_shutdown := ShutStop\<rparr>"
  have r1: "reach ini proc_step ?p1" by (rule reach_step [OF r p_signal])
  have "proc_step ?p1 PNotServing ?p2" using p_not_serving [of ?p1] p by simp
  from reach_step [of ini proc_step, OF r1 this] have r2: "reach ini proc_step ?p2" .
  have "proc_step ?p2 PGracefulStop ?p3" using p_graceful_stop [of ?p2] p by simp
  from reach_step [of ini proc_step, OF r2 this] have r3: "reach ini proc_step ?p3" .
  have "proc_step ?p3 PReturn (?p3\<lparr>mp_run := Returned None\<rparr>)" using p_return [of ?p3] p idle by simp
  from reach_step [of ini proc_step, OF r3 this] show ?thesis by simp
qed

text \<open>Claim C16: The shutdown waits for requests but not for dispatches: a run exists in which \<open>Run\<close>
  has returned, and the process ends, while a goroutine is waiting for the worker's answer to a job
  that clients see as PENDING; the answer is lost, and with it the job.\<close>

theorem shutdown_abandons_dispatch:
  "\<exists>(p :: (unit, unit, string) MasterProc) g node client. reach proc_init proc_step p \<and> mp_run p = Returned None \<and>
     mp_go p g = Some (DExecute 0 node client) \<and>
     map_sum id gs_Status (GetStatus ''j1'' (srv_m (mp_srv p))) = Inr JOB_STATUS_PENDING"
proof -
  obtain m node client where run: "reach (\<lambda>u. u = sample_start) sys_step
      \<lparr>sys_m = m, sys_go = [1 \<mapsto> DExecute 0 node client] :: nat \<rightharpoonup> string pc\<rparr>" (is "reach _ _ ?s")
    and store: "m_store m = SaveJob (submit_job ''j1'' 0 sample_request) NewStore"
    using start_executing by blast
  have "proc_sys sample_serving = sample_start"
    by (simp add: proc_sys_def sample_serving_def proc_boot_def sample_server_def sample_start_def)
  moreover have "all_alive sample_serving" by (simp add: all_alive_def sample_serving_def proc_boot_def)
  ultimately have r: "reach proc_init proc_step (with_sys ?s sample_serving)"
    using lift_run [OF _ reach_serving, of ?s] run by simp
  let ?p = "(with_sys ?s sample_serving)\<lparr>mp_ctx_done := True, mp_srv := begin_shutdown (mp_srv (with_sys ?s sample_serving)),
    mp_shutdown := ShutStop, mp_run := Returned None\<rparr>"
  have "reach proc_init proc_step ?p"
    by (rule stop_process [OF r])
      (auto simp: with_sys_def sample_serving_def proc_boot_def split: if_splits)
  moreover have "mp_go ?p 1 = Some (DExecute 0 node client)" by (simp add: with_sys_def)
  moreover have "map_sum id gs_Status (GetStatus ''j1'' (srv_m (mp_srv ?p))) = Inr JOB_STATUS_PENDING"
    by (simp add: with_sys_def begin_shutdown_def GetStatus_def store store.get_save status_response_def submit_job_def)
  ultimately show ?thesis by (intro exI [of _ ?p] exI [of _ 1] exI [of _ node] exI [of _ client]) simp
qed


section \<open>The master can always stop\<close>

fun request_left :: "'n pc \<Rightarrow> nat" where
  "request_left (SSaveJob i now now' req) = 5"
| "request_left (SNewTask i now' req) = 4"
| "request_left (SInsert r) = 3"
| "request_left (SSend r) = 2"
| "request_left (CRead i) = 2"
| "request_left _ = 1"

lemma request_step:
  "request_pc q \<Longrightarrow> go_step env q m = (Some q', m') \<Longrightarrow> request_pc q' \<and> request_left q' < request_left q"
  by (cases q) (auto simp: do_new_task_def split: prod.splits option.splits if_splits)

lemma proc_go:
  assumes "mp_run p = Serving" and "mp_go p g = Some q" and "go_step env q (srv_m (mp_srv p)) = (q', m)"
  shows "proc_step p (PSys (Go g env)) (with_sys \<lparr>sys_m = m, sys_go = (mp_go p)(g := q')\<rparr> p)"
proof (rule p_sys [OF assms(1)])
  show "sys_step (proc_sys p) (Go g env) \<lparr>sys_m = m, sys_go = (mp_go p)(g := q')\<rparr>"
    using step_go [of "proc_sys p" g q env q' m] assms(2,3) by (simp add: proc_sys_def)
qed simp

lemma with_sys_fields [simp]:
  "mp_go (with_sys s p) = sys_go s" "mp_run (with_sys s p) = mp_run p" "mp_shutdown (with_sys s p) = mp_shutdown p"
  "mp_ctx_done (with_sys s p) = mp_ctx_done p" "srv_m (mp_srv (with_sys s p)) = sys_m s"
  by (simp_all add: with_sys_def)

text \<open>A request runs to its end.\<close>

lemma finish_request:
  "mp_run p = Serving \<Longrightarrow> mp_go p g = Some q \<Longrightarrow> request_pc q \<Longrightarrow>
   \<exists>r. reach (\<lambda>u. u = p) proc_step r \<and> mp_go r = (mp_go p)(g := None) \<and> mp_run r = Serving \<and>
     mp_shutdown r = mp_shutdown p"
proof (induction q arbitrary: p rule: measure_induct_rule [of request_left])
  case (less q)
  obtain q' m where step: "go_step undefined q (srv_m (mp_srv p)) = (q', m)" by fastforce
  let ?p = "with_sys \<lparr>sys_m = m, sys_go = (mp_go p)(g := q')\<rparr> p"
  have first: "reach (\<lambda>u. u = p) proc_step ?p"
    by (rule reach_one [of proc_step, OF proc_go [OF less.prems(1,2) step]])
  show ?case
  proof (cases q')
    case None
    with first less.prems(1) show ?thesis by (intro exI [of _ ?p]) simp
  next
    case (Some k)
    with step request_step [OF less.prems(3)] have k: "request_pc k" "request_left k < request_left q" by blast+
    have "mp_run ?p = Serving" "mp_go ?p g = Some k" using less.prems(1) Some by simp_all
    from less.IH [OF k(2) this k(1)] obtain r where r: "reach (\<lambda>u. u = ?p) proc_step r"
      "mp_go r = (mp_go ?p)(g := None)" "mp_run r = Serving" "mp_shutdown r = mp_shutdown ?p" by blast
    have "mp_go r = (mp_go p)(g := None)" by (simp add: r(2) fun_eq_iff)
    with r(3,4) reach_trans [OF first r(1)] show ?thesis by (intro exI [of _ r]) simp
  qed
qed

definition requests :: "('c, 'x, 'n) MasterProc \<Rightarrow> nat set" where
  "requests p = {g. \<exists>q. mp_go p g = Some q \<and> request_pc q}"

lemma finish_requests:
  "finite (requests p) \<Longrightarrow> mp_run p = Serving \<Longrightarrow>
   \<exists>r. reach (\<lambda>u. u = p) proc_step r \<and> mp_go r = (\<lambda>g. if g \<in> requests p then None else mp_go p g) \<and>
     mp_run r = Serving \<and> mp_shutdown r = mp_shutdown p"
proof (induction "card (requests p)" arbitrary: p)
  case 0
  then show ?case by (intro exI [of _ p] conjI reach_self) simp_all
next
  case (Suc n)
  then have "requests p \<noteq> {}" by auto
  then obtain g q where g: "mp_go p g = Some q" "request_pc q" by (auto simp: requests_def)
  from finish_request [OF Suc.prems(2) g] obtain r where r: "reach (\<lambda>u. u = p) proc_step r"
    "mp_go r = (mp_go p)(g := None)" "mp_run r = Serving" "mp_shutdown r = mp_shutdown p" by blast
  have req: "requests r = requests p - {g}" by (auto simp: requests_def r(2))
  have "g \<in> requests p" using g by (simp add: requests_def)
  then have "n = card (requests r)" using Suc.hyps(2) Suc.prems(1) by (simp add: req)
  from Suc.hyps(1) [OF this _ r(3)] Suc.prems(1) obtain u where u: "reach (\<lambda>v. v = r) proc_step u"
    "mp_go u = (\<lambda>h. if h \<in> requests r then None else mp_go r h)" "mp_run u = Serving" "mp_shutdown u = mp_shutdown r"
    by (auto simp: req)
  have "mp_go u = (\<lambda>h. if h \<in> requests p then None else mp_go p h)"
    using \<open>g \<in> requests p\<close> by (auto simp: u(2) req r(2) fun_eq_iff)
  with u(3,4) r(4) reach_trans [OF r(1) u(1)] show ?case by (intro exI [of _ u]) simp
qed

text \<open>Claim C15: From every state that a serving master can reach there is a run to the return of \<open>Run\<close>,
  whatever the queue and the store hold, at the end of which every request that was in flight is over and
  every dispatch goroutine that waited, for a worker say, is where it was: the stop depends on no worker.
  When \<open>Run\<close> has returned, the context is done and the health service reports NOT\_SERVING.\<close>

theorem master_can_always_stop:
  assumes "reach proc_init proc_step p" and "mp_run p = Serving"
  shows "\<exists>r. reach (\<lambda>u. u = p) proc_step r \<and> mp_run r = Returned None \<and>
    mp_ctx_done r \<and> \<not> srv_serving (mp_srv r) \<and>
    (\<forall>g q. mp_go p g = Some q \<longrightarrow> mp_go r g = (if request_pc q then None else Some q))"
proof -
  have "requests p \<subseteq> dom (mp_go p)" by (auto simp: requests_def)
  then have "finite (requests p)"
    using proc_invD(2) [OF process.reach_inva [OF assms(1)]] finite_subset by blast
  from finish_requests [OF this assms(2)] obtain r where r: "reach (\<lambda>u. u = p) proc_step r"
    "mp_go r = (\<lambda>g. if g \<in> requests p then None else mp_go p g)" "mp_run r = Serving" by blast
  have idle: "\<not> request_pc q" if "mp_go r g = Some q" for g q
    using that by (auto simp: r(2) requests_def split: if_splits)
  have found: ?thesis if t: "reach (\<lambda>u. u = p) proc_step t" "mp_run t = Returned None" "mp_go t = mp_go r" for t
  proof -
    note inv = proc_invD(3,4) [OF process.reach_inva [OF reach_trans [OF assms(1) t(1)]]]
    have "mp_go t g = (if request_pc q then None else Some q)" if "mp_go p g = Some q" for g q
      using that by (auto simp: t(3) r(2) requests_def)
    with inv t(1,2) show ?thesis by (intro exI [of _ t]) simp
  qed
  have stopped: ?thesis
    if s: "reach (\<lambda>u. u = p) proc_step s" "mp_run s = Serving" "mp_shutdown s = ShutStop" "mp_go s = mp_go r" for s
    by (rule found [OF reach_step [OF s(1) p_return [OF s(2,3)]]]) (use idle s(4) in auto)
  show ?thesis
  proof (cases "mp_shutdown r")
    case ShutWait
    show ?thesis by (rule found [OF stop_process [OF r(1,3) ShutWait idle]]) simp_all
  next
    case ShutGraceful
    from reach_step [of _ proc_step, OF r(1) p_graceful_stop [OF r(3) ShutGraceful]]
    have "reach (\<lambda>u. u = p) proc_step (r\<lparr>mp_shutdown := ShutStop\<rparr>)" .
    then show ?thesis by (rule stopped) (simp_all add: r(3))
  next
    case ShutStop
    show ?thesis by (rule stopped [OF r(1,3) ShutStop refl])
  qed
qed

text \<open>A submission is in flight when the signal comes.\<close>

theorem master_can_always_stop_witness:
  "\<exists>p r :: (unit, unit, string) MasterProc. reach proc_init proc_step p \<and> mp_go p 0 = Some (SSaveJob ''j1'' 0 0 sample_request) \<and>
     reach (\<lambda>u. u = p) proc_step r \<and> mp_run r = Returned None \<and> mp_go r 0 = None"
proof -
  let ?pc = "SSaveJob ''j1'' 0 0 sample_request :: string pc"
  let ?p = "with_sys (sample_start\<lparr>sys_go := (sys_go sample_start)(0 \<mapsto> ?pc)\<rparr>) sample_serving"
  have same: "proc_sys sample_serving = sample_start"
    by (simp add: proc_sys_def sample_serving_def proc_boot_def sample_server_def sample_start_def)
  have "reach (\<lambda>u. u = proc_sys sample_serving) sys_step (sample_start\<lparr>sys_go := (sys_go sample_start)(0 \<mapsto> ?pc)\<rparr>)"
    unfolding same
    by (rule reach_one [of sys_step, OF step_submit [OF sample_request_ok]]) (simp add: sample_start_def)
  then have p: "reach proc_init proc_step ?p"
    by (rule lift_run [OF _ reach_serving]) (simp add: all_alive_def sample_serving_def proc_boot_def)
  have go: "mp_go ?p 0 = Some ?pc" by simp
  have "mp_run ?p = Serving" by (simp add: sample_serving_def)
  from master_can_always_stop [OF p this] obtain r where "reach (\<lambda>u. u = ?p) proc_step r"
    "mp_run r = Returned None" "mp_go r 0 = None"
    using go by fastforce
  with p go show ?thesis by blast
qed

end
