(* ===== verification/Executor.thy ===== *)
theory Executor
  imports Prelude
begin

text \<open>
  \<open>pkg/executor\<close>: the executor interface, the registry that routes a task to an executor, and the
  command executor. Outside the repository, and therefore arguments, are \<open>encoding/json\<close>
  (\<open>unmarshal\<close>) and \<open>os/exec\<close> (\<open>run\<close>), which acts on the machine's state \<open>'w\<close>.
\<close>

section \<open>Tasks and results of an executor\<close>

record XTask =
  xt_ID :: string
  xt_Type :: string
  xt_Payload :: bytes
  xt_Metadata :: metadata

record XResult =
  xs_Output :: bytes
  xs_ExitCode :: int
  xs_Error :: string
  xs_Metadata :: metadata

definition zero_XResult :: XResult where
  "zero_XResult = \<lparr>xs_Output = [], xs_ExitCode = 0, xs_Error = '''', xs_Metadata = Map.empty\<rparr>"

definition XNewResult :: XResult where
  "XNewResult = zero_XResult"

definition XSuccess :: "bytes \<Rightarrow> XResult" where
  "XSuccess out = zero_XResult\<lparr>xs_Output := out\<rparr>"

definition XFailure :: "string \<Rightarrow> int \<Rightarrow> XResult" where
  "XFailure err code = zero_XResult\<lparr>xs_Error := err, xs_ExitCode := code\<rparr>"

section \<open>The executor interface\<close>

text \<open>
  Errors of executing and of validating. A Go function that returns \<open>(Result, error)\<close> returns both:
  the error is an option beside the result.
\<close>

datatype exec_error = PayloadParseError string | UnknownExecutorType string | ExecFailed string

datatype validate_error =
    InvalidPayload string
  | CommandRequired
  | CommandBlocked string
  | CommandNotAllowed string
  | UnknownValidator string
  | PayloadRejected string

text \<open>Of a \<open>context.Context\<close> the model keeps the time left until its deadline, if it has one.\<close>

type_synonym ctx = "duration option"

definition WithTimeout :: "ctx \<Rightarrow> duration \<Rightarrow> ctx" where
  "WithTimeout ctx timeout = Some (case ctx of None \<Rightarrow> timeout | Some d \<Rightarrow> min d timeout)"

record 'w Executor =
  exec_Name :: string
  exec_Execute :: "ctx \<Rightarrow> XTask \<Rightarrow> 'w \<Rightarrow> (XResult \<times> exec_error option) \<times> 'w"
  exec_Validate :: "bytes \<Rightarrow> validate_error option"
  exec_HealthCheck :: "ctx \<Rightarrow> 'w \<Rightarrow> string option \<times> 'w"

section \<open>The registry of executors\<close>

record 'w Registry =
  executors :: "string \<rightharpoonup> 'w Executor"

definition NewRegistry :: "'w Registry" where
  "NewRegistry = \<lparr>executors = Map.empty\<rparr>"

definition Registry_Register :: "'w Executor \<Rightarrow> 'w Registry \<Rightarrow> 'w Registry" where
  "Registry_Register e r = r\<lparr>executors := (executors r)(exec_Name e \<mapsto> e)\<rparr>"

definition Registry_Get :: "string \<Rightarrow> 'w Registry \<Rightarrow> 'w Executor option" where
  "Registry_Get name r = executors r name"

text \<open>The keys in the order in which the runtime visits the table.\<close>

fun caps_loop :: "string list \<Rightarrow> (string \<rightharpoonup> 'w Executor) \<Rightarrow> string list \<Rightarrow> string list" where
  "caps_loop caps m [] = caps"
| "caps_loop caps m (k # ks) = caps_loop (if m k = None then caps else caps @ [k]) m ks"

definition Capabilities :: "string list \<Rightarrow> 'w Registry \<Rightarrow> string list" where
  "Capabilities ks r = caps_loop [] (executors r) ks"

definition Registry_Execute :: "ctx \<Rightarrow> XTask \<Rightarrow> 'w Registry \<Rightarrow> 'w \<Rightarrow> (XResult \<times> exec_error option) \<times> 'w" where
  "Registry_Execute ctx task r w =
     (case Registry_Get (xt_Type task) r of
        None \<Rightarrow> ((zero_XResult, Some (UnknownExecutorType (xt_Type task))), w)
      | Some e \<Rightarrow> exec_Execute e ctx task w)"

definition Registry_Validate :: "string \<Rightarrow> bytes \<Rightarrow> 'w Registry \<Rightarrow> validate_error option" where
  "Registry_Validate taskType payload r =
     (case Registry_Get taskType r of
        None \<Rightarrow> Some (UnknownValidator taskType)
      | Some e \<Rightarrow> exec_Validate e payload)"

text \<open>\<open>results\<close> maps each name to its error, \<open>Some None\<close> for a healthy executor.\<close>

fun health_loop ::
    "ctx \<Rightarrow> (string \<rightharpoonup> string option) \<Rightarrow> (string \<rightharpoonup> 'w Executor) \<Rightarrow> string list \<Rightarrow> 'w \<Rightarrow> (string \<rightharpoonup> string option) \<times> 'w" where
  "health_loop ctx results m [] w = (results, w)"
| "health_loop ctx results m (k # ks) w =
     (case m k of
        None \<Rightarrow> health_loop ctx results m ks w
      | Some e \<Rightarrow> (let (err, w') = exec_HealthCheck e ctx w in health_loop ctx (results(k \<mapsto> err)) m ks w'))"

definition HealthCheckAll :: "ctx \<Rightarrow> string list \<Rightarrow> 'w Registry \<Rightarrow> 'w \<Rightarrow> (string \<rightharpoonup> string option) \<times> 'w" where
  "HealthCheckAll ctx ks r w = health_loop ctx Map.empty (executors r) ks w"

section \<open>The command executor\<close>

record CommandPayload =
  cp_Command :: string
  cp_Args :: "string list"
  cp_Env :: metadata
  cp_WorkingDir :: string
  cp_Stdin :: string

record CommandExecutor =
  ce_AllowedCommands :: "string list"
  ce_BlockedCommands :: "string list"

definition NewCommandExecutor :: CommandExecutor where
  "NewCommandExecutor = \<lparr>ce_AllowedCommands = [], ce_BlockedCommands = []\<rparr>"

definition NewCommandExecutorWithLimits :: "string list \<Rightarrow> string list \<Rightarrow> CommandExecutor" where
  "NewCommandExecutorWithLimits allowed blocked =
     \<lparr>ce_AllowedCommands = allowed, ce_BlockedCommands = blocked\<rparr>"

definition CommandExecutor_Name :: "CommandExecutor \<Rightarrow> string" where
  "CommandExecutor_Name e = ''command''"

text \<open>The two loops of \<open>Validate\<close>: leave at the first match.\<close>

fun is_listed :: "string \<Rightarrow> string list \<Rightarrow> bool" where
  "is_listed c [] = False"
| "is_listed c (x # xs) = (if c = x then True else is_listed c xs)"

definition CommandExecutor_Validate ::
    "(bytes \<Rightarrow> string + CommandPayload) \<Rightarrow> CommandExecutor \<Rightarrow> bytes \<Rightarrow> validate_error option" where
  "CommandExecutor_Validate unmarshal e payload =
     (case unmarshal payload of
        Inl err \<Rightarrow> Some (InvalidPayload err)
      | Inr p \<Rightarrow>
          if cp_Command p = '''' then Some CommandRequired
          else if 0 < length (ce_BlockedCommands e) \<and> is_listed (cp_Command p) (ce_BlockedCommands e)
          then Some (CommandBlocked (cp_Command p))
          else if 0 < length (ce_AllowedCommands e) \<and> \<not> is_listed (cp_Command p) (ce_AllowedCommands e)
          then Some (CommandNotAllowed (cp_Command p))
          else None)"

text \<open>
  An \<open>exec.Cmd\<close> as the executor sets it up (\<open>None\<close> is the zero value of a field), and what
  \<open>cmd.Run\<close> leaves behind: the two buffers, its error, and \<open>ctx.Err()\<close> afterwards.
\<close>

record Cmd =
  cmd_Ctx :: ctx
  cmd_Path :: string
  cmd_Args :: "string list"
  cmd_Dir :: string
  cmd_Env :: "string list option"
  cmd_Stdin :: "string option"

datatype run_error = RunOK | ExitError int | RunError string

record RunOutcome =
  ro_Stdout :: bytes
  ro_Stderr :: string
  ro_Err :: run_error
  ro_CtxErr :: "string option"

fun env_loop :: "string list \<Rightarrow> metadata \<Rightarrow> string list \<Rightarrow> string list" where
  "env_loop env m [] = env"
| "env_loop env m (k # ks) =
     (case m k of None \<Rightarrow> env_loop env m ks | Some v \<Rightarrow> env_loop (env @ [k @ ''='' @ v]) m ks)"

definition build_cmd :: "ctx \<Rightarrow> string list \<Rightarrow> string list \<Rightarrow> CommandPayload \<Rightarrow> Cmd" where
  "build_cmd ctx environ ks p = \<lparr>cmd_Ctx = ctx, cmd_Path = cp_Command p, cmd_Args = cp_Args p,
     cmd_Dir = (if cp_WorkingDir p \<noteq> '''' then cp_WorkingDir p else ''''),
     cmd_Env = (if 0 < go_len (cp_Env p) then Some (env_loop environ (cp_Env p) ks) else None),
     cmd_Stdin = (if cp_Stdin p \<noteq> '''' then Some (cp_Stdin p) else None)\<rparr>"

definition build_result :: "RunOutcome \<Rightarrow> XResult" where
  "build_result out =
     (let result = \<lparr>xs_Output = ro_Stdout out, xs_ExitCode = 0, xs_Error = '''',
            xs_Metadata = [''stderr'' \<mapsto> ro_Stderr out]\<rparr>
      in case ro_Err out of
           RunOK \<Rightarrow> result
         | ExitError code \<Rightarrow> result\<lparr>xs_ExitCode := code,
             xs_Error := ''command exited with code '' @ show_int code\<rparr>
         | RunError msg \<Rightarrow>
             (case ro_CtxErr out of
                Some e \<Rightarrow> result\<lparr>xs_ExitCode := -1, xs_Error := e\<rparr>
              | None \<Rightarrow> result\<lparr>xs_Error := msg, xs_ExitCode := -1\<rparr>))"

definition CommandExecutor_Execute ::
    "(bytes \<Rightarrow> string + CommandPayload) \<Rightarrow> string list \<Rightarrow> (metadata \<Rightarrow> string list) \<Rightarrow>
     (Cmd \<Rightarrow> 'w \<Rightarrow> RunOutcome \<times> 'w) \<Rightarrow> CommandExecutor \<Rightarrow> ctx \<Rightarrow> XTask \<Rightarrow> 'w \<Rightarrow>
     (XResult \<times> exec_error option) \<times> 'w" where
  "CommandExecutor_Execute unmarshal environ order run e ctx task w =
     (case unmarshal (xt_Payload task) of
        Inl err \<Rightarrow> ((zero_XResult, Some (PayloadParseError err)), w)
      | Inr p \<Rightarrow>
          (let (out, w') = run (build_cmd ctx environ (order (cp_Env p)) p) w
           in ((build_result out, None), w')))"

definition CommandExecutor_HealthCheck ::
    "(Cmd \<Rightarrow> 'w \<Rightarrow> RunOutcome \<times> 'w) \<Rightarrow> ctx \<Rightarrow> 'w \<Rightarrow> string option \<times> 'w" where
  "CommandExecutor_HealthCheck run ctx w =
     (let (out, w') = run \<lparr>cmd_Ctx = ctx, cmd_Path = ''true'', cmd_Args = [], cmd_Dir = '''', cmd_Env = None,
            cmd_Stdin = None\<rparr> w
      in (case ro_Err out of
            RunOK \<Rightarrow> None
          | ExitError code \<Rightarrow> Some (''exit status '' @ show_int code)
          | RunError msg \<Rightarrow> Some msg, w'))"

text \<open>The command executor behind the interface.\<close>

definition command_executor ::
    "(bytes \<Rightarrow> string + CommandPayload) \<Rightarrow> string list \<Rightarrow> (metadata \<Rightarrow> string list) \<Rightarrow>
     (Cmd \<Rightarrow> 'w \<Rightarrow> RunOutcome \<times> 'w) \<Rightarrow> CommandExecutor \<Rightarrow> 'w Executor" where
  "command_executor unmarshal environ order run e =
     \<lparr>exec_Name = CommandExecutor_Name e,
      exec_Execute = CommandExecutor_Execute unmarshal environ order run e,
      exec_Validate = CommandExecutor_Validate unmarshal e,
      exec_HealthCheck = CommandExecutor_HealthCheck run\<rparr>"

definition NewDefaultRegistry ::
    "(bytes \<Rightarrow> string + CommandPayload) \<Rightarrow> string list \<Rightarrow> (metadata \<Rightarrow> string list) \<Rightarrow>
     (Cmd \<Rightarrow> 'w \<Rightarrow> RunOutcome \<times> 'w) \<Rightarrow> 'w Registry" where
  "NewDefaultRegistry unmarshal environ order run =
     Registry_Register (command_executor unmarshal environ order run NewCommandExecutor) NewRegistry"

section \<open>The interface of a registry\<close>

locale named_directory =
  fixes put :: "'e \<Rightarrow> 'r \<Rightarrow> 'r"
    and get :: "string \<Rightarrow> 'r \<Rightarrow> 'e option"
    and name :: "'e \<Rightarrow> string"
  assumes get_put: "get n (put e r) = (if n = name e then Some e else get n r)"
begin

lemma get_put_same: "get (name e) (put e r) = Some e"
  by (simp add: get_put)

lemma get_put_other: "n \<noteq> name e \<Longrightarrow> get n (put e r) = get n r"
  by (simp add: get_put)

lemma put_replaces: "name e = name e' \<Longrightarrow> get n (put e (put e' r)) = get n (put e r)"
  by (simp add: get_put)

end

interpretation registry: named_directory Registry_Register Registry_Get exec_Name
  by unfold_locales (simp add: Registry_Register_def Registry_Get_def)

lemma Registry_Execute_registered:
  "Registry_Execute ctx task (Registry_Register e r) w =
   (if xt_Type task = exec_Name e then exec_Execute e ctx task w else Registry_Execute ctx task r w)"
  by (simp add: Registry_Execute_def registry.get_put)

lemma command_executor_sel [simp]:
  "exec_Name (command_executor u env ord run e) = ''command''"
  "exec_Execute (command_executor u env ord run e) = CommandExecutor_Execute u env ord run e"
  "exec_Validate (command_executor u env ord run e) = CommandExecutor_Validate u e"
  "exec_HealthCheck (command_executor u env ord run e) = CommandExecutor_HealthCheck run"
  by (simp_all add: command_executor_def CommandExecutor_Name_def)

section \<open>What the registry and the command executor promise\<close>

lemma caps_loop_filter: "caps_loop caps m ks = caps @ filter (\<lambda>k. m k \<noteq> None) ks"
  by (induction ks arbitrary: caps) auto

lemma set_Capabilities:
  "iterates ks (executors r) \<Longrightarrow> distinct (Capabilities ks r) \<and> set (Capabilities ks r) = dom (executors r)"
  by (auto simp: Capabilities_def caps_loop_filter iterates_def dom_def)

lemma is_listed_iff [simp]: "is_listed c xs \<longleftrightarrow> c \<in> set xs"
  by (induction xs) auto

text \<open>The policy that the two lists express: named, not blocked, and allowed if there is a list.\<close>

definition permitted :: "CommandExecutor \<Rightarrow> string \<Rightarrow> bool" where
  "permitted e c \<longleftrightarrow> c \<noteq> '''' \<and> c \<notin> set (ce_BlockedCommands e) \<and>
     (ce_AllowedCommands e = [] \<or> c \<in> set (ce_AllowedCommands e))"

text \<open>\<open>Validate\<close> accepts exactly the payloads that parse and whose command the policy
  permits, and a refusal names the first rule that the payload breaks.\<close>

theorem Validate_policy:
  "CommandExecutor_Validate unmarshal e payload =
     (case unmarshal payload of
        Inl err \<Rightarrow> Some (InvalidPayload err)
      | Inr p \<Rightarrow> if permitted e (cp_Command p) then None
                else Some (if cp_Command p = '''' then CommandRequired
                           else if cp_Command p \<in> set (ce_BlockedCommands e) then CommandBlocked (cp_Command p)
                           else CommandNotAllowed (cp_Command p)))"
  by (auto simp: CommandExecutor_Validate_def permitted_def split: sum.splits)

text \<open>Claim C28: The lists restrain \<open>Validate\<close> only. Executing a task through the registry, which
  never calls \<open>Validate\<close>, does the same with any lists as with none: a command that \<open>Validate\<close>
  refuses as blocked is run, with the arguments, directory and input of its payload.\<close>

theorem blocked_command_runs:
  assumes "unmarshal (xt_Payload task) = Inr p" and "xt_Type task = ''command''"
    and "CommandExecutor_Validate unmarshal e (xt_Payload task) = Some (CommandBlocked (cp_Command p))"
  shows "let r = Registry_Register (command_executor unmarshal environ order run e) NewRegistry;
             (out, w') = run (build_cmd ctx environ (order (cp_Env p)) p) w
    in Registry_Validate ''command'' (xt_Payload task) r = Some (CommandBlocked (cp_Command p)) \<and>
       Registry_Execute ctx task r w = ((build_result out, None), w') \<and>
       Registry_Execute ctx task r w = Registry_Execute ctx task (NewDefaultRegistry unmarshal environ order run) w"
  using assms
  by (simp add: Let_def case_prod_beta NewDefaultRegistry_def Registry_Execute_registered
      CommandExecutor_Execute_def Registry_Validate_def registry.get_put_same
      registry.get_put)

theorem blocked_command_runs_witness:
  "let parse = (\<lambda>_. Inr \<lparr>cp_Command = ''rm'', cp_Args = [''-rf''], cp_Env = Map.empty,
         cp_WorkingDir = '''', cp_Stdin = ''''\<rparr>);
       task = \<lparr>xt_ID = ''t'', xt_Type = ''command'', xt_Payload = [1], xt_Metadata = Map.empty\<rparr>;
       run = (\<lambda>c log. (\<lparr>ro_Stdout = [], ro_Stderr = '''', ro_Err = RunOK, ro_CtxErr = None\<rparr>, cmd_Path c # log));
       r = Registry_Register (command_executor parse [] (\<lambda>_. []) run
             (NewCommandExecutorWithLimits [] [''rm''])) NewRegistry
   in snd (Registry_Execute None task r []) = [''rm'']"
proof -
  let ?p = "\<lparr>cp_Command = ''rm'', cp_Args = [''-rf''], cp_Env = Map.empty, cp_WorkingDir = '''', cp_Stdin = ''''\<rparr>"
  let ?task = "\<lparr>xt_ID = ''t'', xt_Type = ''command'', xt_Payload = [1], xt_Metadata = Map.empty\<rparr>"
  let ?run = "\<lambda>c log. (\<lparr>ro_Stdout = [], ro_Stderr = '''', ro_Err = RunOK, ro_CtxErr = None\<rparr>, cmd_Path c # log)"
  have "CommandExecutor_Validate (\<lambda>_. Inr ?p) (NewCommandExecutorWithLimits [] [''rm'']) (xt_Payload ?task) =
      Some (CommandBlocked (cp_Command ?p))"
    by (simp add: CommandExecutor_Validate_def NewCommandExecutorWithLimits_def)
  from blocked_command_runs [OF _ _ this, of "[]" "\<lambda>_. []" ?run None "[]"] show ?thesis
    by (simp add: Let_def build_cmd_def)
qed

text \<open>A result reports success, no error text and exit code 0, exactly when the command
  ran and exited with 0; an exit with another code is reported with that code, and a command that
  could not run or was stopped by its context has code -1.\<close>

theorem build_result_success:
  assumes "\<And>c. ro_Err out = ExitError c \<Longrightarrow> c \<noteq> 0"
  shows "(xs_Error (build_result out) = '''' \<and> xs_ExitCode (build_result out) = 0) = (ro_Err out = RunOK) \<and>
    xs_Output (build_result out) = ro_Stdout out \<and>
    xs_ExitCode (build_result out) =
      (case ro_Err out of RunOK \<Rightarrow> 0 | ExitError c \<Rightarrow> c | RunError msg \<Rightarrow> -1)"
  using assms
  by (cases "ro_Err out") (auto simp: build_result_def Let_def split: option.splits)

theorem build_result_success_witness:
  "xs_ExitCode (build_result \<lparr>ro_Stdout = [], ro_Stderr = '''', ro_Err = ExitError 2, ro_CtxErr = None\<rparr>) = 2"
  using build_result_success [of "\<lparr>ro_Stdout = [], ro_Stderr = '''', ro_Err = ExitError 2, ro_CtxErr = None\<rparr>"]
  by simp

lemma env_loop_eq:
  "env_loop env m ks = env @ map (\<lambda>k. k @ ''='' @ the (m k)) (filter (\<lambda>k. m k \<noteq> None) ks)"
  by (induction ks arbitrary: env) (auto split: option.splits)

lemma health_loop_dom: "dom (fst (health_loop ctx results m ks w)) = dom results \<union> (set ks \<inter> dom m)"
  by (induction ks arbitrary: results w) (auto simp: Let_def split: option.splits prod.splits)

lemma HealthCheckAll_dom:
  "iterates ks (executors r) \<Longrightarrow> dom (fst (HealthCheckAll ctx ks r w)) = dom (executors r)"
  by (simp add: HealthCheckAll_def health_loop_dom iterates_def)

end
