(* ===== verification/Runner.thy ===== *)
theory Runner
  imports Executor
begin

text \<open>
  \<open>internal/worker/runner.go\<close>: the task runner of a worker. A \<open>context.WithTimeout\<close> is a fresh
  number; its cancel function adds the number to \<open>tr_cancelled\<close>. \<open>Run\<close> is given twice: as the
  steps of a goroutine, each one atomic operation or critical section of the code, and as the
  sequential function that results when nothing interferes.
\<close>

section \<open>State\<close>

datatype runner_error = ErrAtCapacity | ExecuteError exec_error

type_synonym run_result = "XResult \<times> runner_error option"

record TaskRunner =
  tr_maxTasks :: int
  tr_activeTasks :: int
  tr_running :: "string \<rightharpoonup> nat"
  tr_wg :: int
  tr_nextCtx :: nat
  tr_cancelled :: "nat set"

definition NewTaskRunner :: "int \<Rightarrow> TaskRunner" where
  "NewTaskRunner maxConcurrentTasks =
     \<lparr>tr_maxTasks = (if maxConcurrentTasks \<le> 0 then 10 else maxConcurrentTasks), tr_activeTasks = 0,
      tr_running = Map.empty, tr_wg = 0, tr_nextCtx = 0, tr_cancelled = {}\<rparr>"

section \<open>Operations\<close>

text \<open>
  \<open>Run\<close>: \<open>RunCheck\<close> reads the counter and makes the context; \<open>RunTrack\<close>, \<open>RunAdd\<close>,
  \<open>RunWgAdd\<close> enter the task in the three books; \<open>RunExecute\<close> is \<open>registry.Execute\<close>, whose
  outcome is an argument; the rest is the deferred function.
\<close>

datatype run_pc =
    RunCheck XTask
  | RunTrack XTask nat
  | RunAdd XTask nat
  | RunWgAdd XTask nat
  | RunExecute XTask nat
  | RunDelete XTask nat run_result
  | RunSub XTask nat run_result
  | RunWgDone XTask nat run_result
  | RunCancel XTask nat run_result

fun run_step :: "XResult \<times> exec_error option \<Rightarrow> run_pc \<Rightarrow> TaskRunner \<Rightarrow> (run_pc + run_result) \<times> TaskRunner" where
  "run_step out (RunCheck task) r =
     (if tr_maxTasks r \<le> tr_activeTasks r then (Inr (zero_XResult, Some ErrAtCapacity), r)
      else (Inl (RunTrack task (tr_nextCtx r)), r\<lparr>tr_nextCtx := Suc (tr_nextCtx r)\<rparr>))"
| "run_step out (RunTrack task ctx) r =
     (Inl (RunAdd task ctx), r\<lparr>tr_running := (tr_running r)(xt_ID task \<mapsto> ctx)\<rparr>)"
| "run_step out (RunAdd task ctx) r =
     (Inl (RunWgAdd task ctx), r\<lparr>tr_activeTasks := wrap64 (tr_activeTasks r + 1)\<rparr>)"
| "run_step out (RunWgAdd task ctx) r = (Inl (RunExecute task ctx), r\<lparr>tr_wg := tr_wg r + 1\<rparr>)"
| "run_step out (RunExecute task ctx) r =
     (Inl (RunDelete task ctx (fst out, map_option ExecuteError (snd out))), r)"
| "run_step out (RunDelete task ctx res) r =
     (Inl (RunSub task ctx res), r\<lparr>tr_running := go_delete (xt_ID task) (tr_running r)\<rparr>)"
| "run_step out (RunSub task ctx res) r =
     (Inl (RunWgDone task ctx res), r\<lparr>tr_activeTasks := wrap64 (tr_activeTasks r - 1)\<rparr>)"
| "run_step out (RunWgDone task ctx res) r = (Inl (RunCancel task ctx res), r\<lparr>tr_wg := tr_wg r - 1\<rparr>)"
| "run_step out (RunCancel task ctx res) r = (Inr res, r\<lparr>tr_cancelled := insert ctx (tr_cancelled r)\<rparr>)"

definition run_enter :: "XTask \<Rightarrow> nat \<Rightarrow> TaskRunner \<Rightarrow> TaskRunner" where
  "run_enter task ctx r = r\<lparr>tr_nextCtx := Suc ctx, tr_running := (tr_running r)(xt_ID task \<mapsto> ctx),
     tr_activeTasks := wrap64 (tr_activeTasks r + 1), tr_wg := tr_wg r + 1\<rparr>"

definition run_leave :: "XTask \<Rightarrow> nat \<Rightarrow> TaskRunner \<Rightarrow> TaskRunner" where
  "run_leave task ctx r = r\<lparr>tr_running := go_delete (xt_ID task) (tr_running r),
     tr_activeTasks := wrap64 (tr_activeTasks r - 1), tr_wg := tr_wg r - 1,
     tr_cancelled := insert ctx (tr_cancelled r)\<rparr>"

definition Run :: "'w Registry \<Rightarrow> ctx \<Rightarrow> XTask \<Rightarrow> duration \<Rightarrow> TaskRunner \<Rightarrow> 'w \<Rightarrow> run_result \<times> TaskRunner \<times> 'w" where
  "Run reg ctx task timeout r w =
     (if tr_maxTasks r \<le> tr_activeTasks r then ((zero_XResult, Some ErrAtCapacity), r, w)
      else
        let n = tr_nextCtx r;
            ((result, err), w') = Registry_Execute (WithTimeout ctx timeout) task reg w
        in ((result, map_option ExecuteError err), run_leave task n (run_enter task n r), w'))"

definition Runner_CancelTask :: "string \<Rightarrow> TaskRunner \<Rightarrow> bool \<times> TaskRunner" where
  "Runner_CancelTask taskID r =
     (case tr_running r taskID of
        Some ctx \<Rightarrow> (True, r\<lparr>tr_cancelled := insert ctx (tr_cancelled r)\<rparr>)
      | None \<Rightarrow> (False, r))"

definition ActiveCount :: "TaskRunner \<Rightarrow> int" where
  "ActiveCount r = tr_activeTasks r"

definition MaxTasks :: "TaskRunner \<Rightarrow> int" where
  "MaxTasks r = tr_maxTasks r"

definition Runner_Capabilities :: "string list \<Rightarrow> 'w Registry \<Rightarrow> string list" where
  "Runner_Capabilities ks reg = Capabilities ks reg"

definition Runner_HealthCheck :: "ctx \<Rightarrow> string list \<Rightarrow> 'w Registry \<Rightarrow> 'w \<Rightarrow> (string \<rightharpoonup> string option) \<times> 'w" where
  "Runner_HealthCheck ctx ks reg w = HealthCheckAll ctx ks reg w"

text \<open>
  \<open>WaitForDrain\<close>: the select waits until one of its cases is ready; \<open>ctx_done\<close> says whether the
  drain context has ended, \<open>pick_done\<close> which case Go picks when both are ready, and \<open>ks\<close> is the
  order of the table. A step that has to wait stays where it is.
\<close>

datatype drain_pc = DrainSelect | DrainCancelAll | DrainWaitAgain

fun cancel_loop :: "string list \<Rightarrow> TaskRunner \<Rightarrow> TaskRunner" where
  "cancel_loop [] r = r"
| "cancel_loop (k # ks) r = cancel_loop ks
     (case tr_running r k of None \<Rightarrow> r | Some ctx \<Rightarrow> r\<lparr>tr_cancelled := insert ctx (tr_cancelled r)\<rparr>)"

fun drain_step :: "bool \<Rightarrow> bool \<Rightarrow> string list \<Rightarrow> drain_pc \<Rightarrow> TaskRunner \<Rightarrow> drain_pc option \<times> TaskRunner" where
  "drain_step ctx_done pick_done ks DrainSelect r =
     (if tr_wg r = 0 then (if ctx_done \<and> \<not> pick_done then Some DrainCancelAll else None, r)
      else (Some (if ctx_done then DrainCancelAll else DrainSelect), r))"
| "drain_step ctx_done pick_done ks DrainCancelAll r = (Some DrainWaitAgain, cancel_loop ks r)"
| "drain_step ctx_done pick_done ks DrainWaitAgain r = (if tr_wg r = 0 then None else Some DrainWaitAgain, r)"

section \<open>One run without interference\<close>

fun run_all :: "nat \<Rightarrow> XResult \<times> exec_error option \<Rightarrow> run_pc \<Rightarrow> TaskRunner \<Rightarrow> (run_result \<times> TaskRunner) option" where
  "run_all 0 out p r = None"
| "run_all (Suc n) out p r =
     (case run_step out p r of (Inr res, r') \<Rightarrow> Some (res, r') | (Inl p', r') \<Rightarrow> run_all n out p' r')"

lemma run_all_Run:
  "run_all 9 (fst (Registry_Execute (WithTimeout ctx timeout) task reg w)) (RunCheck task) r =
   Some (fst (Run reg ctx task timeout r w), fst (snd (Run reg ctx task timeout r w)))"
  by (cases "Registry_Execute (WithTimeout ctx timeout) task reg w")
     (auto simp: eval_nat_numeral Run_def Let_def run_enter_def run_leave_def)

lemma wrap64_add_wrap: "wrap64 (wrap64 a + b) = wrap64 (a + b)"
  unfolding wrap64_def by (metis signed_take_bit_add signed_take_bit_signed_take_bit min.idem)

lemma wrap64_diff_wrap: "wrap64 (wrap64 a - b) = wrap64 (a - b)"
  using wrap64_add_wrap [of a "- b"] by simp

text \<open>Claim C27: A run that is not disturbed ends after nine steps of its goroutine with the result
  of the sequential \<open>Run\<close>: at capacity it refuses and changes nothing, and otherwise it returns
  what the registry's executor returned and leaves both counters as it found them, its table entry
  removed and its context cancelled.\<close>

theorem Run_outcome:
  assumes "in64 (tr_activeTasks r)"
  shows "run_all 9 (fst (Registry_Execute (WithTimeout ctx timeout) task reg w)) (RunCheck task) r =
      Some (fst (Run reg ctx task timeout r w), fst (snd (Run reg ctx task timeout r w))) \<and>
    (let (res, r', w') = Run reg ctx task timeout r w; (out, w1) = Registry_Execute (WithTimeout ctx timeout) task reg w
     in if tr_maxTasks r \<le> tr_activeTasks r
        then res = (zero_XResult, Some ErrAtCapacity) \<and> r' = r \<and> w' = w
        else res = (fst out, map_option ExecuteError (snd out)) \<and> w' = w1 \<and>
             tr_activeTasks r' = tr_activeTasks r \<and> tr_wg r' = tr_wg r \<and>
             tr_running r' = (tr_running r)(xt_ID task := None) \<and>
             tr_cancelled r' = insert (tr_nextCtx r) (tr_cancelled r))"
proof -
  have "wrap64 (wrap64 (tr_activeTasks r + 1) - 1) = tr_activeTasks r"
    using assms by (simp add: wrap64_diff_wrap wrap64_id)
  then show ?thesis
    unfolding run_all_Run
    by (auto simp: Run_def case_prod_beta Let_def run_enter_def run_leave_def go_delete_def)
qed

theorem Run_outcome_witness:
  "let task = \<lparr>xt_ID = ''t'', xt_Type = ''http'', xt_Payload = [], xt_Metadata = Map.empty\<rparr>;
       (res, r', w') = Run NewRegistry None task second (NewTaskRunner 1) ()
   in res = (zero_XResult, Some (ExecuteError (UnknownExecutorType ''http''))) \<and> tr_activeTasks r' = 0"
proof -
  have "in64 (tr_activeTasks (NewTaskRunner 1))" by (simp add: NewTaskRunner_def in64_def)
  from Run_outcome [OF this, of None second "\<lparr>xt_ID = ''t'', xt_Type = ''http'', xt_Payload = [], xt_Metadata = Map.empty\<rparr>"
      NewRegistry "()"]
  show ?thesis
    by (simp add: Let_def case_prod_beta Registry_Execute_def Registry_Get_def NewRegistry_def del: run_all.simps)
       (simp add: NewTaskRunner_def)
qed

section \<open>Concurrent runs\<close>

record RunnerSys =
  rs_runner :: TaskRunner
  rs_go :: "nat \<rightharpoonup> run_pc"

datatype runner_label =
  CallRun nat XTask | StepRun nat "XResult \<times> exec_error option" | CallCancel string | CancelAll "string list"

fun continue_run :: "run_pc + run_result \<Rightarrow> run_pc option" where
  "continue_run (Inl p) = Some p"
| "continue_run (Inr res) = None"

inductive runner_step :: "RunnerSys \<Rightarrow> runner_label \<Rightarrow> RunnerSys \<Rightarrow> bool" where
  runner_call: "rs_go s g = None \<Longrightarrow>
    runner_step s (CallRun g task) (s\<lparr>rs_go := (rs_go s)(g \<mapsto> RunCheck task)\<rparr>)"
| runner_go: "rs_go s g = Some p \<Longrightarrow> run_step out p (rs_runner s) = (c, r') \<Longrightarrow>
    runner_step s (StepRun g out) (s\<lparr>rs_runner := r', rs_go := (rs_go s)(g := continue_run c)\<rparr>)"
| runner_cancel: "runner_step s (CallCancel i) (s\<lparr>rs_runner := snd (Runner_CancelTask i (rs_runner s))\<rparr>)"
| runner_drain: "runner_step s (CancelAll ks) (s\<lparr>rs_runner := cancel_loop ks (rs_runner s)\<rparr>)"

inductive_cases runner_stepE: "runner_step s l t"

definition runner_init :: "RunnerSys \<Rightarrow> bool" where
  "runner_init s \<longleftrightarrow> (\<exists>n. rs_runner s = NewTaskRunner n) \<and> rs_go s = Map.empty"

text \<open>Where a goroutine is counted by \<open>activeTasks\<close>, and where by the wait group.\<close>

fun counted :: "run_pc option \<Rightarrow> bool" where
  "counted (Some (RunWgAdd task ctx)) = True"
| "counted (Some (RunExecute task ctx)) = True"
| "counted (Some (RunDelete task ctx res)) = True"
| "counted (Some (RunSub task ctx res)) = True"
| "counted _ = False"

fun awaited :: "run_pc option \<Rightarrow> bool" where
  "awaited (Some (RunExecute task ctx)) = True"
| "awaited (Some (RunDelete task ctx res)) = True"
| "awaited (Some (RunSub task ctx res)) = True"
| "awaited (Some (RunWgDone task ctx res)) = True"
| "awaited _ = False"

definition tally :: "(run_pc option \<Rightarrow> bool) \<Rightarrow> (nat \<rightharpoonup> run_pc) \<Rightarrow> int" where
  "tally Q go = int (card {g. Q (go g)})"

lemma tally_upd:
  assumes "finite (dom go)" and "\<not> Q None"
  shows "tally Q (go(g := p)) = tally Q go - (if Q (go g) then 1 else 0) + (if Q p then 1 else 0)"
proof -
  have sub: "{h. Q (go h)} \<subseteq> dom go" using assms(2) by (metis (mono_tags) domIff mem_Collect_eq subsetI)
  then have fin: "finite {h. Q (go h)}" by (rule finite_subset [OF _ assms(1)])
  have eq: "{h. Q ((go(g := p)) h)} = (if Q p then insert g ({h. Q (go h)} - {g}) else {h. Q (go h)} - {g})"
    by auto
  have "int (card ({h. Q (go h)} - {g})) = int (card {h. Q (go h)}) - (if Q (go g) then 1 else 0)"
  proof (cases "Q (go g)")
    case True
    then have g: "g \<in> {h. Q (go h)}" by simp
    from card_Suc_Diff1 [OF fin g] True show ?thesis by simp
  qed simp
  then show ?thesis
    unfolding tally_def eq using fin by (auto simp: insert_absorb)
qed

definition runner_inv :: "RunnerSys \<Rightarrow> bool" where
  "runner_inv s \<longleftrightarrow> finite (dom (rs_go s)) \<and>
     tr_activeTasks (rs_runner s) = wrap64 (tally counted (rs_go s)) \<and>
     tr_wg (rs_runner s) = tally awaited (rs_go s)"

lemma cancel_frame [frame, simp]:
  "tr_activeTasks (snd (Runner_CancelTask i r)) = tr_activeTasks r"
  "tr_wg (snd (Runner_CancelTask i r)) = tr_wg r"
  "tr_activeTasks (cancel_loop ks r) = tr_activeTasks r" "tr_wg (cancel_loop ks r) = tr_wg r"
  "tr_running (cancel_loop ks r) = tr_running r"
  by (induction ks arbitrary: r) (auto simp: Runner_CancelTask_def split: option.splits)

lemma runner_inv_go:
  assumes inv: "runner_inv s" and g: "rs_go s g = Some p"
    and step: "run_step out p (rs_runner s) = (c, r')"
  shows "runner_inv (s\<lparr>rs_runner := r', rs_go := (rs_go s)(g := continue_run c)\<rparr>)"
proof -
  have fin: "finite (dom (rs_go s))" using inv by (simp add: runner_inv_def)
  note up = tally_upd [OF fin, of counted g] tally_upd [OF fin, of awaited g]
  show ?thesis
    using inv g step
    by (cases p) (auto simp: runner_inv_def up wrap64_add_wrap wrap64_diff_wrap split: if_splits)
qed

lemma runner_inv_step:
  assumes inv: "runner_inv s" and step: "runner_step s l t"
  shows "runner_inv t"
  using step
proof cases
  case (runner_call g task)
  have fin: "finite (dom (rs_go s))" using inv by (simp add: runner_inv_def)
  with runner_call inv show ?thesis
    by (simp add: runner_inv_def tally_upd [OF fin])
next
  case runner_go
  with inv show ?thesis by (simp add: runner_inv_go)
qed (use inv in \<open>simp_all add: runner_inv_def\<close>)

lemma runner_inv_init: "runner_init s \<Longrightarrow> runner_inv s"
  by (auto simp: runner_init_def runner_inv_def NewTaskRunner_def tally_def)

interpretation runner: invariant_system runner_init runner_step runner_inv
  by unfold_locales (auto intro: runner_inv_init runner_inv_step)

section \<open>What every run of the worker's goroutines guarantees\<close>

lemma tally_zero:
  assumes "\<And>g. \<not> Q (go g)"
  shows "tally Q go = 0"
  using assms by (simp add: tally_def)

text \<open>In every interleaving of task executions, cancellations and the drain, the reported
  number of active tasks is the number of goroutines between their increment and their decrement
  (in 64 bits), the wait group counts exactly the goroutines that a drain has to wait for, and when
  no task is executing both are zero, so no slot is ever leaked.\<close>

theorem active_count_exact:
  assumes "reach runner_init runner_step s"
  shows "ActiveCount (rs_runner s) = wrap64 (int (card {g. counted (rs_go s g)})) \<and>
    tr_wg (rs_runner s) = int (card {g. awaited (rs_go s g)}) \<and>
    ((\<forall>g. rs_go s g = None) \<longrightarrow> ActiveCount (rs_runner s) = 0 \<and> tr_wg (rs_runner s) = 0)"
  using runner.reach_inva [OF assms]
  by (simp add: runner_inv_def ActiveCount_def tally_def)

text \<open>Two goroutines, stepped one after the other.\<close>

definition sample_xtask :: "string \<Rightarrow> XTask" where
  "sample_xtask i = \<lparr>xt_ID = i, xt_Type = ''command'', xt_Payload = [], xt_Metadata = Map.empty\<rparr>"

lemma reach_runner_goI:
  "reach ini runner_step s \<Longrightarrow> rs_go s g = Some p \<Longrightarrow> run_step out p (rs_runner s) = (c, r') \<Longrightarrow>
   t = s\<lparr>rs_runner := r', rs_go := (rs_go s)(g := continue_run c)\<rparr> \<Longrightarrow> reach ini runner_step t"
  by (blast intro: reach_step runner_go)

lemma reach_runner_callI:
  "reach ini runner_step s \<Longrightarrow> rs_go s g = None \<Longrightarrow>
   t = s\<lparr>rs_go := (rs_go s)(g \<mapsto> RunCheck task)\<rparr> \<Longrightarrow> reach ini runner_step t"
  by (blast intro: reach_step runner_call)

text \<open>A schedule: which goroutine takes the next step.\<close>

fun play :: "nat list \<Rightarrow> RunnerSys \<Rightarrow> RunnerSys" where
  "play [] s = s"
| "play (g # gs) s =
     (case rs_go s g of
        None \<Rightarrow> play gs s
      | Some p \<Rightarrow> (case run_step (zero_XResult, None) p (rs_runner s) of
                     (c, r') \<Rightarrow> play gs (s\<lparr>rs_runner := r', rs_go := (rs_go s)(g := continue_run c)\<rparr>)))"

lemma reach_play: "reach ini runner_step s \<Longrightarrow> reach ini runner_step (play gs s)"
  by (induction gs arbitrary: s) (auto split: option.splits prod.splits intro: reach_runner_goI)

definition two_calls :: "int \<Rightarrow> string \<Rightarrow> string \<Rightarrow> RunnerSys" where
  "two_calls n i j = \<lparr>rs_runner = NewTaskRunner n,
     rs_go = [0 \<mapsto> RunCheck (sample_xtask i), 1 \<mapsto> RunCheck (sample_xtask j)]\<rparr>"

lemma reach_two_calls: "reach runner_init runner_step (two_calls n i j)"
proof -
  let ?s0 = "\<lparr>rs_runner = NewTaskRunner n, rs_go = Map.empty\<rparr>"
  have r0: "reach runner_init runner_step ?s0"
    by (rule reach_init) (auto simp: runner_init_def)
  have r1: "reach runner_init runner_step (?s0\<lparr>rs_go := [0 \<mapsto> RunCheck (sample_xtask i)]\<rparr>)"
    by (rule reach_runner_callI [OF r0]) simp_all
  show ?thesis
    by (rule reach_runner_callI [OF r1, where g = 1]) (simp_all add: two_calls_def)
qed

theorem active_count_exact_witness:
  "ActiveCount (rs_runner (play [0, 0, 0] (two_calls 1 ''a'' ''b''))) =
   wrap64 (int (card {g. counted (rs_go (play [0, 0, 0] (two_calls 1 ''a'' ''b'')) g)}))"
  by (rule active_count_exact [OF reach_play [OF reach_two_calls], THEN conjunct1])

text \<open>The capacity check is not atomic with the increment that follows it: a worker
  configured for one task can be made to execute two at the same time.\<close>

theorem capacity_race:
  "\<exists>s. reach runner_init runner_step s \<and> MaxTasks (rs_runner s) = 1 \<and> ActiveCount (rs_runner s) = 2 \<and>
     (\<exists>t t' c c'. rs_go s 0 = Some (RunExecute t c) \<and> rs_go s 1 = Some (RunExecute t' c'))"
proof -
  let ?s = "play [0, 1, 0, 0, 0, 1, 1, 1] (two_calls 1 ''a'' ''b'')"
  have "MaxTasks (rs_runner ?s) = 1 \<and> ActiveCount (rs_runner ?s) = 2 \<and>
      (\<exists>t t' c c'. rs_go ?s 0 = Some (RunExecute t c) \<and> rs_go ?s 1 = Some (RunExecute t' c'))"
    by (simp add: two_calls_def NewTaskRunner_def MaxTasks_def ActiveCount_def wrap64_id in64_def)
  with reach_play [OF reach_two_calls] show ?thesis by blast
qed

text \<open>The book of cancel functions is keyed by task ID alone: when the same task is sent
  twice, the first execution to end removes the entry of the other, which then runs on although a
  cancel request answers that there is nothing to cancel.\<close>

theorem cancel_lost_on_duplicate:
  "\<exists>s t c. reach runner_init runner_step s \<and> rs_go s 1 = Some (RunExecute t c) \<and> xt_ID t = ''a'' \<and>
     Runner_CancelTask ''a'' (rs_runner s) = (False, rs_runner s) \<and> c \<notin> tr_cancelled (rs_runner s)"
proof -
  let ?s = "play [0, 0, 0, 0, 1, 1, 1, 1, 0, 0] (two_calls 2 ''a'' ''a'')"
  have "rs_go ?s 1 = Some (RunExecute (sample_xtask ''a'') 1) \<and>
      Runner_CancelTask ''a'' (rs_runner ?s) = (False, rs_runner ?s) \<and> 1 \<notin> tr_cancelled (rs_runner ?s)"
    by (simp add: two_calls_def NewTaskRunner_def Runner_CancelTask_def wrap64_id in64_def sample_xtask_def)
  moreover have "xt_ID (sample_xtask ''a'') = ''a''" by (simp add: sample_xtask_def)
  ultimately show ?thesis using reach_play [OF reach_two_calls] by blast
qed

section \<open>Draining\<close>

lemma cancel_loop_cancelled:
  "tr_cancelled (cancel_loop ks r) = tr_cancelled r \<union> {c. \<exists>k \<in> set ks. tr_running r k = Some c}"
  by (induction ks arbitrary: r) (auto split: option.splits)

text \<open>The drain ends only when the wait group is at zero, whichever way its select went, and
  when it has to give up waiting it cancels every context in the table before it waits again.\<close>

theorem drain_waits:
  assumes "iterates ks (tr_running r)"
  shows "(fst (drain_step ctx_done pick_done ks p r) = None \<longrightarrow> tr_wg r = 0) \<and>
    (p = DrainCancelAll \<longrightarrow> ran (tr_running r) \<subseteq> tr_cancelled (snd (drain_step ctx_done pick_done ks p r))) \<and>
    tr_activeTasks (snd (drain_step ctx_done pick_done ks p r)) = tr_activeTasks r"
  using assms
  by (cases p) (auto simp: cancel_loop_cancelled iterates_def ran_def dom_def)

theorem drain_waits_witness:
  "let r = rs_runner (play [0, 0, 0, 0] (two_calls 1 ''a'' ''b''))
   in 0 \<in> tr_cancelled (snd (drain_step True True [''a''] DrainCancelAll r))"
proof -
  let ?r = "rs_runner (play [0, 0, 0, 0] (two_calls 1 ''a'' ''b''))"
  have run: "tr_running ?r = [''a'' \<mapsto> 0]"
    by (simp add: two_calls_def NewTaskRunner_def wrap64_id in64_def sample_xtask_def)
  then have "iterates [''a''] (tr_running ?r)" by (simp add: iterates_def)
  from drain_waits [OF this, of True True DrainCancelAll] run show ?thesis by (simp add: Let_def)
qed


section \<open>The book of cancel functions\<close>

text \<open>Which entry of the book a goroutine has made and not yet removed.\<close>

fun tracks :: "run_pc option \<Rightarrow> (string \<times> nat) option" where
  "tracks (Some (RunAdd task ctx)) = Some (xt_ID task, ctx)"
| "tracks (Some (RunWgAdd task ctx)) = Some (xt_ID task, ctx)"
| "tracks (Some (RunExecute task ctx)) = Some (xt_ID task, ctx)"
| "tracks (Some (RunDelete task ctx res)) = Some (xt_ID task, ctx)"
| "tracks _ = None"

text \<open>An entry of the book belongs to a run that has not ended.\<close>

definition table_inv :: "RunnerSys \<Rightarrow> bool" where
  "table_inv s \<longleftrightarrow> (\<forall>i c. tr_running (rs_runner s) i = Some c \<longrightarrow> (\<exists>g. tracks (rs_go s g) = Some (i, c)))"

lemma table_invD: "table_inv s \<Longrightarrow> tr_running (rs_runner s) i = Some c \<Longrightarrow> \<exists>g. tracks (rs_go s g) = Some (i, c)"
  unfolding table_inv_def by blast

lemma run_step_running:
  "run_step out p r = (c, r') \<Longrightarrow> tr_running r' =
     (case p of RunTrack task ctx \<Rightarrow> (tr_running r)(xt_ID task \<mapsto> ctx)
      | RunDelete task ctx res \<Rightarrow> (tr_running r)(xt_ID task := None) | _ \<Rightarrow> tr_running r)"
  by (cases p) (auto simp: go_delete_def split: if_splits)

lemma run_step_tracks:
  "run_step out p r = (c, r') \<Longrightarrow> tracks (continue_run c) =
     (case p of RunTrack task ctx \<Rightarrow> Some (xt_ID task, ctx) | RunDelete task ctx res \<Rightarrow> None | _ \<Rightarrow> tracks (Some p))"
  by (cases p) (auto split: if_splits)

lemma table_inv_go:
  assumes inv: "table_inv s" and g: "rs_go s g = Some p" and step: "run_step out p (rs_runner s) = (c, r')"
  shows "table_inv (s\<lparr>rs_runner := r', rs_go := (rs_go s)(g := continue_run c)\<rparr>)"
  unfolding table_inv_def
proof (intro allI impI)
  let ?t = "s\<lparr>rs_runner := r', rs_go := (rs_go s)(g := continue_run c)\<rparr>"
  fix i k assume entry: "tr_running (rs_runner ?t) i = Some k"
  show "\<exists>h. tracks (rs_go ?t h) = Some (i, k)"
  proof (cases "tracks (continue_run c) = Some (i, k)")
    case True
    then show ?thesis by (intro exI [of _ g]) simp
  next
    case False
    then have old: "tr_running (rs_runner s) i = Some k" and "tracks (Some p) \<noteq> Some (i, k)"
      using entry run_step_running [OF step] run_step_tracks [OF step] by (auto split: run_pc.splits if_splits)
    obtain h where h: "tracks (rs_go s h) = Some (i, k)" using table_invD [OF inv old] by blast
    with \<open>tracks (Some p) \<noteq> Some (i, k)\<close> g have "h \<noteq> g" by auto
    with h show ?thesis by (intro exI [of _ h]) simp
  qed
qed

lemma cancel_keeps_running [simp]: "tr_running (snd (Runner_CancelTask i r)) = tr_running r"
  by (simp add: Runner_CancelTask_def split: option.split)

lemma table_inv_step:
  assumes inv: "table_inv s" and step: "runner_step s l t"
  shows "table_inv t"
  using step
proof cases
  case (runner_call g task)
  have "\<exists>h. tracks (((rs_go s)(g \<mapsto> RunCheck task)) h) = Some (i, c)" if entry: "tr_running (rs_runner s) i = Some c" for i c
  proof -
    obtain h where h: "tracks (rs_go s h) = Some (i, c)" using table_invD [OF inv entry] by blast
    with runner_call(3) have "h \<noteq> g" by auto
    with h show ?thesis by (intro exI [of _ h]) simp
  qed
  with runner_call show ?thesis by (simp add: table_inv_def)
next
  case runner_go
  with inv show ?thesis by (simp add: table_inv_go)
qed (use inv in \<open>simp_all add: table_inv_def\<close>)

interpretation book: invariant_system runner_init runner_step table_inv
proof unfold_locales
  fix s assume "runner_init s"
  then show "table_inv s" by (auto simp: runner_init_def table_inv_def NewTaskRunner_def)
qed (rule table_inv_step)

lemma idle_runner:
  assumes "reach runner_init runner_step s" and idle: "rs_go s = Map.empty"
  shows "tr_running (rs_runner s) = Map.empty" and "tr_activeTasks (rs_runner s) = 0" and "tr_wg (rs_runner s) = 0"
proof -
  have "tr_running (rs_runner s) i = None" for i
    using table_invD [OF book.reach_inva [OF assms(1)], of i] idle by (cases "tr_running (rs_runner s) i") auto
  then show "tr_running (rs_runner s) = Map.empty" by (simp add: fun_eq_iff)
  show "tr_activeTasks (rs_runner s) = 0" "tr_wg (rs_runner s) = 0"
    using runner.reach_inva [OF assms(1)] idle by (simp_all add: runner_inv_def tally_def)
qed


text \<open>How many steps a run has left at most.\<close>

fun run_left :: "run_pc \<Rightarrow> nat" where
  "run_left (RunCheck task) = 9"
| "run_left (RunTrack task ctx) = 8"
| "run_left (RunAdd task ctx) = 7"
| "run_left (RunWgAdd task ctx) = 6"
| "run_left (RunExecute task ctx) = 5"
| "run_left (RunDelete task ctx res) = 4"
| "run_left (RunSub task ctx res) = 3"
| "run_left (RunWgDone task ctx res) = 2"
| "run_left (RunCancel task ctx res) = 1"

lemma run_left_step: "run_step out p r = (Inl q, r') \<Longrightarrow> run_left q < run_left p"
  by (cases p) (auto split: if_splits)

end
