(* ===== verification/Registration.thy ===== *)
theory Registration
  imports Proto
begin

text \<open>
  \<open>internal/worker/registration.go\<close>: how a worker joins a master and keeps itself known. The
  master at the other end of the connection is a record of functions on a state \<open>'s\<close>; that the
  master of this repository is such a service is shown where both are in scope.
\<close>

section \<open>The remote master\<close>

record ('conn, 's) MasterRPC =
  rpc_dial :: "string \<Rightarrow> string + 'conn"
  rpc_register :: "'conn \<Rightarrow> RegisterRequest \<Rightarrow> 's \<Rightarrow> (grpc_error + RegisterResponse) \<times> 's"
  rpc_deregister :: "'conn \<Rightarrow> string \<Rightarrow> 's \<Rightarrow> (grpc_error + bool) \<times> 's"
  rpc_heartbeat :: "'conn \<Rightarrow> HeartbeatRequest \<Rightarrow> 's \<Rightarrow> (grpc_error + HeartbeatResponse) \<times> 's"

datatype registration_error = ConnectError string | RpcError grpc_error | Rejected string

section \<open>State\<close>

record RegistrationConfig =
  rc_WorkerID :: string
  rc_Address :: string
  rc_MasterAddr :: string
  rc_Capabilities :: "string list"
  rc_MaxTasks :: int
  rc_Labels :: metadata

text \<open>A generated client is its connection, so \<open>rg_client\<close> holds the connection it was made from.\<close>

record 'conn Registration =
  rg_workerID :: string
  rg_address :: string
  rg_masterAddr :: string
  rg_capabilities :: "string list"
  rg_maxTasks :: int
  rg_labels :: metadata
  rg_conn :: "'conn option"
  rg_client :: "'conn option"
  rg_heartbeatInterval :: duration
  rg_registered :: bool

definition NewRegistration :: "RegistrationConfig \<Rightarrow> 'conn Registration" where
  "NewRegistration cfg = \<lparr>rg_workerID = rc_WorkerID cfg, rg_address = rc_Address cfg,
     rg_masterAddr = rc_MasterAddr cfg, rg_capabilities = rc_Capabilities cfg,
     rg_maxTasks = rc_MaxTasks cfg, rg_labels = rc_Labels cfg, rg_conn = None, rg_client = None,
     rg_heartbeatInterval = 5 * second, rg_registered = False\<rparr>"

section \<open>Operations\<close>

definition Connect :: "('conn, 's) MasterRPC \<Rightarrow> 'conn Registration \<Rightarrow> registration_error option \<times> 'conn Registration" where
  "Connect rpc r =
     (case rpc_dial rpc (rg_masterAddr r) of
        Inl err \<Rightarrow> (Some (ConnectError err), r)
      | Inr conn \<Rightarrow> (None, r\<lparr>rg_conn := Some conn, rg_client := Some conn\<rparr>))"

definition register_request :: "'conn Registration \<Rightarrow> RegisterRequest" where
  "register_request r = \<lparr>rq_WorkerId = rg_workerID r, rq_Address = rg_address r,
     rq_Capabilities = rg_capabilities r, rq_MaxConcurrentTasks = wrap32 (rg_maxTasks r),
     rq_Labels = rg_labels r\<rparr>"

text \<open>The part of \<open>Register\<close> after the connection is there.\<close>

definition register_call ::
    "('conn, 's) MasterRPC \<Rightarrow> 'conn \<Rightarrow> 'conn Registration \<Rightarrow> 's \<Rightarrow>
     registration_error option \<times> 'conn Registration \<times> 's" where
  "register_call rpc client r s =
     (case rpc_register rpc client (register_request r) s of
        (Inl err, s') \<Rightarrow> (Some (RpcError err), r, s')
      | (Inr resp, s') \<Rightarrow>
          if \<not> rp_Accepted resp then (Some (Rejected (rp_Message resp)), r, s')
          else (None, r\<lparr>rg_heartbeatInterval := (case rp_HeartbeatInterval resp of
                           None \<Rightarrow> rg_heartbeatInterval r | Some d \<Rightarrow> d),
                         rg_registered := True\<rparr>, s'))"

definition Registration_Register ::
    "('conn, 's) MasterRPC \<Rightarrow> 'conn Registration \<Rightarrow> 's \<Rightarrow>
     registration_error option \<times> 'conn Registration \<times> 's" where
  "Registration_Register rpc r s =
     (case rg_client r of
        Some client \<Rightarrow> register_call rpc client r s
      | None \<Rightarrow>
          (case Connect rpc r of
             (Some err, r1) \<Rightarrow> (Some err, r1, s)
           | (None, r1) \<Rightarrow>
               (case rg_client r1 of
                  None \<Rightarrow> (None, r1, s)
                | Some client \<Rightarrow> register_call rpc client r1 s)))"

definition Registration_Deregister ::
    "('conn, 's) MasterRPC \<Rightarrow> 'conn Registration \<Rightarrow> 's \<Rightarrow>
     registration_error option \<times> 'conn Registration \<times> 's" where
  "Registration_Deregister rpc r s =
     (case rg_client r of
        None \<Rightarrow> (None, r, s)
      | Some client \<Rightarrow>
          if \<not> rg_registered r then (None, r, s)
          else (case rpc_deregister rpc client (rg_workerID r) s of
                  (Inl err, s') \<Rightarrow> (Some (RpcError err), r, s')
                | (Inr _, s') \<Rightarrow> (None, r\<lparr>rg_registered := False\<rparr>, s')))"

text \<open>
  One tick of \<open>HeartbeatLoop\<close>. \<open>TickPanic\<close> is the call of a method on a nil client. The actions
  DRAIN and SHUTDOWN are only logged.
\<close>

datatype 'conn tick_result = TickPanic | TickOK "'conn Registration"

definition heartbeat_request :: "int \<Rightarrow> 'conn Registration \<Rightarrow> HeartbeatRequest" where
  "heartbeat_request activeTasks r = \<lparr>hb_WorkerId = rg_workerID r,
     hb_ActiveTasks = wrap32 activeTasks, hb_Health = WORKER_HEALTH_HEALTHY\<rparr>"

definition heartbeat_tick ::
    "('conn, 's) MasterRPC \<Rightarrow> int \<Rightarrow> 'conn Registration \<Rightarrow> 's \<Rightarrow> 'conn tick_result \<times> 's" where
  "heartbeat_tick rpc activeTasks r s =
     (if \<not> rg_registered r then (TickOK r, s)
      else case rg_client r of
             None \<Rightarrow> (TickPanic, s)
           | Some client \<Rightarrow>
               (case rpc_heartbeat rpc client (heartbeat_request activeTasks r) s of
                  (Inl err, s') \<Rightarrow> (TickOK r, s')
                | (Inr resp, s') \<Rightarrow>
                    if \<not> hb_Acknowledged resp
                    then (case Registration_Register rpc r s' of (err, r', s'') \<Rightarrow> (TickOK r', s''))
                    else (TickOK r, s')))"

text \<open>The loop over its events: \<open>None\<close> when the context is done, else the number of active tasks.\<close>

fun HeartbeatLoop ::
    "('conn, 's) MasterRPC \<Rightarrow> int option list \<Rightarrow> 'conn Registration \<Rightarrow> 's \<Rightarrow> 'conn tick_result \<times> 's" where
  "HeartbeatLoop rpc [] r s = (TickOK r, s)"
| "HeartbeatLoop rpc (None # es) r s = (TickOK r, s)"
| "HeartbeatLoop rpc (Some n # es) r s =
     (case heartbeat_tick rpc n r s of
        (TickPanic, s') \<Rightarrow> (TickPanic, s')
      | (TickOK r', s') \<Rightarrow> HeartbeatLoop rpc es r' s')"

definition Registration_Close :: "'conn Registration \<Rightarrow> 'conn option" where
  "Registration_Close r = rg_conn r"

definition IsRegistered :: "'conn Registration \<Rightarrow> bool" where
  "IsRegistered r = rg_registered r"

section \<open>No call on a nil client\<close>

definition client_ok :: "'conn Registration \<Rightarrow> bool" where
  "client_ok r \<longleftrightarrow> (rg_registered r \<longrightarrow> rg_client r \<noteq> None)"

lemma client_ok_New: "client_ok (NewRegistration cfg)"
  by (simp add: client_ok_def NewRegistration_def)

lemma register_call_frame:
  "register_call rpc client r s = (err, r', s') \<Longrightarrow>
   rg_client r' = rg_client r \<and> (rg_registered r' \<longleftrightarrow> rg_registered r \<or> err = None)"
  by (auto simp: register_call_def split: prod.splits sum.splits if_splits)

lemma client_ok_Register:
  "client_ok r \<Longrightarrow> client_ok (fst (snd (Registration_Register rpc r s)))"
  by (auto simp: Registration_Register_def client_ok_def Connect_def register_call_def
      split: prod.splits sum.splits option.splits if_splits)

lemma client_ok_Deregister:
  "client_ok r \<Longrightarrow> client_ok (fst (snd (Registration_Deregister rpc r s)))"
  by (auto simp: Registration_Deregister_def client_ok_def
      split: prod.splits sum.splits option.splits if_splits)

lemma client_ok_Register':
  "Registration_Register rpc r s = (err, r', s') \<Longrightarrow> client_ok r \<Longrightarrow> client_ok r'"
  using client_ok_Register [of r rpc s] by simp

lemma client_ok_tick:
  assumes "client_ok r"
  shows "\<exists>r' s'. heartbeat_tick rpc n r s = (TickOK r', s') \<and> client_ok r'"
proof (cases "rg_registered r")
  case True
  then obtain c where "rg_client r = Some c" using assms by (auto simp: client_ok_def)
  with True assms show ?thesis
    by (auto simp: heartbeat_tick_def dest: client_ok_Register' split: prod.splits sum.splits)
next
  case False
  with assms show ?thesis by (simp add: heartbeat_tick_def)
qed

lemma client_ok_loop:
  "client_ok r \<Longrightarrow> \<exists>r' s'. HeartbeatLoop rpc es r s = (TickOK r', s') \<and> client_ok r'"
proof (induction es arbitrary: r s)
  case Nil
  then show ?case by simp
next
  case (Cons e es)
  show ?case
  proof (cases e)
    case None
    with Cons.prems show ?thesis by simp
  next
    case (Some n)
    with client_ok_tick [OF Cons.prems, of rpc n s] Cons.IH show ?thesis by fastforce
  qed
qed

text \<open>A worker never calls a method of a client that it does not have: after any registration
  attempt, whatever the master and the network do, the heartbeat loop runs through all its ticks
  without a nil dereference.\<close>

theorem heartbeat_never_panics:
  "\<exists>r' s'. HeartbeatLoop rpc events (fst (snd (Registration_Register rpc (NewRegistration cfg) s))) s1 =
     (TickOK r', s') \<and> client_ok r'"
  by (rule client_ok_loop [OF client_ok_Register [OF client_ok_New]])

section \<open>A worker that is not registered\<close>

lemma HeartbeatLoop_unregistered: "\<not> rg_registered r \<Longrightarrow> HeartbeatLoop rpc es r s = (TickOK r, s)"
proof (induction es)
  case (Cons e es)
  then show ?case by (cases e) (simp_all add: heartbeat_tick_def)
qed simp

lemma Register_failed:
  "Registration_Register rpc r s = (Some err, r', s') \<Longrightarrow> rg_registered r' = rg_registered r"
  by (auto simp: Registration_Register_def Connect_def register_call_def
      split: prod.splits sum.splits option.splits if_splits)

text \<open>When the first registration fails, the worker logs that it will retry via heartbeat, but
  the heartbeat loop skips every tick of an unregistered worker: however long it runs and whatever
  the master would answer, the worker sends nothing, and stays unregistered for good.\<close>

theorem failed_registration_is_final:
  assumes "Registration_Register rpc (NewRegistration cfg) s = (Some err, r, s')"
  shows "HeartbeatLoop rpc events r s1 = (TickOK r, s1) \<and> \<not> IsRegistered r"
proof -
  have "\<not> rg_registered r"
    using Register_failed [OF assms] by (simp add: NewRegistration_def)
  then show ?thesis by (simp add: HeartbeatLoop_unregistered IsRegistered_def)
qed

text \<open>A master that is down at first and up afterwards.\<close>

definition sample_rpc :: "(unit, bool) MasterRPC" where
  "sample_rpc = \<lparr>rpc_dial = (\<lambda>_. Inr ()),
     rpc_register = (\<lambda>_ _ up. (if up then Inr \<lparr>rp_Accepted = True, rp_Message = ''ok'', rp_HeartbeatInterval = None\<rparr>
                                else Inl (GrpcError (OtherCode 14) ''unavailable''), up)),
     rpc_deregister = (\<lambda>_ _ up. (Inr True, up)),
     rpc_heartbeat = (\<lambda>_ _ up. (Inr \<lparr>hb_Acknowledged = up, hb_Action = HEARTBEAT_ACTION_NONE\<rparr>, up))\<rparr>"

definition sample_registration_config :: RegistrationConfig where
  "sample_registration_config = \<lparr>rc_WorkerID = ''w1'', rc_Address = '':50052'', rc_MasterAddr = ''m:50051'',
     rc_Capabilities = [''command''], rc_MaxTasks = 10, rc_Labels = Map.empty\<rparr>"

theorem failed_registration_is_final_witness:
  "let r = fst (snd (Registration_Register sample_rpc (NewRegistration sample_registration_config) False))
   in HeartbeatLoop sample_rpc [Some 0, Some 0, Some 0] r True = (TickOK r, True)"
proof -
  have "Registration_Register sample_rpc (NewRegistration sample_registration_config) False =
    (Some (RpcError (GrpcError (OtherCode 14) ''unavailable'')),
     fst (snd (Registration_Register sample_rpc (NewRegistration sample_registration_config) False)), False)"
    by (simp add: Registration_Register_def NewRegistration_def Connect_def register_call_def sample_rpc_def)
  from failed_registration_is_final [OF this] show ?thesis by (simp only: Let_def)
qed

section \<open>The contract of a registration service\<close>

text \<open>
  What a worker may rely on: a complete registration is accepted and makes the worker known, a
  heartbeat is acknowledged exactly when the worker is known and changes nothing about who is, and
  a deregistration makes the worker unknown.
\<close>

locale registration_service =
  fixes reg :: "RegisterRequest \<Rightarrow> 's \<Rightarrow> (grpc_error + RegisterResponse) \<times> 's"
    and dereg :: "string \<Rightarrow> 's \<Rightarrow> (grpc_error + bool) \<times> 's"
    and beat :: "HeartbeatRequest \<Rightarrow> 's \<Rightarrow> (grpc_error + HeartbeatResponse) \<times> 's"
    and knows :: "string \<Rightarrow> 's \<Rightarrow> bool"
  assumes reg_known: "rq_WorkerId q \<noteq> [] \<Longrightarrow> rq_Address q \<noteq> [] \<Longrightarrow>
      \<exists>resp s'. reg q s = (Inr resp, s') \<and> rp_Accepted resp \<and> knows (rq_WorkerId q) s'"
    and beat_known: "hb_WorkerId h \<noteq> [] \<Longrightarrow>
      \<exists>act s'. beat h s = (Inr \<lparr>hb_Acknowledged = knows (hb_WorkerId h) s, hb_Action = act\<rparr>, s') \<and>
        (\<forall>i. knows i s' = knows i s)"
    and dereg_forgets: "i \<noteq> [] \<Longrightarrow> \<exists>s'. dereg i s = (Inr True, s') \<and> \<not> knows i s'"
begin

abbreviation service :: "(string \<Rightarrow> string + 'conn) \<Rightarrow> ('conn, 's) MasterRPC" where
  "service dial \<equiv> \<lparr>rpc_dial = dial, rpc_register = (\<lambda>_. reg), rpc_deregister = (\<lambda>_. dereg),
     rpc_heartbeat = (\<lambda>_. beat)\<rparr>"

lemma register_succeeds:
  assumes "rg_workerID r \<noteq> []" and "rg_address r \<noteq> []"
    and "rg_client r \<noteq> None \<or> (\<exists>c. dial (rg_masterAddr r) = Inr c)"
  shows "\<exists>r' s'. Registration_Register (service dial) r s = (None, r', s') \<and> rg_registered r' \<and>
    rg_workerID r' = rg_workerID r \<and> knows (rg_workerID r) s'"
proof -
  have call: "\<exists>r' s'. register_call (service dial) c q s = (None, r', s') \<and> rg_registered r' \<and>
      rg_workerID r' = rg_workerID q \<and> knows (rg_workerID q) s'"
    if "rg_workerID q \<noteq> []" "rg_address q \<noteq> []" for c q
    using reg_known [of "register_request q" s] that
    by (fastforce simp: register_call_def register_request_def)
  show ?thesis
  proof (cases "rg_client r")
    case None
    then obtain c where "dial (rg_masterAddr r) = Inr c" using assms(3) by auto
    with None call [of "r\<lparr>rg_conn := Some c, rg_client := Some c\<rparr>" c] assms(1,2) show ?thesis
      by (simp add: Registration_Register_def Connect_def)
  next
    case (Some c)
    with call [of r c] assms(1,2) show ?thesis by (simp add: Registration_Register_def)
  qed
qed

text \<open>A worker that the service has forgotten is known again after one tick.\<close>

lemma tick_heals:
  assumes "rg_registered r" and "client_ok r" and "rg_workerID r \<noteq> []" and "rg_address r \<noteq> []"
  shows "\<exists>r' s'. heartbeat_tick (service dial) n r s = (TickOK r', s') \<and> rg_registered r' \<and>
    knows (rg_workerID r) s'"
proof -
  obtain act s1 where b: "beat (heartbeat_request n r) s =
      (Inr \<lparr>hb_Acknowledged = knows (rg_workerID r) s, hb_Action = act\<rparr>, s1)"
    and k: "\<forall>i. knows i s1 = knows i s"
    using beat_known [of "heartbeat_request n r" s] assms(3) by (auto simp: heartbeat_request_def)
  obtain c where c: "rg_client r = Some c" using assms(1,2) by (auto simp: client_ok_def)
  show ?thesis
  proof (cases "knows (rg_workerID r) s")
    case True
    with b k c assms(1) show ?thesis by (simp add: heartbeat_tick_def)
  next
    case False
    obtain r' s' where "Registration_Register (service dial) r s1 = (None, r', s')"
      and "rg_registered r'" and "knows (rg_workerID r) s'"
      using register_succeeds [of r dial s1] assms(3,4) c by auto
    with False b c assms(1) show ?thesis by (simp add: heartbeat_tick_def)
  qed
qed

end

end
