(* ===== verification/WorkerServer.thy ===== *)
theory WorkerServer
  imports Runner Registration Config
begin

text \<open>
  \<open>internal/worker/server.go\<close>: the worker's gRPC server, assembled from the task runner and the
  registration, with the registry of executors that \<open>cmd/worker/main.go\<close> builds from the
  configuration. A handler takes the request, the context of the call and what it measures, and
  returns its response or a gRPC error with the new state; the executors act on the machine \<open>'w\<close>.
\<close>

section \<open>The server\<close>

datatype serving_status = SERVING | NOT_SERVING

datatype grpc_server = GrpcReady | GrpcServing | GrpcStopped

record ('conn, 'w) WorkerServer =
  wk_cfg :: WorkerConfig
  wk_registry :: "'w Registry"
  wk_runner :: TaskRunner
  wk_registration :: "'conn Registration"
  wk_health :: serving_status
  wk_grpc :: grpc_server

text \<open>The executors of a worker, as its main function registers them.\<close>

definition worker_registry ::
    "(bytes \<Rightarrow> string + CommandPayload) \<Rightarrow> string list \<Rightarrow> (metadata \<Rightarrow> string list) \<Rightarrow>
     (Cmd \<Rightarrow> 'w \<Rightarrow> RunOutcome \<times> 'w) \<Rightarrow> WorkerConfig \<Rightarrow> 'w Registry" where
  "worker_registry unmarshal environ order run cfg =
     (let c = xc_Command (wc_Executors cfg)
      in if cc_Enabled c
         then Registry_Register (command_executor unmarshal environ order run
                (NewCommandExecutorWithLimits (AllowedCommandsList c) (BlockedCommandsList c))) NewRegistry
         else NewRegistry)"

text \<open>\<open>ks\<close> is the order in which \<open>Capabilities\<close> visits the executors.\<close>

definition worker_registration_config :: "WorkerConfig \<Rightarrow> string list \<Rightarrow> 'w Registry \<Rightarrow> RegistrationConfig" where
  "worker_registration_config cfg ks reg =
     \<lparr>rc_WorkerID = wc_ID cfg, rc_Address = wc_Address cfg, rc_MasterAddr = wc_MasterAddress cfg,
      rc_Capabilities = Capabilities ks reg, rc_MaxTasks = wc_MaxConcurrentTasks cfg,
      rc_Labels = Map.empty\<rparr>"

definition NewWorkerServer :: "WorkerConfig \<Rightarrow> string list \<Rightarrow> 'w Registry \<Rightarrow> ('conn, 'w) WorkerServer" where
  "NewWorkerServer cfg ks reg =
     \<lparr>wk_cfg = cfg, wk_registry = reg, wk_runner = NewTaskRunner (wc_MaxConcurrentTasks cfg),
      wk_registration = NewRegistration (worker_registration_config cfg ks reg),
      wk_health = SERVING, wk_grpc = GrpcReady\<rparr>"

section \<open>Worker service\<close>

fun exec_error_text :: "exec_error \<Rightarrow> string" where
  "exec_error_text (PayloadParseError e) = ''payload parse error: '' @ e"
| "exec_error_text (UnknownExecutorType t) = ''unknown executor type: '' @ t"
| "exec_error_text (ExecFailed e) = e"

definition execute_timeout :: "ExecuteRequest \<Rightarrow> duration" where
  "execute_timeout req = (case ex_Timeout req of None \<Rightarrow> 30 * second | Some d \<Rightarrow> d)"

definition execute_task :: "ExecuteRequest \<Rightarrow> XTask" where
  "execute_task req = \<lparr>xt_ID = ex_TaskId req, xt_Type = ex_TaskType req, xt_Payload = ex_Payload req,
     xt_Metadata = ex_Metadata req\<rparr>"

definition execute_response :: "ExecuteRequest \<Rightarrow> XResult \<Rightarrow> duration \<Rightarrow> ExecuteResponse" where
  "execute_response req result elapsed =
     \<lparr>xr_TaskId = ex_TaskId req,
      xr_Status = (if xs_Error result \<noteq> '''' \<or> xs_ExitCode result \<noteq> 0 then EXECUTION_STATUS_FAILURE
                   else EXECUTION_STATUS_SUCCESS),
      xr_Output = xs_Output result, xr_Error = xs_Error result,
      xr_ExitCode = wrap32 (xs_ExitCode result), xr_Duration = Some elapsed\<rparr>"

definition Execute ::
    "ctx \<Rightarrow> duration \<Rightarrow> ExecuteRequest \<Rightarrow> ('conn, 'w) WorkerServer \<Rightarrow> 'w \<Rightarrow>
     (grpc_error + ExecuteResponse) \<times> ('conn, 'w) WorkerServer \<times> 'w" where
  "Execute ctx elapsed req s w =
     (if ex_TaskId req = '''' then (Inl (GrpcError InvalidArgument ''task_id is required''), s, w)
      else if ex_TaskType req = ''''
      then (Inl (GrpcError InvalidArgument ''task_type is required''), s, w)
      else
        (case Run (wk_registry s) ctx (execute_task req) (execute_timeout req) (wk_runner s) w of
           ((result, err), r, w') \<Rightarrow>
             ((case err of
                 Some ErrAtCapacity \<Rightarrow> Inl (GrpcError ResourceExhausted ''worker at capacity'')
               | Some (ExecuteError e) \<Rightarrow> Inl (GrpcError Internal (''execution error: '' @ exec_error_text e))
               | None \<Rightarrow> Inr (execute_response req result elapsed)),
              s\<lparr>wk_runner := r\<rparr>, w')))"

definition ExecuteStream :: "ExecuteRequest \<Rightarrow> grpc_error" where
  "ExecuteStream req = GrpcError Unimplemented ''streaming execution not yet implemented''"

definition Worker_CancelTask ::
    "string \<Rightarrow> ('conn, 'w) WorkerServer \<Rightarrow> (grpc_error + bool) \<times> ('conn, 'w) WorkerServer" where
  "Worker_CancelTask taskID s =
     (if taskID = '''' then (Inl (GrpcError InvalidArgument ''task_id is required''), s)
      else let (cancelled, r) = Runner_CancelTask taskID (wk_runner s)
           in (Inr cancelled, s\<lparr>wk_runner := r\<rparr>))"

text \<open>The loop over the health results leaves at the first error.\<close>

fun worst_health :: "(string \<rightharpoonup> string option) \<Rightarrow> string list \<Rightarrow> WorkerHealth" where
  "worst_health results [] = WORKER_HEALTH_HEALTHY"
| "worst_health results (k # ks) =
     (case results k of
        Some (Some err) \<Rightarrow> WORKER_HEALTH_DEGRADED
      | _ \<Rightarrow> worst_health results ks)"

definition GetWorkerStatus ::
    "ctx \<Rightarrow> string list \<Rightarrow> ('conn, 'w) WorkerServer \<Rightarrow> 'w \<Rightarrow> GetWorkerStatusResponse \<times> 'w" where
  "GetWorkerStatus ctx ks s w =
     (let (healthResults, w') = Runner_HealthCheck ctx ks (wk_registry s) w
      in (\<lparr>ws_WorkerId = wc_ID (wk_cfg s), ws_Capabilities = Runner_Capabilities ks (wk_registry s),
           ws_MaxConcurrentTasks = wrap32 (MaxTasks (wk_runner s)),
           ws_ActiveTasks = wrap32 (ActiveCount (wk_runner s)),
           ws_Health = worst_health healthResults ks\<rparr>, w'))"

section \<open>Start and shutdown\<close>

text \<open>
  \<open>Run\<close> up to the point where it waits: the listener, the serving goroutine, and a registration
  whose error is only logged. The heartbeat loop starts after it.
\<close>

definition worker_start ::
    "('conn, 's) MasterRPC \<Rightarrow> string option \<Rightarrow> ('conn, 'w) WorkerServer \<Rightarrow> 's \<Rightarrow>
     string option \<times> ('conn, 'w) WorkerServer \<times> 's" where
  "worker_start rpc listen s m =
     (case listen of
        Some err \<Rightarrow> (Some (''listen: '' @ err), s, m)
      | None \<Rightarrow>
          (case Registration_Register rpc (wk_registration s) m of
             (_, reg, m') \<Rightarrow> (None, s\<lparr>wk_grpc := GrpcServing, wk_registration := reg\<rparr>, m')))"

definition worker_beat ::
    "('conn, 's) MasterRPC \<Rightarrow> ('conn, 'w) WorkerServer \<Rightarrow> 's \<Rightarrow> (('conn, 'w) WorkerServer) option \<times> 's" where
  "worker_beat rpc s m =
     (case heartbeat_tick rpc (ActiveCount (wk_runner s)) (wk_registration s) m of
        (TickPanic, m') \<Rightarrow> (None, m')
      | (TickOK reg, m') \<Rightarrow> (Some (s\<lparr>wk_registration := reg\<rparr>), m'))"

text \<open>
  \<open>Shutdown\<close>: before and after the drain, which is \<open>WaitForDrain\<close> of the runner with a context of
  thirty seconds. It ends with the connection that it closes.
\<close>

definition shutdown_begin ::
    "('conn, 's) MasterRPC \<Rightarrow> ('conn, 'w) WorkerServer \<Rightarrow> 's \<Rightarrow> ('conn, 'w) WorkerServer \<times> 's" where
  "shutdown_begin rpc s m =
     (case Registration_Deregister rpc (wk_registration s) m of
        (_, reg, m') \<Rightarrow> (s\<lparr>wk_health := NOT_SERVING, wk_registration := reg\<rparr>, m'))"

definition drain_timeout :: duration where
  "drain_timeout = 30 * second"

definition shutdown_end :: "('conn, 'w) WorkerServer \<Rightarrow> 'conn option \<times> ('conn, 'w) WorkerServer" where
  "shutdown_end s = (Registration_Close (wk_registration s), s\<lparr>wk_grpc := GrpcStopped\<rparr>)"

text \<open>The whole of \<open>Shutdown\<close>, where \<open>drain\<close> is what becomes of the runner while it is drained.\<close>

definition Shutdown ::
    "('conn, 's) MasterRPC \<Rightarrow> (duration \<Rightarrow> TaskRunner \<Rightarrow> TaskRunner) \<Rightarrow> ('conn, 'w) WorkerServer \<Rightarrow> 's \<Rightarrow>
     'conn option \<times> ('conn, 'w) WorkerServer \<times> 's" where
  "Shutdown rpc drain s m =
     (let (s1, m') = shutdown_begin rpc s m;
          s2 = s1\<lparr>wk_runner := drain drain_timeout (wk_runner s1)\<rparr>;
          (closed, s3) = shutdown_end s2
      in (closed, s3, m'))"

section \<open>What the worker answers\<close>

lemma Execute_frame [frame]:
  assumes "Execute ctx elapsed req s w = (answer, s', w')"
  shows "wk_cfg s' = wk_cfg s" "wk_registry s' = wk_registry s"
    "wk_registration s' = wk_registration s" "wk_health s' = wk_health s" "wk_grpc s' = wk_grpc s"
  using assms by (auto simp: Execute_def split: if_splits prod.splits)

lemma runner_counters_back:
  assumes "in64 (tr_activeTasks r)" and "Run reg ctx task timeout r w = (res, r', w')"
  shows "tr_activeTasks r' = tr_activeTasks r" and "tr_maxTasks r' = tr_maxTasks r" and "tr_wg r' = tr_wg r"
  using assms
  by (auto simp: Run_def Let_def run_enter_def run_leave_def wrap64_diff_wrap wrap64_id
      split: if_splits prod.splits)

lemma Execute_counters:
  assumes "in64 (ActiveCount (wk_runner s))" and "Execute ctx elapsed req s w = (answer, s', w')"
  shows "ActiveCount (wk_runner s') = ActiveCount (wk_runner s)"
    and "MaxTasks (wk_runner s') = MaxTasks (wk_runner s)"
    and "tr_wg (wk_runner s') = tr_wg (wk_runner s)"
  using assms runner_counters_back
  by (fastforce simp: Execute_def ActiveCount_def MaxTasks_def split: if_splits prod.splits)+

text \<open>A request of the command type on a worker with free capacity.\<close>

definition accepts :: "ExecuteRequest \<Rightarrow> ('conn, 'w) WorkerServer \<Rightarrow> bool" where
  "accepts req s \<longleftrightarrow> ex_TaskId req \<noteq> '''' \<and> ex_TaskType req = ''command'' \<and>
     ActiveCount (wk_runner s) < MaxTasks (wk_runner s)"

definition exit_code :: "RunOutcome \<Rightarrow> int" where
  "exit_code out = (case ro_Err out of RunOK \<Rightarrow> 0 | ExitError c \<Rightarrow> c | RunError msg \<Rightarrow> -1)"

lemma Execute_book:
  assumes "accepts req s" and "Execute ctx elapsed req s w = (answer, s', w')"
  shows "tr_running (wk_runner s') = go_delete (ex_TaskId req) (tr_running (wk_runner s))"
  using assms
  by (auto simp: Execute_def accepts_def Run_def execute_task_def run_enter_def run_leave_def Let_def fun_eq_iff
      ActiveCount_def MaxTasks_def split: prod.splits)

lemma Execute_accepted:
  assumes "accepts req s"
    and "wk_registry s = worker_registry unmarshal environ order run cfg"
    and "cc_Enabled (xc_Command (wc_Executors cfg))"
    and "unmarshal (ex_Payload req) = Inr p"
    and "run (build_cmd (WithTimeout ctx (execute_timeout req)) environ (order (cp_Env p)) p) w = (out, w')"
  shows "\<exists>s'. Execute ctx elapsed req s w =
      (Inr (execute_response req (build_result out) elapsed), s', w')"
  using assms
  by (auto simp: Execute_def accepts_def Run_def worker_registry_def Registry_Execute_registered
      execute_task_def CommandExecutor_Execute_def Let_def ActiveCount_def MaxTasks_def)

text \<open>The text of an error: of the exit code, of the context when that has ended, or of the run.\<close>

definition run_error_text :: "RunOutcome \<Rightarrow> string" where
  "run_error_text out =
     (case ro_Err out of
        RunOK \<Rightarrow> ''''
      | ExitError c \<Rightarrow> ''command exited with code '' @ show_int c
      | RunError msg \<Rightarrow> (case ro_CtxErr out of Some e \<Rightarrow> e | None \<Rightarrow> msg))"

lemma xs_Error_build_result: "xs_Error (build_result out) = run_error_text out"
  by (cases "ro_Err out") (auto simp: build_result_def run_error_text_def Let_def split: option.split)

lemma exit_code_build_result: "xs_ExitCode (build_result out) = exit_code out"
  by (cases "ro_Err out") (auto simp: build_result_def exit_code_def Let_def split: option.splits)

lemma xs_Output_build_result [simp]: "xs_Output (build_result out) = ro_Stdout out"
  by (cases "ro_Err out") (simp_all add: build_result_def Let_def split: option.split)

lemma status_build_result:
  assumes "\<And>c. ro_Err out = ExitError c \<Longrightarrow> c \<noteq> 0"
  shows "xr_Status (execute_response req (build_result out) elapsed) =
    (if ro_Err out = RunOK then EXECUTION_STATUS_SUCCESS else EXECUTION_STATUS_FAILURE)"
  using assms
  by (cases "ro_Err out") (auto simp: execute_response_def build_result_def Let_def split: option.splits)

text \<open>Claim C21: A command request on a worker that has room and the command executor enabled runs the
  command of its payload once, under the request's timeout (30 seconds without one) or the caller's
  deadline if that is earlier. The reply is SUCCESS exactly when the process ended with code 0 and
  FAILURE otherwise, whether it exited, was killed or never started; it carries the standard output,
  the code cut to 32 bits, the text of the error (the exit code's, the context's or the one of the
  run) and the time it took. The counter of active tasks and the wait group end where they were, and no
  cancel function of the task is kept.\<close>

theorem Execute_runs_command:
  assumes acc: "accepts req s" and act: "in64 (ActiveCount (wk_runner s))"
    and reg: "wk_registry s = worker_registry unmarshal environ order run cfg"
    and enabled: "cc_Enabled (xc_Command (wc_Executors cfg))"
    and parse: "unmarshal (ex_Payload req) = Inr p"
    and ran: "run (build_cmd (Some (case ctx of None \<Rightarrow> execute_timeout req
                 | Some d \<Rightarrow> min d (execute_timeout req))) environ (order (cp_Env p)) p) w = (out, w')"
    and exits: "\<And>c. ro_Err out = ExitError c \<Longrightarrow> c \<noteq> 0"
  shows "\<exists>resp s'. Execute ctx elapsed req s w = (Inr resp, s', w') \<and>
    xr_TaskId resp = ex_TaskId req \<and>
    xr_Status resp = (if ro_Err out = RunOK then EXECUTION_STATUS_SUCCESS else EXECUTION_STATUS_FAILURE) \<and>
    xr_Output resp = ro_Stdout out \<and> xr_ExitCode resp = wrap32 (exit_code out) \<and>
    xr_Error resp = (case ro_Err out of
        RunOK \<Rightarrow> '''' | ExitError c \<Rightarrow> ''command exited with code '' @ show_int c
      | RunError msg \<Rightarrow> (case ro_CtxErr out of Some e \<Rightarrow> e | None \<Rightarrow> msg)) \<and>
    xr_Duration resp = Some elapsed \<and>
    ActiveCount (wk_runner s') = ActiveCount (wk_runner s) \<and> tr_wg (wk_runner s') = tr_wg (wk_runner s) \<and>
    tr_running (wk_runner s') = go_delete (ex_TaskId req) (tr_running (wk_runner s))"
proof -
  let ?resp = "execute_response req (build_result out) elapsed"
  have "run (build_cmd (WithTimeout ctx (execute_timeout req)) environ (order (cp_Env p)) p) w = (out, w')"
    using ran by (simp add: WithTimeout_def)
  from Execute_accepted [OF acc reg enabled parse this, of elapsed]
  obtain s' where s': "Execute ctx elapsed req s w =
      (Inr ?resp, s', w')" ..
  have "xr_Output ?resp = ro_Stdout out" "xr_ExitCode ?resp = wrap32 (exit_code out)"
      "xr_TaskId ?resp = ex_TaskId req" "xr_Error ?resp = run_error_text out" "xr_Duration ?resp = Some elapsed"
    by (simp_all add: execute_response_def exit_code_build_result xs_Error_build_result)
  with s' Execute_counters(1,3) [OF act s'] status_build_result [OF exits] Execute_book [OF acc s']
  show ?thesis unfolding run_error_text_def by blast
qed

definition sample_worker_config :: "int \<Rightarrow> WorkerConfig" where
  "sample_worker_config n = \<lparr>wc_ID = ''w'', wc_Address = '':50052'', wc_MasterAddress = ''m'',
     wc_MaxConcurrentTasks = n, wc_HeartbeatInterval = 5, wc_LogLevel = ''info'', wc_Executors =
       \<lparr>xc_Command = \<lparr>cc_Enabled = True, cc_AllowedCommands = '''', cc_BlockedCommands = ''''\<rparr>\<rparr>\<rparr>"

definition sample_payload :: CommandPayload where
  "sample_payload = \<lparr>cp_Command = ''false'', cp_Args = [], cp_Env = Map.empty, cp_WorkingDir = '''',
     cp_Stdin = ''''\<rparr>"

definition sample_execute :: "duration option \<Rightarrow> ExecuteRequest" where
  "sample_execute timeout = \<lparr>ex_TaskId = ''t'', ex_TaskType = ''command'', ex_Payload = [1],
     ex_Timeout = timeout, ex_Metadata = Map.empty\<rparr>"

text \<open>A machine that logs the deadlines it is given and on which every command exits with 1.\<close>

definition sample_run :: "Cmd \<Rightarrow> ctx list \<Rightarrow> RunOutcome \<times> ctx list" where
  "sample_run c log = (\<lparr>ro_Stdout = [7], ro_Stderr = '''', ro_Err = ExitError 1, ro_CtxErr = None\<rparr>,
     cmd_Ctx c # log)"

definition sample_worker :: "int \<Rightarrow> (unit, ctx list) WorkerServer" where
  "sample_worker n = NewWorkerServer (sample_worker_config n) [''command'']
     (worker_registry (\<lambda>_. Inr sample_payload) [] (\<lambda>_. []) sample_run (sample_worker_config n))"

theorem Execute_runs_command_witness:
  "\<exists>resp s'. Execute None 3 (sample_execute None) (sample_worker 2) [] =
      (Inr resp, s', [Some (30 * second)]) \<and>
    xr_Status resp = EXECUTION_STATUS_FAILURE \<and> xr_Output resp = [7] \<and> xr_ExitCode resp = 1 \<and>
    xr_Error resp = ''command exited with code '' @ show_int 1"
proof -
  have acc: "accepts (sample_execute None) (sample_worker 2)"
    and act: "in64 (ActiveCount (wk_runner (sample_worker 2)))"
    and reg: "wk_registry (sample_worker 2) =
      worker_registry (\<lambda>_. Inr sample_payload) [] (\<lambda>_. []) sample_run (sample_worker_config 2)"
    and en: "cc_Enabled (xc_Command (wc_Executors (sample_worker_config 2)))"
    by (simp_all add: accepts_def sample_execute_def sample_worker_def NewWorkerServer_def
        ActiveCount_def MaxTasks_def NewTaskRunner_def sample_worker_config_def in64_def)
  from Execute_runs_command [OF acc act reg en, of sample_payload None, where elapsed = 3] show ?thesis
    by (simp add: sample_run_def build_cmd_def sample_execute_def execute_timeout_def exit_code_def
        wrap32_id in32_def) blast
qed

section \<open>Capacity, drain and status\<close>

text \<open>The worker tells the master the configured limit, but its runner replaces a limit of
  zero or less by 10: then the two disagree, and otherwise they are equal.\<close>

theorem advertised_capacity:
  "let s = NewWorkerServer cfg ks reg :: ('conn, 'w) WorkerServer;
       q = register_request (wk_registration s)
   in (in32 (wc_MaxConcurrentTasks cfg) \<longrightarrow>
        (rq_MaxConcurrentTasks q = MaxTasks (wk_runner s)) = (0 < wc_MaxConcurrentTasks cfg)) \<and>
      0 < MaxTasks (wk_runner s) \<and> rq_WorkerId q = wc_ID cfg \<and> rq_Address q = wc_Address cfg"
  by (auto simp: Let_def NewWorkerServer_def register_request_def NewRegistration_def MaxTasks_def
      worker_registration_config_def NewTaskRunner_def wrap32_id)

theorem advertised_capacity_witness:
  "rq_MaxConcurrentTasks (register_request (wk_registration (sample_worker 0))) \<noteq>
   MaxTasks (wk_runner (sample_worker 0))"
  using advertised_capacity [of "sample_worker_config 0" "[''command'']" "worker_registry
      (\<lambda>_. Inr sample_payload) [] (\<lambda>_. []) sample_run (sample_worker_config 0)", where ?'conn = unit]
  unfolding sample_worker_def [symmetric] by (simp add: Let_def in32_def) (simp add: sample_worker_config_def)

lemma Execute_cong:
  assumes "wk_registry s = wk_registry t" and "wk_runner s = wk_runner t"
  shows "fst (Execute ctx elapsed req s w) = fst (Execute ctx elapsed req t w)"
    and "snd (snd (Execute ctx elapsed req s w)) = snd (snd (Execute ctx elapsed req t w))"
  using assms by (simp_all add: Execute_def split: prod.split)

text \<open>Shutting down reports NOT\_SERVING and takes the worker off the master's list, but the
  task handlers do not look at either: until the gRPC server stops, a worker that is draining
  accepts and runs a task exactly as before.\<close>

theorem draining_still_executes:
  "let (s', m') = shutdown_begin rpc s m
   in wk_health s' = NOT_SERVING \<and> wk_runner s' = wk_runner s \<and> wk_grpc s' = wk_grpc s \<and>
      fst (Execute ctx elapsed req s' w) = fst (Execute ctx elapsed req s w) \<and>
      snd (snd (Execute ctx elapsed req s' w)) = snd (snd (Execute ctx elapsed req s w))"
  by (auto simp: shutdown_begin_def split: prod.splits intro!: Execute_cong)

lemma worst_health_iff:
  "worst_health results ks = WORKER_HEALTH_HEALTHY \<longleftrightarrow> (\<forall>k\<in>set ks. \<forall>e. results k \<noteq> Some (Some e))"
  by (induction ks) (auto split: option.splits)

end
