(* ===== verification/WorkerSystem.thy ===== *)
theory WorkerSystem
  imports WorkerServer
begin

text \<open>
  The worker as it really runs: the main goroutine goes through \<open>Run\<close> and \<open>Shutdown\<close> of
  \<open>server.go\<close>, the heartbeat loop of \<open>registration.go\<close> ticks beside it, and every \<open>Execute\<close>
  request runs in a goroutine of its own through \<open>Run\<close> of \<open>runner.go\<close>. Any of them may take the
  next step. The master at the other end is the record of functions of the registration.
\<close>

section \<open>Goroutines\<close>

text \<open>Where the main goroutine is; the name says what its next step does.\<close>

datatype main_pc =
    MainListen
  | MainEnrol
  | MainServe
  | MainDeregister
  | MainDrain drain_pc
  | MainGraceful
  | MainDone
  | MainFailed string

text \<open>
  The heartbeat loop: not started, waiting for its ticker, about to register again because a heartbeat
  was not acknowledged, or returned.
\<close>

datatype beat_pc = BeatNone | BeatWait | BeatRegister | BeatEnded

record ('conn, 'w, 's) WorkerSys =
  ws_server :: "('conn, 'w) WorkerServer"
  ws_calls :: "nat \<rightharpoonup> run_pc"
  ws_beat :: beat_pc
  ws_main :: main_pc
  ws_master :: 's

definition worker_init :: "('conn, 'w, 's) WorkerSys \<Rightarrow> bool" where
  "worker_init s \<longleftrightarrow> (\<exists>cfg ks reg m. s = \<lparr>ws_server = NewWorkerServer cfg ks reg, ws_calls = Map.empty,
     ws_beat = BeatNone, ws_main = MainListen, ws_master = m\<rparr>)"

text \<open>gRPC hands requests to the handlers from \<open>Serve\<close> until \<open>GracefulStop\<close> is called.\<close>

definition accepting :: "('conn, 'w, 's) WorkerSys \<Rightarrow> bool" where
  "accepting s \<longleftrightarrow> wk_grpc (ws_server s) = GrpcServing \<and> ws_main s \<noteq> MainGraceful"

definition ctx_cancelled :: "('conn, 'w, 's) WorkerSys \<Rightarrow> bool" where
  "ctx_cancelled s \<longleftrightarrow> ws_main s \<notin> {MainListen, MainEnrol, MainServe}"

definition after_beat :: "grpc_error + HeartbeatResponse \<Rightarrow> beat_pc" where
  "after_beat resp = (case resp of
     Inl err \<Rightarrow> BeatWait | Inr r \<Rightarrow> if hb_Acknowledged r then BeatWait else BeatRegister)"

definition after_drain :: "drain_pc option \<Rightarrow> main_pc" where
  "after_drain d = (case d of None \<Rightarrow> MainGraceful | Some d' \<Rightarrow> MainDrain d')"

section \<open>The system\<close>

datatype worker_label =
    WListen "string option"
  | WEnrol
  | WCall nat ExecuteRequest
  | WRun nat "XResult \<times> exec_error option"
  | WCancel string
  | WBeat
  | WBeatRegister bool
  | WBeatEnd
  | WSignal
  | WDeregister
  | WDrain bool bool "string list"
  | WStop
  | WMaster

text \<open>
  The signal is the end of the context that \<open>Run\<close> waits for and that the heartbeat loop was given.
  No heartbeat is sent after it, but a \<open>Register\<close> that is under way still reaches the master; whether
  its answer is seen is the argument of \<open>WBeatRegister\<close>. \<open>GracefulStop\<close> returns when no call is left. The relation
  \<open>own\<close> says what the master may do by itself.
\<close>

inductive worker_step ::
    "('conn, 's) MasterRPC \<Rightarrow> ('s \<Rightarrow> 's \<Rightarrow> bool) \<Rightarrow> ('conn, 'w, 's) WorkerSys \<Rightarrow> worker_label \<Rightarrow> ('conn, 'w, 's) WorkerSys \<Rightarrow> bool"
    for rpc own where
  w_listen_failed: "ws_main s = MainListen \<Longrightarrow>
    worker_step rpc own s (WListen (Some err)) (s\<lparr>ws_main := MainFailed (''listen: '' @ err)\<rparr>)"
| w_listen: "ws_main s = MainListen \<Longrightarrow>
    worker_step rpc own s (WListen None) (s\<lparr>ws_server := (ws_server s)\<lparr>wk_grpc := GrpcServing\<rparr>, ws_main := MainEnrol\<rparr>)"
| w_enrol: "ws_main s = MainEnrol \<Longrightarrow>
    Registration_Register rpc (wk_registration (ws_server s)) (ws_master s) = (err, reg, m) \<Longrightarrow>
    worker_step rpc own s WEnrol (s\<lparr>ws_server := (ws_server s)\<lparr>wk_registration := reg\<rparr>, ws_master := m,
      ws_main := MainServe, ws_beat := BeatWait\<rparr>)"
| w_call: "accepting s \<Longrightarrow> ex_TaskId req \<noteq> '''' \<Longrightarrow> ex_TaskType req \<noteq> '''' \<Longrightarrow> ws_calls s g = None \<Longrightarrow>
    worker_step rpc own s (WCall g req) (s\<lparr>ws_calls := (ws_calls s)(g \<mapsto> RunCheck (execute_task req))\<rparr>)"
| w_run: "ws_calls s g = Some p \<Longrightarrow> run_step out p (wk_runner (ws_server s)) = (c, r) \<Longrightarrow>
    worker_step rpc own s (WRun g out) (s\<lparr>ws_server := (ws_server s)\<lparr>wk_runner := r\<rparr>,
      ws_calls := (ws_calls s)(g := continue_run c)\<rparr>)"
| w_cancel: "accepting s \<Longrightarrow>
    worker_step rpc own s (WCancel i) (s\<lparr>ws_server := snd (Worker_CancelTask i (ws_server s))\<rparr>)"
| w_beat: "ws_beat s = BeatWait \<Longrightarrow> \<not> ctx_cancelled s \<Longrightarrow> rg_registered (wk_registration (ws_server s)) \<Longrightarrow>
    rg_client (wk_registration (ws_server s)) = Some client \<Longrightarrow>
    rpc_heartbeat rpc client (heartbeat_request (ActiveCount (wk_runner (ws_server s))) (wk_registration (ws_server s)))
      (ws_master s) = (resp, m) \<Longrightarrow>
    worker_step rpc own s WBeat (s\<lparr>ws_master := m, ws_beat := after_beat resp\<rparr>)"
| w_beat_register: "ws_beat s = BeatRegister \<Longrightarrow>
    Registration_Register rpc (wk_registration (ws_server s)) (ws_master s) = (err, reg, m) \<Longrightarrow>
    worker_step rpc own s (WBeatRegister lost) (s\<lparr>ws_server := (ws_server s)
      \<lparr>wk_registration := (if lost then wk_registration (ws_server s) else reg)\<rparr>, ws_master := m, ws_beat := BeatWait\<rparr>)"
| w_beat_end: "ws_beat s = BeatWait \<Longrightarrow> ctx_cancelled s \<Longrightarrow> worker_step rpc own s WBeatEnd (s\<lparr>ws_beat := BeatEnded\<rparr>)"
| w_signal: "ws_main s = MainServe \<Longrightarrow>
    worker_step rpc own s WSignal (s\<lparr>ws_server := (ws_server s)\<lparr>wk_health := NOT_SERVING\<rparr>, ws_main := MainDeregister\<rparr>)"
| w_deregister: "ws_main s = MainDeregister \<Longrightarrow>
    Registration_Deregister rpc (wk_registration (ws_server s)) (ws_master s) = (err, reg, m) \<Longrightarrow>
    worker_step rpc own s WDeregister (s\<lparr>ws_server := (ws_server s)\<lparr>wk_registration := reg\<rparr>, ws_master := m,
      ws_main := MainDrain DrainSelect\<rparr>)"
| w_drain: "ws_main s = MainDrain d \<Longrightarrow> iterates ks (tr_running (wk_runner (ws_server s))) \<Longrightarrow>
    drain_step ctx_done pick ks d (wk_runner (ws_server s)) = (d', r) \<Longrightarrow>
    worker_step rpc own s (WDrain ctx_done pick ks) (s\<lparr>ws_server := (ws_server s)\<lparr>wk_runner := r\<rparr>, ws_main := after_drain d'\<rparr>)"
| w_stop: "ws_main s = MainGraceful \<Longrightarrow> ws_calls s = Map.empty \<Longrightarrow>
    worker_step rpc own s WStop (s\<lparr>ws_server := snd (shutdown_end (ws_server s)), ws_main := MainDone\<rparr>)"
| w_master: "own (ws_master s) m \<Longrightarrow> worker_step rpc own s WMaster (s\<lparr>ws_master := m\<rparr>)"

lemma worker_two:
  "worker_step rpc own s l t \<Longrightarrow> worker_step rpc own t k u \<Longrightarrow> reach (\<lambda>v. v = s) (worker_step rpc own) u"
  by (rule reach_step [where stp = "worker_step rpc own", OF reach_one [where stp = "worker_step rpc own"]])

text \<open>Without interference the steps of the main goroutine are the sequential \<open>worker_start\<close> and
  \<open>shutdown_begin\<close>.\<close>

lemma worker_start_steps:
  assumes "ws_main s = MainListen" and "worker_start rpc None (ws_server s) (ws_master s) = (err, srv, m)"
  shows "reach (\<lambda>u. u = s) (worker_step rpc own)
    (s\<lparr>ws_server := srv, ws_master := m, ws_main := MainServe, ws_beat := BeatWait\<rparr>)"
proof -
  obtain e reg where reg: "Registration_Register rpc (wk_registration (ws_server s)) (ws_master s) = (e, reg, m)"
    and srv: "srv = (ws_server s)\<lparr>wk_grpc := GrpcServing, wk_registration := reg\<rparr>"
    using assms(2) by (auto simp: worker_start_def split: prod.splits)
  let ?t = "s\<lparr>ws_server := (ws_server s)\<lparr>wk_grpc := GrpcServing\<rparr>, ws_main := MainEnrol\<rparr>"
  have "worker_step rpc own s (WListen None) ?t" by (rule w_listen [OF assms(1)])
  moreover have "worker_step rpc own ?t WEnrol
      (s\<lparr>ws_server := srv, ws_master := m, ws_main := MainServe, ws_beat := BeatWait\<rparr>)"
    using w_enrol [of ?t rpc e reg m] reg srv by simp
  ultimately show ?thesis by (rule worker_two)
qed

lemma shutdown_begin_steps:
  assumes "ws_main s = MainServe" and "shutdown_begin rpc (ws_server s) (ws_master s) = (srv, m)"
  shows "reach (\<lambda>u. u = s) (worker_step rpc own) (s\<lparr>ws_server := srv, ws_master := m, ws_main := MainDrain DrainSelect\<rparr>)"
proof -
  obtain e reg where reg: "Registration_Deregister rpc (wk_registration (ws_server s)) (ws_master s) = (e, reg, m)"
    and srv: "srv = (ws_server s)\<lparr>wk_health := NOT_SERVING, wk_registration := reg\<rparr>"
    using assms(2) by (auto simp: shutdown_begin_def split: prod.splits)
  let ?t = "s\<lparr>ws_server := (ws_server s)\<lparr>wk_health := NOT_SERVING\<rparr>, ws_main := MainDeregister\<rparr>"
  have "worker_step rpc own s WSignal ?t" by (rule w_signal [OF assms(1)])
  moreover have "worker_step rpc own ?t WDeregister
      (s\<lparr>ws_server := srv, ws_master := m, ws_main := MainDrain DrainSelect\<rparr>)"
    using w_deregister [of ?t rpc e reg m] reg srv by simp
  ultimately show ?thesis by (rule worker_two)
qed

section \<open>The worker refines its task runner\<close>

definition runner_of :: "('conn, 'w, 's) WorkerSys \<Rightarrow> RunnerSys" where
  "runner_of s = \<lparr>rs_runner = wk_runner (ws_server s), rs_go = ws_calls s\<rparr>"

lemma runner_of_fields [simp]:
  "rs_runner (runner_of s) = wk_runner (ws_server s)" "rs_go (runner_of s) = ws_calls s"
  by (simp_all add: runner_of_def)

lemma runner_sim:
  assumes "worker_step rpc own s l t"
  shows "runner_of t = runner_of s \<or> (\<exists>e. runner_step (runner_of s) e (runner_of t))"
  using assms
proof cases
  case (w_call req g)
  have "runner_step (runner_of s) (CallRun g (execute_task req)) (runner_of t)"
    using runner_call [of "runner_of s" g "execute_task req"] w_call by (simp add: runner_of_def)
  then show ?thesis by blast
next
  case (w_run g p out c r)
  have "runner_step (runner_of s) (StepRun g out) (runner_of t)"
    using runner_go [of "runner_of s" g p out c r] w_run by (simp add: runner_of_def)
  then show ?thesis by blast
next
  case (w_cancel i)
  have "runner_of t = runner_of s \<or> runner_step (runner_of s) (CallCancel i) (runner_of t)"
    using runner_cancel [of "runner_of s" i] w_cancel
    by (auto simp: runner_of_def Worker_CancelTask_def Let_def split: prod.splits)
  then show ?thesis by blast
next
  case (w_drain d ks ctx_done pick d' r)
  have "r = wk_runner (ws_server s) \<or> r = cancel_loop ks (wk_runner (ws_server s))"
    using w_drain(5) by (cases d) (auto split: if_splits)
  then have "runner_of t = runner_of s \<or> runner_step (runner_of s) (CancelAll ks) (runner_of t)"
    using runner_drain [of "runner_of s" ks] w_drain by (auto simp: runner_of_def)
  then show ?thesis by blast
qed (simp_all add: runner_of_def shutdown_end_def)

interpretation runner_view: simulation worker_init "worker_step rpc own" runner_init runner_step runner_of for rpc own
proof unfold_locales
  fix s :: "('conn, 'w, 's) WorkerSys" assume "worker_init s"
  then show "runner_init (runner_of s)"
    by (auto simp: worker_init_def runner_init_def NewWorkerServer_def)
qed (rule runner_sim)


section \<open>What holds in every state of the worker\<close>

text \<open>
  A worker whose main function has ended has stopped its gRPC server and has no call left, one that
  shuts down reports NOT\_SERVING, and a registered one has a client to call.
\<close>

fun started :: "main_pc \<Rightarrow> bool" where
  "started MainListen = False"
| "started (MainFailed err) = False"
| "started _ = True"

fun stopping :: "main_pc \<Rightarrow> bool" where
  "stopping MainDeregister = True"
| "stopping (MainDrain d) = True"
| "stopping MainGraceful = True"
| "stopping MainDone = True"
| "stopping _ = False"

definition worker_inv :: "('conn, 'w, 's) WorkerSys \<Rightarrow> bool" where
  "worker_inv s \<longleftrightarrow> client_ok (wk_registration (ws_server s)) \<and>
     (started (ws_main s) \<longleftrightarrow> wk_grpc (ws_server s) \<noteq> GrpcReady) \<and>
     (ws_main s = MainDone \<longleftrightarrow> wk_grpc (ws_server s) = GrpcStopped) \<and>
     (started (ws_main s) \<and> ws_main s \<noteq> MainDone \<or> ws_calls s = Map.empty) \<and>
     (stopping (ws_main s) \<longrightarrow> wk_health (ws_server s) = NOT_SERVING)"

lemma worker_invD:
  assumes "worker_inv s"
  shows "client_ok (wk_registration (ws_server s))"
    and "ws_main s = MainDone \<Longrightarrow> ws_calls s = Map.empty"
    and "ws_main s = MainDone \<Longrightarrow> wk_grpc (ws_server s) = GrpcStopped"
    and "ws_main s = MainDone \<Longrightarrow> wk_health (ws_server s) = NOT_SERVING"
  using assms by (simp_all add: worker_inv_def)

lemma client_ok_Deregister':
  "Registration_Deregister rpc r s = (err, r', s') \<Longrightarrow> client_ok r \<Longrightarrow> client_ok r'"
  using client_ok_Deregister [of r rpc s] by simp

lemma worker_inv_init: "worker_init s \<Longrightarrow> worker_inv s"
  by (auto simp: worker_init_def worker_inv_def NewWorkerServer_def client_ok_New)

lemma Worker_CancelTask_frame [simp]:
  "wk_grpc (snd (Worker_CancelTask i s)) = wk_grpc s" "wk_health (snd (Worker_CancelTask i s)) = wk_health s"
  "wk_registration (snd (Worker_CancelTask i s)) = wk_registration s"
  by (simp_all add: Worker_CancelTask_def Let_def split: prod.split)

lemma worker_inv_step:
  assumes inv: "worker_inv s" and step: "worker_step rpc own s l t"
  shows "worker_inv t"
  using step
proof cases
  case (w_enrol err reg m)
  with inv client_ok_Register' [OF w_enrol(4)] show ?thesis by (simp add: worker_inv_def)
next
  case (w_beat_register err reg m lost)
  with inv client_ok_Register' [OF w_beat_register(4)] show ?thesis by (auto simp: worker_inv_def)
next
  case (w_deregister err reg m)
  with inv client_ok_Deregister' [OF w_deregister(4)] show ?thesis by (simp add: worker_inv_def)
next
  case (w_call req g)
  then have "started (ws_main s) \<and> ws_main s \<noteq> MainDone" using inv by (auto simp: worker_inv_def accepting_def)
  with w_call inv show ?thesis by (simp add: worker_inv_def)
next
  case (w_drain d ks ctx_done pick d' r)
  with inv show ?thesis by (cases d') (simp_all add: worker_inv_def after_drain_def)
next
  case (w_run g p out c r)
  then have "ws_calls s \<noteq> Map.empty" by auto
  with w_run inv show ?thesis by (auto simp: worker_inv_def)
next
  case (w_cancel i)
  with inv show ?thesis by (auto simp: worker_inv_def)
next
  case w_stop
  with inv show ?thesis by (simp add: worker_inv_def shutdown_end_def)
qed (use inv in \<open>auto simp: worker_inv_def\<close>)

interpretation worker: invariant_system worker_init "worker_step rpc own" worker_inv for rpc own
  by unfold_locales (auto intro: worker_inv_init worker_inv_step)

text \<open>Claim C13: A worker that has stopped has left nothing behind: no execution is in flight, the
  counter of active tasks, the wait group and the book of cancel functions are back where they
  started, the gRPC server is stopped and the health service reports NOT\_SERVING; and at any time, when
  no call is in flight, the counters are zero and no cancel function is kept.\<close>

theorem worker_stops_clean:
  assumes "reach worker_init (worker_step rpc own) s"
  shows "(ws_main s = MainDone \<longrightarrow> ws_calls s = Map.empty \<and> wk_grpc (ws_server s) = GrpcStopped \<and>
      wk_health (ws_server s) = NOT_SERVING \<and> \<not> accepting s) \<and>
    (ws_calls s = Map.empty \<longrightarrow> ActiveCount (wk_runner (ws_server s)) = 0 \<and>
      tr_wg (wk_runner (ws_server s)) = 0 \<and> tr_running (wk_runner (ws_server s)) = Map.empty)"
proof -
  note inv = worker_invD [OF worker.reach_inva [OF assms]]
  have "ActiveCount (wk_runner (ws_server s)) = 0 \<and> tr_wg (wk_runner (ws_server s)) = 0 \<and>
      tr_running (wk_runner (ws_server s)) = Map.empty" if "ws_calls s = Map.empty"
    using idle_runner [OF runner_view.reach_img [OF assms]] that by (simp add: ActiveCount_def)
  with inv(2-4) show ?thesis by (auto simp: accepting_def)
qed

section \<open>A worker can always stop\<close>

lemma worker_finish_call:
  "ws_calls s g = Some p \<Longrightarrow>
   \<exists>t. reach (\<lambda>u. u = s) (worker_step rpc own) t \<and> ws_calls t = (ws_calls s)(g := None) \<and> ws_main t = ws_main s"
proof (induction p arbitrary: s rule: measure_induct_rule [of run_left])
  case (less p)
  obtain c r where step: "run_step (zero_XResult, None) p (wk_runner (ws_server s)) = (c, r)" by fastforce
  let ?t = "s\<lparr>ws_server := (ws_server s)\<lparr>wk_runner := r\<rparr>, ws_calls := (ws_calls s)(g := continue_run c)\<rparr>"
  have first: "reach (\<lambda>u. u = s) (worker_step rpc own) ?t"
    by (rule reach_one [where stp = "worker_step rpc own", OF w_run [OF less.prems step]])
  show ?case
  proof (cases c)
    case (Inr res)
    with first show ?thesis by (intro exI [of _ ?t]) simp
  next
    case (Inl q)
    have "run_left q < run_left p" using run_left_step [of "(zero_XResult, None)" p _ q] step Inl by simp
    moreover have "ws_calls ?t g = Some q" by (simp add: Inl)
    ultimately obtain u where u: "reach (\<lambda>v. v = ?t) (worker_step rpc own) u"
      "ws_calls u = (ws_calls ?t)(g := None)" "ws_main u = ws_main ?t"
      using less.IH [of q ?t] by blast
    have "ws_calls u = (ws_calls s)(g := None)" by (simp add: u(2) fun_eq_iff)
    then show ?thesis by (intro exI [of _ u]) (simp add: u(3) reach_trans [OF first u(1)])
  qed
qed

lemma worker_finish_calls:
  "finite (dom (ws_calls s)) \<Longrightarrow>
   \<exists>t. reach (\<lambda>u. u = s) (worker_step rpc own) t \<and> ws_calls t = Map.empty \<and> ws_main t = ws_main s"
proof (induction "card (dom (ws_calls s))" arbitrary: s)
  case 0
  then have "ws_calls s = Map.empty" by simp
  then show ?case by (intro exI [of _ s] conjI reach_self) simp_all
next
  case (Suc n)
  then have "dom (ws_calls s) \<noteq> {}" by auto
  then obtain g p where g: "ws_calls s g = Some p" by blast
  from worker_finish_call [OF g, of rpc own] obtain t where t: "reach (\<lambda>u. u = s) (worker_step rpc own) t"
    "ws_calls t = (ws_calls s)(g := None)" "ws_main t = ws_main s" by blast
  have "n = card (dom (ws_calls t))" using Suc(2,3) g by (simp add: t(2) domI)
  moreover have "finite (dom (ws_calls t))" using Suc(3) by (simp add: t(2))
  ultimately obtain u where u: "reach (\<lambda>v. v = t) (worker_step rpc own) u" "ws_calls u = Map.empty" "ws_main u = ws_main t"
    using Suc(1) [of t] by blast
  show ?case by (rule exI [of _ u]) (simp add: u(2,3) t(3) reach_trans [OF t(1) u(1)])
qed

definition can_stop :: "('conn, 's) MasterRPC \<Rightarrow> ('s \<Rightarrow> 's \<Rightarrow> bool) \<Rightarrow> ('conn, 'w, 's) WorkerSys \<Rightarrow> bool" where
  "can_stop rpc own s \<longleftrightarrow> (\<exists>t. reach (\<lambda>u. u = s) (worker_step rpc own) t \<and> ws_main t = MainDone)"

lemma can_stop_later:
  "reach (\<lambda>u. u = s) (worker_step rpc own) t \<Longrightarrow> can_stop rpc own t \<Longrightarrow> can_stop rpc own s"
proof -
  assume s: "reach (\<lambda>u. u = s) (worker_step rpc own) t" and "can_stop rpc own t"
  then obtain u where "reach (\<lambda>v. v = t) (worker_step rpc own) u" and "ws_main u = MainDone"
    unfolding can_stop_def by blast
  with reach_trans [OF s] show ?thesis unfolding can_stop_def by blast
qed

lemma can_stop_step: "worker_step rpc own s l t \<Longrightarrow> can_stop rpc own t \<Longrightarrow> can_stop rpc own s"
  by (rule can_stop_later [OF reach_one [where stp = "worker_step rpc own"]])


lemma stop_graceful:
  assumes "finite (dom (ws_calls s))" and "ws_main s = MainGraceful"
  shows "can_stop rpc own s"
proof -
  obtain t where t: "reach (\<lambda>u. u = s) (worker_step rpc own) t" "ws_calls t = Map.empty" "ws_main t = MainGraceful"
    using worker_finish_calls [OF assms(1), of rpc own] assms(2) by auto
  from w_stop [OF t(3,2), of rpc own] reach_step [where stp = "worker_step rpc own", OF t(1)]
  have "reach (\<lambda>u. u = s) (worker_step rpc own) (t\<lparr>ws_server := snd (shutdown_end (ws_server t)), ws_main := MainDone\<rparr>)"
    by blast
  moreover have "ws_main (t\<lparr>ws_server := snd (shutdown_end (ws_server t)), ws_main := MainDone\<rparr>) = MainDone" by simp
  ultimately show ?thesis unfolding can_stop_def by blast
qed

lemma drain_step_idle:
  assumes "tr_wg r = 0"
  shows "\<exists>d' r'. drain_step False False ks d r = (d', r') \<and> tr_wg r' = 0 \<and>
    (d' = None \<or> (d = DrainCancelAll \<and> d' = Some DrainWaitAgain))"
  using assms by (cases d) auto

lemma stop_drain:
  assumes r: "reach worker_init (worker_step rpc own) s" and d: "ws_main s = MainDrain d"
  shows "can_stop rpc own s"
proof -
  have fin: "finite (dom (ws_calls s))"
    using runner.reach_inva [OF runner_view.reach_img [OF r]] by (simp add: runner_inv_def)
  obtain t where t: "reach (\<lambda>u. u = s) (worker_step rpc own) t" "ws_calls t = Map.empty" "ws_main t = MainDrain d"
    using worker_finish_calls [OF fin, of rpc own] d by auto
  have wait: "can_stop rpc own u"
    if u: "ws_calls u = Map.empty" "tr_wg (wk_runner (ws_server u)) = 0" "ws_main u = MainDrain e"
      "tr_running (wk_runner (ws_server u)) = Map.empty" and e: "e \<noteq> DrainCancelAll" for u :: "('a, 'b, 'c) WorkerSys" and e
  proof -
    obtain d' q where st: "drain_step False False [] e (wk_runner (ws_server u)) = (d', q)" "d' = None"
      using drain_step_idle [OF u(2), of "[]" e] e by auto
    have "iterates [] (tr_running (wk_runner (ws_server u)))" by (simp add: u(4) iterates_def)
    from w_drain [OF u(3) this st(1)] show ?thesis
      by (rule can_stop_step) (rule stop_graceful, simp_all add: u(1) st(2) after_drain_def)
  qed
  note idle = idle_runner [OF runner_view.reach_img [OF reach_trans [OF r t(1)]]]
  have t0: "tr_wg (wk_runner (ws_server t)) = 0" "tr_running (wk_runner (ws_server t)) = Map.empty"
    using idle t(2) by simp_all
  have "can_stop rpc own t"
  proof (cases "d = DrainCancelAll")
    case True
    have "iterates [] (tr_running (wk_runner (ws_server t)))" by (simp add: t0(2) iterates_def)
    moreover have "drain_step False False [] d (wk_runner (ws_server t)) = (Some DrainWaitAgain, wk_runner (ws_server t))"
      by (simp add: True)
    ultimately have "worker_step rpc own t (WDrain False False [])
        (t\<lparr>ws_server := (ws_server t)\<lparr>wk_runner := wk_runner (ws_server t)\<rparr>, ws_main := MainDrain DrainWaitAgain\<rparr>)"
      using w_drain [OF t(3), of "[]" False False "Some DrainWaitAgain" "wk_runner (ws_server t)" rpc]
      by (simp add: after_drain_def)
    then show ?thesis
      by (rule can_stop_step) (rule wait [of _ DrainWaitAgain], simp_all add: t(2) t0)
  next
    case False
    show ?thesis by (rule wait [OF t(2) t0(1) t(3) t0(2) False])
  qed
  then show ?thesis by (rule can_stop_later [OF t(1)])
qed

lemma stop_step:
  assumes "reach worker_init (worker_step rpc own) s" and "worker_step rpc own s l t"
    and "reach worker_init (worker_step rpc own) t \<Longrightarrow> can_stop rpc own t"
  shows "can_stop rpc own s"
  by (rule can_stop_step [OF assms(2) assms(3) [OF reach_step [where stp = "worker_step rpc own", OF assms(1,2)]]])


lemma stop_deregister:
  assumes "reach worker_init (worker_step rpc own) s" and "ws_main s = MainDeregister"
  shows "can_stop rpc own s"
proof -
  obtain e reg m where "Registration_Deregister rpc (wk_registration (ws_server s)) (ws_master s) = (e, reg, m)"
    using prod_cases3 by blast
  from w_deregister [OF assms(2) this] show ?thesis by (rule stop_step [OF assms(1)]) (rule stop_drain, auto)
qed

lemma stop_serve:
  assumes "reach worker_init (worker_step rpc own) s" and "ws_main s = MainServe"
  shows "can_stop rpc own s"
  by (rule stop_step [OF assms(1) w_signal [OF assms(2)]]) (rule stop_deregister, auto)

lemma stop_enrol:
  assumes "reach worker_init (worker_step rpc own) s" and "ws_main s = MainEnrol"
  shows "can_stop rpc own s"
proof -
  obtain e reg m where "Registration_Register rpc (wk_registration (ws_server s)) (ws_master s) = (e, reg, m)"
    using prod_cases3 by blast
  from w_enrol [OF assms(2) this] show ?thesis by (rule stop_step [OF assms(1)]) (rule stop_serve, auto)
qed

text \<open>Claim C14: From every state that a worker can reach, whatever is in flight and wherever the
  shutdown stands, there is a run in which it stops: the wait for the drain, the second wait after the
  cancellation and the graceful stop cannot block each other. (Not so if it could not listen.)\<close>

theorem worker_can_always_stop:
  assumes "reach worker_init (worker_step rpc own) s" and "\<And>err. ws_main s \<noteq> MainFailed err"
  shows "\<exists>t. reach (\<lambda>u. u = s) (worker_step rpc own) t \<and> ws_main t = MainDone"
proof -
  have "can_stop rpc own s"
  proof (cases "ws_main s")
    case MainListen
    show ?thesis by (rule stop_step [OF assms(1) w_listen [OF MainListen]]) (rule stop_enrol, auto)
  next
    case MainGraceful
    have "finite (dom (ws_calls s))"
      using runner.reach_inva [OF runner_view.reach_img [OF assms(1)]] by (simp add: runner_inv_def)
    then show ?thesis by (rule stop_graceful [OF _ MainGraceful])
  next
    case MainDone
    then show ?thesis unfolding can_stop_def by (intro exI [of _ s] conjI reach_self)
  next
    case (MainFailed err)
    with assms(2) [of err] show ?thesis by simp
  next
    case MainEnrol
    show ?thesis by (rule stop_enrol [OF assms(1) MainEnrol])
  next
    case MainServe
    show ?thesis by (rule stop_serve [OF assms(1) MainServe])
  next
    case MainDeregister
    show ?thesis by (rule stop_deregister [OF assms(1) MainDeregister])
  next
    case (MainDrain d)
    show ?thesis by (rule stop_drain [OF assms(1) MainDrain])
  qed
  then show ?thesis unfolding can_stop_def .
qed

definition sample_boot :: "'s \<Rightarrow> (unit, ctx list, 's) WorkerSys" where
  "sample_boot m = \<lparr>ws_server = sample_worker 1, ws_calls = Map.empty, ws_beat = BeatNone,
     ws_main = MainListen, ws_master = m\<rparr>"

lemma sample_boot_init: "worker_init (sample_boot m)"
  unfolding worker_init_def sample_boot_def sample_worker_def by blast

lemma reach_boot: "reach worker_init stp (sample_boot m)"
  by (rule reach_init, rule sample_boot_init)

theorem worker_can_always_stop_witness:
  "\<exists>t. reach (\<lambda>u. u = sample_boot True) (worker_step sample_rpc (\<lambda>_ _. True)) t \<and> ws_main t = MainDone"
  by (rule worker_can_always_stop [OF reach_boot]) (simp add: sample_boot_def)

text \<open>A worker that serves and has accepted a call.\<close>

lemma reach_called:
  "\<exists>srv m1. wk_runner srv = NewTaskRunner 1 \<and> wk_grpc srv = GrpcServing \<and>
     reach worker_init (worker_step rpc own) ((sample_boot m)\<lparr>ws_server := srv, ws_master := m1, ws_main := MainServe,
       ws_beat := BeatWait, ws_calls := [0 \<mapsto> RunCheck (execute_task (sample_execute None))]\<rparr>)"
proof -
  let ?boot = "sample_boot m" and ?req = "sample_execute None"
  obtain e srv m1 where start: "worker_start rpc None (ws_server ?boot) (ws_master ?boot) = (e, srv, m1)"
    using prod_cases3 by blast
  then have srv: "wk_runner srv = NewTaskRunner 1" "wk_grpc srv = GrpcServing"
    by (auto simp: worker_start_def sample_boot_def sample_worker_def NewWorkerServer_def sample_worker_config_def
        split: prod.splits)
  let ?s1 = "?boot\<lparr>ws_server := srv, ws_master := m1, ws_main := MainServe, ws_beat := BeatWait\<rparr>"
  have "ws_main ?boot = MainListen" by (simp add: sample_boot_def)
  then have r1: "reach worker_init (worker_step rpc own) ?s1"
    using reach_trans [OF reach_boot worker_start_steps [OF _ start]] by blast
  have "worker_step rpc own ?s1 (WCall 0 ?req) (?s1\<lparr>ws_calls := (ws_calls ?s1)(0 \<mapsto> RunCheck (execute_task ?req))\<rparr>)"
    by (rule w_call) (simp_all add: accepting_def srv sample_execute_def sample_boot_def)
  from reach_step [where stp = "worker_step rpc own", OF r1 this] srv show ?thesis
    by (intro exI [of _ srv] exI [of _ m1]) (simp add: sample_boot_def)
qed

text \<open>It takes the call, is told to stop, and stops.\<close>

theorem worker_stops_clean_witness:
  "\<exists>t :: (unit, ctx list, bool) WorkerSys. reach worker_init (worker_step sample_rpc (\<lambda>_ _. True)) t \<and>
     ws_main t = MainDone \<and> ws_calls t = Map.empty \<and> wk_grpc (ws_server t) = GrpcStopped \<and>
     ActiveCount (wk_runner (ws_server t)) = 0 \<and> tr_wg (wk_runner (ws_server t)) = 0"
proof -
  obtain srv m1 where s: "reach worker_init (worker_step sample_rpc (\<lambda>_ _. True)) ((sample_boot True)\<lparr>ws_server := srv,
      ws_master := m1, ws_main := MainServe, ws_beat := BeatWait,
      ws_calls := [0 \<mapsto> RunCheck (execute_task (sample_execute None))]\<rparr>)" (is "reach _ _ ?s")
    using reach_called [of sample_rpc "\<lambda>_ _. True" True] by blast
  have "can_stop sample_rpc (\<lambda>_ _. True) ?s" by (rule stop_serve [OF s]) simp
  then obtain t where "reach (\<lambda>u. u = ?s) (worker_step sample_rpc (\<lambda>_ _. True)) t" and t: "ws_main t = MainDone"
    unfolding can_stop_def by blast
  from reach_trans [OF s this(1)] have r: "reach worker_init (worker_step sample_rpc (\<lambda>_ _. True)) t" .
  from worker_stops_clean [OF r] r t show ?thesis by blast
qed


section \<open>A call that the drain does not wait for\<close>

lemma reach_w_runI:
  "reach ini (worker_step rpc own) s \<Longrightarrow> ws_calls s g = Some p \<Longrightarrow>
   run_step out p (wk_runner (ws_server s)) = (c, r) \<Longrightarrow>
   t = s\<lparr>ws_server := (ws_server s)\<lparr>wk_runner := r\<rparr>, ws_calls := (ws_calls s)(g := continue_run c)\<rparr> \<Longrightarrow>
   reach ini (worker_step rpc own) t"
  using w_run by (metis reach_step)

text \<open>A call goes on to its execution, when there is room.\<close>

lemma worker_enter:
  assumes "reach ini (worker_step rpc own) s" and g: "ws_calls s g = Some (RunCheck task)"
    and room: "tr_activeTasks (wk_runner (ws_server s)) < tr_maxTasks (wk_runner (ws_server s))"
  shows "reach ini (worker_step rpc own) (s\<lparr>ws_server := (ws_server s)\<lparr>wk_runner :=
      run_enter task (tr_nextCtx (wk_runner (ws_server s))) (wk_runner (ws_server s))\<rparr>,
    ws_calls := (ws_calls s)(g \<mapsto> RunExecute task (tr_nextCtx (wk_runner (ws_server s))))\<rparr>)"
proof -
  let ?r = "wk_runner (ws_server s)" and ?c = "tr_nextCtx (wk_runner (ws_server s))" and ?out = "(zero_XResult, None)"
  let ?s = "\<lambda>r p. s\<lparr>ws_server := (ws_server s)\<lparr>wk_runner := r\<rparr>, ws_calls := (ws_calls s)(g \<mapsto> p)\<rparr>"
  let ?r1 = "?r\<lparr>tr_nextCtx := Suc ?c\<rparr>"
  let ?r2 = "?r1\<lparr>tr_running := (tr_running ?r)(xt_ID task \<mapsto> ?c)\<rparr>"
  let ?r3 = "?r2\<lparr>tr_activeTasks := wrap64 (tr_activeTasks ?r + 1)\<rparr>"
  have "reach ini (worker_step rpc own) (?s ?r1 (RunTrack task ?c))"
    by (rule reach_w_runI [OF assms(1) g, where out = ?out], use room in simp, simp)
  then have "reach ini (worker_step rpc own) (?s ?r2 (RunAdd task ?c))"
    by (rule reach_w_runI [where g = g and out = ?out], simp, simp, simp)
  then have "reach ini (worker_step rpc own) (?s ?r3 (RunWgAdd task ?c))"
    by (rule reach_w_runI [where g = g and out = ?out], simp, simp, simp)
  then show ?thesis
    by (rule reach_w_runI [where g = g and out = ?out], simp, simp, simp add: run_enter_def)
qed

text \<open>The drain counts the calls that have reached the wait group. A call that the server accepted
  before, and that is still ahead of it, is neither waited for nor cancelled by the drain: it starts to
  execute after the drain is over, and the graceful stop then waits for it without the limit of
  thirty seconds.\<close>

theorem drain_misses_late_call:
  "\<exists>(s :: (unit, ctx list, 's) WorkerSys) task c. reach worker_init (worker_step rpc own) s \<and>
     ws_main s = MainGraceful \<and> ws_calls s 0 = Some (RunExecute task c) \<and>
     ActiveCount (wk_runner (ws_server s)) = 1 \<and> c \<notin> tr_cancelled (wk_runner (ws_server s))"
proof -
  fix m :: 's
  let ?task = "execute_task (sample_execute None)"
  obtain srv m1 where srv: "wk_runner srv = NewTaskRunner 1"
    and r2: "reach worker_init (worker_step rpc own) ((sample_boot m)\<lparr>ws_server := srv, ws_master := m1,
      ws_main := MainServe, ws_beat := BeatWait, ws_calls := [0 \<mapsto> RunCheck ?task]\<rparr>)" (is "reach _ _ ?s2")
    using reach_called [of rpc own m] by blast
  obtain srv2 m2 where shut: "shutdown_begin rpc (ws_server ?s2) (ws_master ?s2) = (srv2, m2)" by fastforce
  then have srv2: "wk_runner srv2 = NewTaskRunner 1"
    using srv by (auto simp: shutdown_begin_def split: prod.splits)
  let ?s3 = "?s2\<lparr>ws_server := srv2, ws_master := m2, ws_main := MainDrain DrainSelect\<rparr>"
  have "ws_main ?s2 = MainServe" by simp
  from reach_trans [OF r2 shutdown_begin_steps [OF this shut]]
  have r3: "reach worker_init (worker_step rpc own) ?s3" .
  let ?s4 = "?s3\<lparr>ws_server := (ws_server ?s3)\<lparr>wk_runner := NewTaskRunner 1\<rparr>, ws_main := after_drain None\<rparr>"
  have "worker_step rpc own ?s3 (WDrain False False []) ?s4"
    by (rule w_drain [where d = DrainSelect]) (simp_all add: srv2 iterates_def NewTaskRunner_def)
  from reach_step [where stp = "worker_step rpc own", OF r3 this]
  have r4: "reach worker_init (worker_step rpc own) ?s4" .
  have "reach worker_init (worker_step rpc own) (?s4\<lparr>ws_server := (ws_server ?s4)\<lparr>wk_runner :=
      run_enter ?task 0 (NewTaskRunner 1)\<rparr>, ws_calls := (ws_calls ?s4)(0 \<mapsto> RunExecute ?task 0)\<rparr>)"
    using worker_enter [OF r4, of 0 ?task] by (simp add: NewTaskRunner_def)
  then show ?thesis
    by (intro exI [of _ "?s4\<lparr>ws_server := (ws_server ?s4)\<lparr>wk_runner := run_enter ?task 0 (NewTaskRunner 1)\<rparr>,
          ws_calls := (ws_calls ?s4)(0 \<mapsto> RunExecute ?task 0)\<rparr>"] exI [of _ ?task] exI [of _ 0] conjI)
       (simp_all add: after_drain_def run_enter_def NewTaskRunner_def ActiveCount_def)
qed

end
