(* ===== verification/Client.thy ===== *)
theory Client
  imports Executor Proto
begin

text \<open>
  \<open>pkg/client/client.go\<close>: the Go client of the master service. The generated gRPC client is a
  record of functions on the state \<open>'s\<close> of the world it talks to; \<open>json.Marshal\<close> is an argument.
\<close>

section \<open>The master service and the status it reports\<close>

record 's MasterServiceClient =
  svc_Submit :: "SubmitRequest \<Rightarrow> 's \<Rightarrow> (grpc_error + SubmitResponse) \<times> 's"
  svc_GetStatus :: "string \<Rightarrow> 's \<Rightarrow> (grpc_error + GetStatusResponse) \<times> 's"
  svc_Cancel :: "string \<Rightarrow> 's \<Rightarrow> (grpc_error + CancelResponse) \<times> 's"

datatype client_error =
    ConnectFailed string | MarshalFailed string | SubmitFailed grpc_error
  | StatusFailed grpc_error | CancelFailed grpc_error | ContextError string

text \<open>The type \<open>JobStatus\<close> of the package, whose status is the name of the enum value.\<close>

record ClientStatus =
  cst_JobID :: string
  cst_Status :: string
  cst_Output :: bytes
  cst_Error :: string
  cst_ExitCode :: int
  cst_WorkerID :: string
  cst_CreatedAt :: time
  cst_CompletedAt :: time

text \<open>\<open>(*timestamppb.Timestamp).AsTime\<close>: a nil timestamp is the Unix epoch.\<close>

definition as_time :: "time option \<Rightarrow> time" where
  "as_time t = (case t of None \<Rightarrow> 0 | Some x \<Rightarrow> x)"

fun is_terminal_name :: "string \<Rightarrow> bool" where
  "is_terminal_name st = (st = ''JOB_STATUS_COMPLETED'' \<or> st = ''JOB_STATUS_FAILED'' \<or>
     st = ''JOB_STATUS_CANCELLED'' \<or> st = ''JOB_STATUS_TIMEOUT'')"

definition IsComplete :: "ClientStatus \<Rightarrow> bool" where
  "IsComplete st = is_terminal_name (cst_Status st)"

definition Client_IsSuccess :: "ClientStatus \<Rightarrow> bool" where
  "Client_IsSuccess st \<longleftrightarrow> cst_Status st = ''JOB_STATUS_COMPLETED'' \<and> cst_ExitCode st = 0"

section \<open>Operations\<close>

record ('conn, 's) Client =
  cl_conn :: 'conn
  cl_master :: "'s MasterServiceClient"

definition New :: "(string \<Rightarrow> string + 'conn) \<Rightarrow> ('conn \<Rightarrow> 's MasterServiceClient) \<Rightarrow> string \<Rightarrow>
    client_error + ('conn, 's) Client" where
  "New dial stub address =
     (case dial address of
        Inl err \<Rightarrow> Inl (ConnectFailed err)
      | Inr conn \<Rightarrow> Inr \<lparr>cl_conn = conn, cl_master = stub conn\<rparr>)"

definition command_payload :: "string \<Rightarrow> string list \<Rightarrow> CommandPayload" where
  "command_payload command args = \<lparr>cp_Command = command, cp_Args = args, cp_Env = Map.empty,
     cp_WorkingDir = '''', cp_Stdin = ''''\<rparr>"

definition command_request :: "bytes \<Rightarrow> duration \<Rightarrow> SubmitRequest" where
  "command_request payload timeout = \<lparr>sub_TaskType = ''command'', sub_Payload = payload,
     sub_Timeout = Some timeout, sub_Priority = 0, sub_Metadata = Map.empty\<rparr>"

definition RunCommandWithTimeout ::
    "(CommandPayload \<Rightarrow> string + bytes) \<Rightarrow> ('conn, 's) Client \<Rightarrow> string \<Rightarrow> duration \<Rightarrow> string list \<Rightarrow> 's \<Rightarrow>
     (client_error + string) \<times> 's" where
  "RunCommandWithTimeout marshal c command timeout args s =
     (case marshal (command_payload command args) of
        Inl err \<Rightarrow> (Inl (MarshalFailed err), s)
      | Inr payload \<Rightarrow>
          (case svc_Submit (cl_master c) (command_request payload timeout) s of
             (Inl err, s') \<Rightarrow> (Inl (SubmitFailed err), s')
           | (Inr resp, s') \<Rightarrow> (Inr (sub_JobId resp), s')))"

definition RunCommand ::
    "(CommandPayload \<Rightarrow> string + bytes) \<Rightarrow> ('conn, 's) Client \<Rightarrow> string \<Rightarrow> string list \<Rightarrow> 's \<Rightarrow>
     (client_error + string) \<times> 's" where
  "RunCommand marshal c command args s =
     RunCommandWithTimeout marshal c command (30 * second) args s"

definition client_status :: "GetStatusResponse \<Rightarrow> ClientStatus" where
  "client_status resp = \<lparr>cst_JobID = gs_JobId resp, cst_Status = JobStatus_String (gs_Status resp),
     cst_Output = gs_Output resp, cst_Error = gs_Error resp, cst_ExitCode = gs_ExitCode resp,
     cst_WorkerID = gs_WorkerId resp, cst_CreatedAt = as_time (gs_CreatedAt resp),
     cst_CompletedAt = as_time (gs_CompletedAt resp)\<rparr>"

definition Client_GetStatus ::
    "('conn, 's) Client \<Rightarrow> string \<Rightarrow> 's \<Rightarrow> (client_error + ClientStatus) \<times> 's" where
  "Client_GetStatus c jobID s =
     (case svc_GetStatus (cl_master c) jobID s of
        (Inl err, s') \<Rightarrow> (Inl (StatusFailed err), s')
      | (Inr resp, s') \<Rightarrow> (Inr (client_status resp), s'))"

definition Client_Cancel ::
    "('conn, 's) Client \<Rightarrow> string \<Rightarrow> 's \<Rightarrow> (client_error + bool) \<times> 's" where
  "Client_Cancel c jobID s =
     (case svc_Cancel (cl_master c) jobID s of
        (Inl err, s') \<Rightarrow> (Inl (CancelFailed err), s')
      | (Inr resp, s') \<Rightarrow> (Inr (can_Cancelled resp), s'))"

definition poll_interval :: "duration \<Rightarrow> duration" where
  "poll_interval d = (if d \<le> 0 then 500000000 else d)"

text \<open>
  The loop of \<open>WaitForCompletion\<close> over the events that its \<open>select\<close> sees: the context ends, or
  the ticker fires, after the world has changed by a function. \<open>None\<close> means that it still waits
  when the listed events are over.
\<close>

text \<open>The switch of the loop, which repeats that of \<open>IsComplete\<close>.\<close>

fun wait_ends :: "string \<Rightarrow> bool" where
  "wait_ends st = (st = ''JOB_STATUS_COMPLETED'' \<or> st = ''JOB_STATUS_FAILED'' \<or>
     st = ''JOB_STATUS_CANCELLED'' \<or> st = ''JOB_STATUS_TIMEOUT'')"

datatype 's poll_event = PollDone string | PollTick "'s \<Rightarrow> 's"

fun WaitForCompletion ::
    "('conn, 's) Client \<Rightarrow> string \<Rightarrow> 's poll_event list \<Rightarrow> 's \<Rightarrow>
     (client_error + ClientStatus) option \<times> 's" where
  "WaitForCompletion c jobID [] s = (None, s)"
| "WaitForCompletion c jobID (PollDone err # es) s = (Some (Inl (ContextError err)), s)"
| "WaitForCompletion c jobID (PollTick f # es) s =
     (case Client_GetStatus c jobID (f s) of
        (Inl err, s') \<Rightarrow> (Some (Inl err), s')
      | (Inr status, s') \<Rightarrow>
          if wait_ends (cst_Status status) then (Some (Inr status), s')
          else WaitForCompletion c jobID es s')"

definition RunAndWait ::
    "(CommandPayload \<Rightarrow> string + bytes) \<Rightarrow> ('conn, 's) Client \<Rightarrow> string \<Rightarrow> string list \<Rightarrow>
     's poll_event list \<Rightarrow> 's \<Rightarrow> (client_error + ClientStatus) option \<times> 's" where
  "RunAndWait marshal c command args es s =
     (case RunCommand marshal c command args s of
        (Inl err, s') \<Rightarrow> (Some (Inl err), s')
      | (Inr jobID, s') \<Rightarrow> WaitForCompletion c jobID es s')"

section \<open>What waiting returns\<close>

definition terminal_status :: "JobStatus \<Rightarrow> bool" where
  "terminal_status st \<longleftrightarrow> st \<in> {JOB_STATUS_COMPLETED, JOB_STATUS_FAILED, JOB_STATUS_CANCELLED, JOB_STATUS_TIMEOUT}"

lemma show_nat_head: "\<exists>c ds. show_nat n = c # ds \<and> of_char c < (58 :: nat)"
proof (induction n rule: less_induct)
  case (less n)
  show ?case
  proof (cases "n < 10")
    case True
    then show ?thesis by (subst show_nat.simps) (simp add: of_char_of)
  next
    case False
    then have "n div 10 < n" by simp
    from less.IH [OF this] False show ?thesis by (subst show_nat.simps) auto
  qed
qed

lemma show_int_not_J: "show_int i \<noteq> CHR ''J'' # s"
proof -
  have "show_nat n \<noteq> CHR ''J'' # s" for n
    using show_nat_head [of n] by auto
  then show ?thesis by (simp add: show_int_def)
qed

text \<open>The two switches of the client agree.\<close>

lemma wait_ends_iff: "wait_ends (cst_Status st) \<longleftrightarrow> IsComplete st"
  by (simp add: IsComplete_def)

lemma terminal_name_iff: "is_terminal_name (JobStatus_String st) \<longleftrightarrow> terminal_status st"
  by (cases st) (simp_all add: terminal_status_def show_int_not_J)

text \<open>What the master answers when it is asked after each tick, and which answers end the wait.\<close>

fun answers :: "('conn, 's) Client \<Rightarrow> string \<Rightarrow> ('s \<Rightarrow> 's) list \<Rightarrow> 's \<Rightarrow> (client_error + ClientStatus) list" where
  "answers c jobID [] s = []"
| "answers c jobID (f # fs) s =
     (case Client_GetStatus c jobID (f s) of (a, s') \<Rightarrow> a # answers c jobID fs s')"

definition final_answer :: "client_error + ClientStatus \<Rightarrow> bool" where
  "final_answer a = (case a of Inl err \<Rightarrow> True | Inr st \<Rightarrow> IsComplete st)"

lemma Wait_answers:
  "fst (WaitForCompletion c jobID (map PollTick fs @ es) s) =
   (case find final_answer (answers c jobID fs s) of
      Some a \<Rightarrow> Some a
    | None \<Rightarrow> fst (WaitForCompletion c jobID es
        (fold (\<lambda>f s. snd (Client_GetStatus c jobID (f s))) fs s)))"
  by (induction fs arbitrary: s)
     (auto simp: final_answer_def wait_ends_iff simp del: wait_ends.simps split: prod.splits sum.splits option.splits)

text \<open>Claim C26: Waiting returns the first final answer: the first terminal status the master
  reports, or the first error, whichever comes first, and never a status that is not terminal. With
  no final answer it goes on waiting, until the context ends, and then returns the context's error.\<close>

theorem Wait_returns_first_final_answer:
  "fst (WaitForCompletion c jobID (map PollTick fs) s) = find final_answer (answers c jobID fs s) \<and>
   fst (WaitForCompletion c jobID (map PollTick fs @ [PollDone err]) s) =
     Some (case find final_answer (answers c jobID fs s) of Some a \<Rightarrow> a | None \<Rightarrow> Inl (ContextError err))"
  using Wait_answers [of c jobID fs "[]" s] Wait_answers [of c jobID fs "[PollDone err]" s]
  by (auto split: option.splits)

lemma IsComplete_client_status: "IsComplete (client_status resp) \<longleftrightarrow> terminal_status (gs_Status resp)"
  by (simp add: IsComplete_def client_status_def terminal_name_iff del: is_terminal_name.simps)

lemma Wait_terminal:
  assumes "svc_GetStatus (cl_master c) jobID (f s) = (Inr resp, s')" and "terminal_status (gs_Status resp)"
  shows "WaitForCompletion c jobID (PollTick f # es) s = (Some (Inr (client_status resp)), s')"
  using assms IsComplete_client_status [of resp]
  by (simp add: Client_GetStatus_def wait_ends_iff del: wait_ends.simps)

end
