(* ===== verification/Operator.thy ===== *)
theory Operator
  imports Client
begin

text \<open>
  \<open>internal/operator/controller.go\<close> with the types of \<open>api/v1\<close>: the controller that turns a
  DistributedJob resource into jobs of the master. The Kubernetes libraries (the accessors of
  \<open>unstructured\<close>, the dynamic client, the informer) and the master are functions of a record, on
  objects \<open>'u\<close> and a world \<open>'s\<close>; so are \<open>json.Marshal\<close> and \<open>time.ParseDuration\<close>.
\<close>

section \<open>The API types\<close>

datatype JobPhase = JobPhasePending | JobPhaseRunning | JobPhaseSucceeded | JobPhaseFailed

fun JobPhase_string :: "JobPhase \<Rightarrow> string" where
  "JobPhase_string JobPhasePending = ''Pending''"
| "JobPhase_string JobPhaseRunning = ''Running''"
| "JobPhase_string JobPhaseSucceeded = ''Succeeded''"
| "JobPhase_string JobPhaseFailed = ''Failed''"

record DistributedJobSpec =
  dj_Command :: string
  dj_Args :: "string list"
  dj_Parallelism :: int
  dj_Timeout :: string
  dj_WorkingDir :: string
  dj_Env :: metadata

record DistributedJobStatus =
  ds_Phase :: string
  ds_StartTime :: "time option"
  ds_CompletionTime :: "time option"
  ds_Completions :: int
  ds_Failed :: int
  ds_Message :: string
  ds_TaskIDs :: "string list option"

record GroupVersionResource =
  gvr_Group :: string
  gvr_Version :: string
  gvr_Resource :: string

definition GVR :: GroupVersionResource where
  "GVR = \<lparr>gvr_Group = ''distexec.io'', gvr_Version = ''v1'', gvr_Resource = ''distributedjobs''\<rparr>"

definition api_GroupVersion :: "string \<times> string" where
  "api_GroupVersion = (''distexec.io'', ''v1'')"

definition api_Resource :: "string \<Rightarrow> string \<times> string" where
  "api_Resource resource = (fst api_GroupVersion, resource)"

section \<open>Dynamic values and the outside\<close>

text \<open>
  What an \<open>interface{}\<close> of this package holds. Decoded JSON has no \<open>int32\<close> and no
  \<open>[]string\<close>; the controller makes values of both types.
\<close>

datatype dyn =
    GNil | GBool bool | GInt64 int | GInt32 int | GFloat64 "64 word" | GString string
  | GStringSlice "string list" | GSlice "dyn list" | GMap "(string \<times> dyn) list"

fun dyn_string :: "dyn \<Rightarrow> string" where
  "dyn_string (GString s) = s"
| "dyn_string _ = ''''"

fun dyn_int64 :: "dyn \<Rightarrow> int option" where
  "dyn_int64 (GInt64 n) = Some n"
| "dyn_int64 _ = None"

datatype 'u set_result = SetPanic | SetError string | SetOK 'u

record ('u, 's) OperatorEnv =
  oe_Name :: "'u \<Rightarrow> string"
  oe_Namespace :: "'u \<Rightarrow> string"
  oe_NestedString :: "'u \<Rightarrow> string list \<Rightarrow> string"
  oe_NestedStringSlice :: "'u \<Rightarrow> string list \<Rightarrow> string list"
  oe_NestedMap :: "'u \<Rightarrow> string list \<Rightarrow> (string \<rightharpoonup> dyn) \<times> bool \<times> string option"
  oe_SetNestedField :: "'u \<Rightarrow> dyn \<Rightarrow> string list \<Rightarrow> 'u set_result"
  oe_Get :: "string \<Rightarrow> string \<Rightarrow> 's \<Rightarrow> (string + 'u) \<times> 's"
  oe_UpdateStatus :: "string \<Rightarrow> 'u \<Rightarrow> 's \<Rightarrow> string option \<times> 's"
  oe_master :: "'s MasterServiceClient"
  oe_Marshal :: "CommandPayload \<Rightarrow> string + bytes"
  oe_ParseDuration :: "string \<Rightarrow> string + duration"
  oe_Now :: "string"

text \<open>How a handler ends; a panic is not recovered by the controller.\<close>

datatype op_outcome = OpDone | OpPanic

section \<open>Writing the status\<close>

definition status_value ::
    "string \<Rightarrow> int \<Rightarrow> int \<Rightarrow> string \<Rightarrow> string list option \<Rightarrow> string \<Rightarrow> string \<Rightarrow> (string \<times> dyn) list" where
  "status_value phase completions failed message taskIDs existingStart now =
     [(''phase'', GString phase), (''completions'', GInt32 completions), (''failed'', GInt32 failed),
      (''message'', GString message)] @
     (case taskIDs of None \<Rightarrow> [] | Some ids \<Rightarrow> [(''taskIds'', GStringSlice ids)]) @
     (if phase = ''Running'' \<and> existingStart = '''' then [(''startTime'', GString now)] else []) @
     (if phase = ''Succeeded'' \<or> phase = ''Failed'' then [(''completionTime'', GString now)] else [])"

definition updateStatus ::
    "('u, 's) OperatorEnv \<Rightarrow> string \<Rightarrow> string \<Rightarrow> string \<Rightarrow> int \<Rightarrow> int \<Rightarrow> string \<Rightarrow> string list option \<Rightarrow> 's \<Rightarrow>
     op_outcome \<times> 's" where
  "updateStatus env namespace name phase completions failed message taskIDs s =
     (case oe_Get env namespace name s of
        (Inl err, s') \<Rightarrow> (OpDone, s')
      | (Inr u, s') \<Rightarrow>
          let existingStart = oe_NestedString env u [''status'', ''startTime''];
              status = status_value phase completions failed message taskIDs existingStart (oe_Now env)
          in (case oe_SetNestedField env u (GMap status) [''status''] of
                SetPanic \<Rightarrow> (OpPanic, s')
              | SetError err \<Rightarrow> (OpDone, s')
              | SetOK u' \<Rightarrow> (OpDone, snd (oe_UpdateStatus env namespace u' s'))))"

section \<open>Starting the tasks\<close>

fun string_items :: "string list \<Rightarrow> dyn list \<Rightarrow> string list" where
  "string_items result [] = result"
| "string_items result (GString s # items) = string_items (result @ [s]) items"
| "string_items result (item # items) = string_items result items"

fun toStringSlice :: "dyn \<Rightarrow> string list" where
  "toStringSlice (GSlice items) = string_items [] items"
| "toStringSlice _ = []"

definition task_request :: "bytes \<Rightarrow> duration \<Rightarrow> string \<Rightarrow> string \<Rightarrow> int \<Rightarrow> SubmitRequest" where
  "task_request payload timeout name namespace i = \<lparr>sub_TaskType = ''command'', sub_Payload = payload,
     sub_Timeout = Some timeout, sub_Priority = 0,
     sub_Metadata = [''distributedjob'' \<mapsto> name, ''namespace'' \<mapsto> namespace, ''task_index'' \<mapsto> show_int i]\<rparr>"

function submit_loop ::
    "'s MasterServiceClient \<Rightarrow> (int \<Rightarrow> SubmitRequest) \<Rightarrow> int \<Rightarrow> int \<Rightarrow> string list \<Rightarrow> 's \<Rightarrow> string list \<times> 's" where
  "submit_loop svc req i parallelism taskIDs s =
     (if i < parallelism
      then (case svc_Submit svc (req i) s of
              (Inl err, s') \<Rightarrow> submit_loop svc req (i + 1) parallelism taskIDs s'
            | (Inr resp, s') \<Rightarrow> submit_loop svc req (i + 1) parallelism (taskIDs @ [sub_JobId resp]) s')
      else (taskIDs, s))"
  by pat_completeness auto
termination
  by (relation "measure (\<lambda>(svc, req, i, parallelism, taskIDs, s). nat (parallelism - i))") auto

declare submit_loop.simps [simp del]

definition startJobs ::
    "('u, 's) OperatorEnv \<Rightarrow> 'u \<Rightarrow> string \<Rightarrow> string list \<Rightarrow> int \<Rightarrow> duration \<Rightarrow> 's \<Rightarrow> op_outcome \<times> 's" where
  "startJobs env u command args parallelism timeout s =
     (let name = oe_Name env u; namespace = oe_Namespace env u
      in case oe_Marshal env (command_payload command args) of
           Inl err \<Rightarrow> updateStatus env namespace name ''Failed'' 0 0 (''marshal error: '' @ err) None s
         | Inr payload \<Rightarrow>
             (case submit_loop (oe_master env) (task_request payload timeout name namespace) 0 parallelism [] s of
                (taskIDs, s') \<Rightarrow>
                  if length taskIDs = 0
                  then updateStatus env namespace name ''Failed'' 0 parallelism
                         ''failed to submit any tasks'' None s'
                  else updateStatus env namespace name ''Running'' 0 0
                         (''submitted '' @ show_int (int (length taskIDs)) @ '' tasks'') (Some taskIDs) s'))"

section \<open>Following the tasks\<close>

fun status_count_loop :: "'s MasterServiceClient \<Rightarrow> string list \<Rightarrow> int \<Rightarrow> int \<Rightarrow> 's \<Rightarrow> int \<times> int \<times> 's" where
  "status_count_loop svc [] completed failed s = (completed, failed, s)"
| "status_count_loop svc (taskID # ids) completed failed s =
     (case svc_GetStatus svc taskID s of
        (Inl err, s') \<Rightarrow> status_count_loop svc ids completed failed s'
      | (Inr resp, s') \<Rightarrow>
          (case gs_Status resp of
             JOB_STATUS_COMPLETED \<Rightarrow> status_count_loop svc ids (wrap32 (completed + 1)) failed s'
           | JOB_STATUS_FAILED \<Rightarrow> status_count_loop svc ids completed (wrap32 (failed + 1)) s'
           | _ \<Rightarrow> status_count_loop svc ids completed failed s'))"

definition checkJobStatus :: "('u, 's) OperatorEnv \<Rightarrow> 'u \<Rightarrow> 's \<Rightarrow> op_outcome \<times> 's" where
  "checkJobStatus env u s =
     (let name = oe_Name env u; namespace = oe_Namespace env u;
          taskIDs = oe_NestedStringSlice env u [''status'', ''taskIds'']
      in if length taskIDs = 0 then (OpDone, s)
         else
           let (completed, failed, s') = status_count_loop (oe_master env) taskIDs 0 0 s;
               total = wrap32 (int (length taskIDs))
           in if total \<le> wrap32 (completed + failed)
              then (if 0 < failed
                    then updateStatus env namespace name ''Failed'' completed failed
                           (show_int failed @ ''/'' @ show_int total @ '' failed'') (Some taskIDs) s'
                    else updateStatus env namespace name ''Succeeded'' completed failed
                           ''all tasks completed'' (Some taskIDs) s')
              else updateStatus env namespace name ''Running'' completed failed
                     (show_int completed @ ''/'' @ show_int total @ '' completed'') (Some taskIDs) s')"

section \<open>Reconciliation and the event handlers\<close>

definition spec_value :: "(string \<rightharpoonup> dyn) \<Rightarrow> string \<Rightarrow> dyn" where
  "spec_value spec k = (case spec k of None \<Rightarrow> GNil | Some v \<Rightarrow> v)"

definition spec_parallelism :: "(string \<rightharpoonup> dyn) \<Rightarrow> int" where
  "spec_parallelism spec =
     (case dyn_int64 (spec_value spec ''parallelism'') of None \<Rightarrow> 1 | Some p \<Rightarrow> wrap32 p)"

definition spec_timeout :: "(string \<Rightarrow> string + duration) \<Rightarrow> (string \<rightharpoonup> dyn) \<Rightarrow> duration" where
  "spec_timeout parse spec =
     (let timeoutStr = dyn_string (spec_value spec ''timeout'');
          timeoutStr' = (if timeoutStr = '''' then ''30s'' else timeoutStr)
      in case parse timeoutStr' of Inl err \<Rightarrow> 30 * second | Inr d \<Rightarrow> d)"

definition reconcile :: "('u, 's) OperatorEnv \<Rightarrow> 'u \<Rightarrow> 's \<Rightarrow> op_outcome \<times> 's" where
  "reconcile env u s =
     (let phase = oe_NestedString env u [''status'', ''phase'']
      in if phase = ''Succeeded'' \<or> phase = ''Failed'' then (OpDone, s)
         else
           (case oe_NestedMap env u [''spec''] of
              (spec, found, err) \<Rightarrow>
                if err \<noteq> None \<or> \<not> found then (OpDone, s)
                else if phase = '''' \<or> phase = ''Pending''
                then startJobs env u (dyn_string (spec_value spec ''command''))
                       (toStringSlice (spec_value spec ''args'')) (spec_parallelism spec)
                       (spec_timeout (oe_ParseDuration env) spec) s
                else if phase = ''Running'' then checkJobStatus env u s
                else (OpDone, s)))"

text \<open>An informer's object is \<open>None\<close> when it is not an \<open>Unstructured\<close>.\<close>

definition onAdd :: "('u, 's) OperatorEnv \<Rightarrow> 'u option \<Rightarrow> 's \<Rightarrow> op_outcome \<times> 's" where
  "onAdd env obj s = (case obj of None \<Rightarrow> (OpDone, s) | Some u \<Rightarrow> reconcile env u s)"

definition onUpdate :: "('u, 's) OperatorEnv \<Rightarrow> 'u option \<Rightarrow> 'u option \<Rightarrow> 's \<Rightarrow> op_outcome \<times> 's" where
  "onUpdate env oldObj newObj s = (case newObj of None \<Rightarrow> (OpDone, s) | Some u \<Rightarrow> reconcile env u s)"

definition onDelete :: "('u, 's) OperatorEnv \<Rightarrow> 'u option \<Rightarrow> 's \<Rightarrow> op_outcome \<times> 's" where
  "onDelete env obj s = (OpDone, s)"

datatype 'u op_event = Added "'u option" | Updated "'u option" "'u option" | Deleted "'u option"

fun handle_event :: "('u, 's) OperatorEnv \<Rightarrow> 'u op_event \<Rightarrow> 's \<Rightarrow> op_outcome \<times> 's" where
  "handle_event env (Added obj) s = onAdd env obj s"
| "handle_event env (Updated oldObj newObj) s = onUpdate env oldObj newObj s"
| "handle_event env (Deleted obj) s = onDelete env obj s"

text \<open>The informer delivers one event after the other; a panic ends the process.\<close>

fun handle_events :: "('u, 's) OperatorEnv \<Rightarrow> 'u op_event list \<Rightarrow> 's \<Rightarrow> op_outcome \<times> 's" where
  "handle_events env [] s = (OpDone, s)"
| "handle_events env (e # es) s =
     (case handle_event env e s of
        (OpPanic, s') \<Rightarrow> (OpPanic, s')
      | (OpDone, s') \<Rightarrow> handle_events env es s')"

record ('k, 'conn) Controller =
  ctl_client :: 'k
  ctl_masterAddr :: string
  ctl_masterConn :: "'conn option"
  ctl_namespace :: string

definition NewController :: "'k \<Rightarrow> string \<Rightarrow> string \<Rightarrow> ('k, 'conn) Controller" where
  "NewController client masterAddr namespace = \<lparr>ctl_client = client, ctl_masterAddr = masterAddr,
     ctl_masterConn = None, ctl_namespace = namespace\<rparr>"

text \<open>
  \<open>Run\<close>: \<open>env_of\<close> gives the environment for a connection, \<open>synced\<close> is what
  \<open>WaitForCacheSync\<close> returned, and the list holds the events until the context ends. The result is
  the error or the outcome of the handlers, the controller and the world.
\<close>

definition Controller_Run ::
    "(string \<Rightarrow> string + 'conn) \<Rightarrow> ('conn \<Rightarrow> ('u, 's) OperatorEnv) \<Rightarrow> bool \<Rightarrow> 'u op_event list \<Rightarrow>
     ('k, 'conn) Controller \<Rightarrow> 's \<Rightarrow> (string + op_outcome) \<times> ('k, 'conn) Controller \<times> 's" where
  "Controller_Run dial env_of synced events c s =
     (case dial (ctl_masterAddr c) of
        Inl err \<Rightarrow> (Inl (''connect to master: '' @ err), c, s)
      | Inr conn \<Rightarrow>
          let c' = c\<lparr>ctl_masterConn := Some conn\<rparr>
          in if \<not> synced then (Inl ''failed to sync cache'', c', s)
             else (case handle_events (env_of conn) events s of (out, s') \<Rightarrow> (Inr out, c', s')))"

section \<open>What a new resource causes\<close>

text \<open>Submitting a list of requests one by one, and the IDs of those that were accepted.\<close>

fun submit_each :: "'s MasterServiceClient \<Rightarrow> SubmitRequest list \<Rightarrow> 's \<Rightarrow> (grpc_error + SubmitResponse) list \<times> 's" where
  "submit_each svc [] s = ([], s)"
| "submit_each svc (q # qs) s =
     (let (a, s') = svc_Submit svc q s; (as, s'') = submit_each svc qs s' in (a # as, s''))"

fun accepted :: "(grpc_error + SubmitResponse) list \<Rightarrow> string list" where
  "accepted [] = []"
| "accepted (Inl err # as) = accepted as"
| "accepted (Inr resp # as) = sub_JobId resp # accepted as"

lemma submit_loop_each:
  "submit_loop svc req i p ids s =
   (case submit_each svc (map req [i..p - 1]) s of (as, s') \<Rightarrow> (ids @ accepted as, s'))"
proof (induction svc req i p ids s rule: submit_loop.induct)
  case (1 svc req i p ids s)
  show ?case
  proof (cases "i < p")
    case True
    obtain a s' where sub: "svc_Submit svc (req i) s = (a, s')" by (cases "svc_Submit svc (req i) s")
    have up: "[i..p - 1] = i # [i + 1..p - 1]" using True by (simp add: upto_rec1)
    show ?thesis
    proof (cases a)
      case (Inl err)
      then show ?thesis
        using True 1(1) [OF True sub [symmetric] Inl]
        by (subst submit_loop.simps) (simp add: up sub split: prod.split)
    next
      case (Inr resp)
      then show ?thesis
        using True 1(2) [OF True sub [symmetric] Inr]
        by (subst submit_loop.simps) (simp add: up sub split: prod.split)
    qed
  next
    case False
    then show ?thesis by (subst submit_loop.simps) simp
  qed
qed

text \<open>What a master that keeps the requests it is sent has seen.\<close>

lemma submit_each_log:
  assumes "\<And>q s. log (snd (svc_Submit svc q s)) = log s @ [q]"
  shows "log (snd (submit_each svc qs s)) = log s @ qs"
  by (induction qs arbitrary: s) (simp_all add: split_beta assms)

lemma updateStatus_log:
  assumes "\<And>ns n s. log (snd (oe_Get env ns n s)) = log s"
    and "\<And>ns u s. log (snd (oe_UpdateStatus env ns u s)) = log s"
  shows "log (snd (updateStatus env ns n phase completions failed message ids s)) = log s"
  using assms(1) [of ns n s] assms(2)
  by (auto simp: updateStatus_def Let_def split: prod.split sum.split set_result.split)

text \<open>Claim C23: What a resource without a phase, or Pending, makes the controller ask of the master, whatever
  the answers are and however the status update ends: one command task per index from 0 below
  \<open>parallelism\<close> (1 if it is absent or no integer), in order and each once, all with the payload that
  encodes the command and the strings among the arguments, the timeout of the spec (30 seconds if it is
  absent or does not parse), no priority, and the resource and the index as metadata. It asks nothing
  when the payload cannot be encoded.\<close>

theorem pending_job_requests:
  assumes "oe_NestedString env u [''status'', ''phase''] \<in> {'''', ''Pending''}"
    and "oe_NestedMap env u [''spec''] = (spec, True, None)"
    and "\<And>q s. log (snd (svc_Submit (oe_master env) q s)) = log s @ [q]"
    and "\<And>ns n s. log (snd (oe_Get env ns n s)) = log s"
    and "\<And>ns v s. log (snd (oe_UpdateStatus env ns v s)) = log s"
  shows "let p = (case spec_value spec ''parallelism'' of GInt64 n \<Rightarrow> wrap32 n | _ \<Rightarrow> 1);
      t = dyn_string (spec_value spec ''timeout'');
      d = (case oe_ParseDuration env (if t = '''' then ''30s'' else t) of Inl err \<Rightarrow> 30 * second | Inr d \<Rightarrow> d);
      payload = oe_Marshal env \<lparr>cp_Command = dyn_string (spec_value spec ''command''),
        cp_Args = toStringSlice (spec_value spec ''args''), cp_Env = Map.empty, cp_WorkingDir = '''', cp_Stdin = ''''\<rparr>
    in log (snd (reconcile env u s)) = log s @
      (case payload of Inl err \<Rightarrow> []
       | Inr bs \<Rightarrow> map (\<lambda>i. \<lparr>sub_TaskType = ''command'', sub_Payload = bs, sub_Timeout = Some d, sub_Priority = 0,
           sub_Metadata = [''distributedjob'' \<mapsto> oe_Name env u, ''namespace'' \<mapsto> oe_Namespace env u,
             ''task_index'' \<mapsto> show_int i]\<rparr>) [0..p - 1])"
proof -
  note upd = updateStatus_log [of log env, OF assms(4,5)]
  let ?p = "spec_parallelism spec" and ?d = "spec_timeout (oe_ParseDuration env) spec"
  have start: "reconcile env u s = startJobs env u (dyn_string (spec_value spec ''command''))
      (toStringSlice (spec_value spec ''args'')) ?p ?d s"
    using assms(1,2) by (auto simp: reconcile_def)
  have loop: "log (snd (submit_loop (oe_master env) req 0 ?p [] s)) = log s @ map req [0..?p - 1]" for req
    using submit_each_log [of log "oe_master env", OF assms(3), of "map req [0..?p - 1]" s]
    by (simp add: submit_loop_each split_beta)
  have "log (snd (startJobs env u command args ?p ?d s)) = log s @
      (case oe_Marshal env (command_payload command args) of Inl err \<Rightarrow> []
       | Inr bs \<Rightarrow> map (task_request bs ?d (oe_Name env u) (oe_Namespace env u)) [0..?p - 1])" for command args
    using loop by (simp add: startJobs_def Let_def upd split_beta split: sum.split)
  then show ?thesis
    unfolding start
    by (simp add: Let_def task_request_def command_payload_def spec_parallelism_def spec_timeout_def
        split: sum.split dyn.split)
qed

section \<open>What a running resource becomes\<close>

fun status_each :: "'s MasterServiceClient \<Rightarrow> string list \<Rightarrow> 's \<Rightarrow> JobStatus option list \<times> 's" where
  "status_each svc [] s = ([], s)"
| "status_each svc (i # ids) s =
     (let (a, s') = svc_GetStatus svc i s; (as, s'') = status_each svc ids s'
      in ((case a of Inl err \<Rightarrow> None | Inr resp \<Rightarrow> Some (gs_Status resp)) # as, s''))"

abbreviation number_of_status :: "JobStatus \<Rightarrow> JobStatus option list \<Rightarrow> int" where
  "number_of_status st as \<equiv> int (count (mset as) (Some st))"

lemma length_status_each: "length (fst (status_each svc ids s)) = length ids"
  by (induction ids arbitrary: s) (simp_all add: case_prod_beta)

lemma wrap32_add: "wrap32 (wrap32 a + b) = wrap32 (a + b)"
  unfolding wrap32_def by (metis signed_take_bit_add signed_take_bit_signed_take_bit min.idem)

lemma status_count_loop_each:
  assumes "in32 c" and "in32 f"
  shows "status_count_loop svc ids c f s =
    (case status_each svc ids s of (as, s') \<Rightarrow>
       (wrap32 (c + number_of_status JOB_STATUS_COMPLETED as),
        wrap32 (f + number_of_status JOB_STATUS_FAILED as), s'))"
  using assms
proof (induction ids arbitrary: c f s)
  case Nil
  then show ?case by (simp add: wrap32_id)
next
  case (Cons i ids)
  obtain a s' where a: "svc_GetStatus svc i s = (a, s')" by (cases "svc_GetStatus svc i s")
  show ?case
  proof (cases a)
    case (Inl err)
    with a Cons show ?thesis by (simp split: prod.split)
  next
    case (Inr resp)
    with a Cons.IH [of "wrap32 (c + 1)" f s'] Cons.IH [of c "wrap32 (f + 1)" s'] Cons.IH [of c f s'] Cons.prems
    show ?thesis
      by (cases "gs_Status resp") (simp_all add: wrap32_add ac_simps split: prod.split)
  qed
qed

lemma counts_le: "number_of_status JOB_STATUS_COMPLETED as + number_of_status JOB_STATUS_FAILED as \<le> int (length as)"
  by (induction as) auto

lemma counts_full:
  "(number_of_status JOB_STATUS_COMPLETED as + number_of_status JOB_STATUS_FAILED as = int (length as)) =
   (\<forall>a\<in>set as. a = Some JOB_STATUS_COMPLETED \<or> a = Some JOB_STATUS_FAILED)"
proof (induction as)
  case (Cons a as)
  then show ?case using counts_le [of as] by auto
qed simp

text \<open>Claim C22: A running resource with at least one task becomes Succeeded when the master reports
  every task COMPLETED, Failed when it reports every task COMPLETED or FAILED and at least one
  FAILED, and stays Running as long as it reports anything else for some task or cannot be asked:
  so a task that was CANCELLED or timed out keeps its resource Running for ever. The two counters
  are the numbers of COMPLETED and FAILED answers.\<close>

theorem running_job_verdict:
  assumes ids: "oe_NestedStringSlice env u [''status'', ''taskIds''] = ids" "ids \<noteq> []"
    and len: "length ids < 2147483648"
  shows "let (as, s') = status_each (oe_master env) ids s;
      done = (\<forall>a\<in>set as. a = Some JOB_STATUS_COMPLETED \<or> a = Some JOB_STATUS_FAILED);
      phase = (if \<not> done then ''Running'' else if Some JOB_STATUS_FAILED \<in> set as then ''Failed'' else ''Succeeded'')
    in \<exists>message. checkJobStatus env u s =
      updateStatus env (oe_Namespace env u) (oe_Name env u) phase
        (number_of_status JOB_STATUS_COMPLETED as) (number_of_status JOB_STATUS_FAILED as)
        message (Some ids) s'"
proof -
  obtain as s' where each: "status_each (oe_master env) ids s = (as, s')"
    by (cases "status_each (oe_master env) ids s")
  let ?c = "number_of_status JOB_STATUS_COMPLETED as" and ?f = "number_of_status JOB_STATUS_FAILED as"
  have l: "length as = length ids" using length_status_each [of "oe_master env" ids s] each by simp
  have small: "in32 ?c" "in32 ?f" "in32 (?c + ?f)" "in32 (int (length ids))"
    using counts_le [of as] l len by (simp_all add: in32_def)
  have "status_count_loop (oe_master env) ids 0 0 s = (?c, ?f, s')"
    using status_count_loop_each [of 0 0 "oe_master env" ids s] each small(1,2) by (simp add: in32_def wrap32_id)
  moreover have "(int (length ids) \<le> ?c + ?f) =
      (\<forall>a\<in>set as. a = Some JOB_STATUS_COMPLETED \<or> a = Some JOB_STATUS_FAILED)"
    using counts_full [of as] counts_le [of as] l by linarith
  moreover have "(0 < ?f) = (Some JOB_STATUS_FAILED \<in> set as)" by simp
  ultimately show ?thesis
    using ids small(3,4) unfolding each by (auto simp: checkJobStatus_def Let_def wrap32_id)
qed

section \<open>The status is not a JSON value\<close>

text \<open>
  \<open>SetNestedField\<close> stores a deep copy of its value. \<open>runtime.DeepCopyJSONValue\<close>, which makes it, is
  documented for the types that decoding JSON yields (and \<open>int64\<close>), and panics on any other.
\<close>

fun json_value :: "dyn \<Rightarrow> bool" where
  "json_value (GInt32 n) = False"
| "json_value (GStringSlice ss) = False"
| "json_value (GSlice vs) = (\<forall>v\<in>set vs. json_value v)"
| "json_value (GMap kvs) = (\<forall>kv\<in>set kvs. json_value (snd kv))"
| "json_value _ = True"

definition copies_json_only :: "('u, 's) OperatorEnv \<Rightarrow> bool" where
  "copies_json_only env \<longleftrightarrow> (\<forall>u v fields. \<not> json_value v \<longrightarrow> oe_SetNestedField env u v fields = SetPanic)"

lemma status_not_json: "\<not> json_value (GMap (status_value phase c f msg ids start now))"
  by (simp add: status_value_def)

lemma updateStatus_panics:
  assumes "copies_json_only env"
  shows "updateStatus env ns name phase c f msg ids s =
    (case oe_Get env ns name s of (Inl err, s') \<Rightarrow> (OpDone, s') | (Inr u, s') \<Rightarrow> (OpPanic, s'))"
  using assms status_not_json by (simp add: updateStatus_def copies_json_only_def Let_def split: prod.split sum.split)

text \<open>Claim C24: The status that the controller builds holds two \<open>int32\<close> and a \<open>[]string\<close>, so setting
  it panics: a new resource with a readable spec has its tasks submitted to the master, and then
  the controller goes down at the first status update, before anything is written and whatever
  further events are waiting. The resource keeps its empty phase, so a restarted controller submits
  all the tasks again.\<close>

theorem new_resource_crashes_controller:
  assumes "copies_json_only env"
    and "oe_NestedString env u [''status'', ''phase''] \<in> {'''', ''Pending''}"
    and "oe_NestedMap env u [''spec''] = (spec, True, None)"
    and "oe_Marshal env (command_payload (dyn_string (spec_value spec ''command''))
      (toStringSlice (spec_value spec ''args''))) = Inr payload"
    and "submit_each (oe_master env) (map (task_request payload (spec_timeout (oe_ParseDuration env) spec)
      (oe_Name env u) (oe_Namespace env u)) [0..spec_parallelism spec - 1]) s = (as, s')"
    and "oe_Get env (oe_Namespace env u) (oe_Name env u) s' = (Inr u', s'')"
  shows "handle_events env (Added (Some u) # es) s = (OpPanic, s'')"
  using assms
  by (auto simp: onAdd_def reconcile_def startJobs_def submit_loop_each updateStatus_panics Let_def)

text \<open>A resource is a phase and a list of task IDs; the world counts the calls and answers
  every query with one status.\<close>

definition sample_operator :: "JobStatus \<Rightarrow> (string \<times> string list, nat) OperatorEnv" where
  "sample_operator st = \<lparr>oe_Name = (\<lambda>_. ''job''), oe_Namespace = (\<lambda>_. ''default''),
     oe_NestedString = (\<lambda>u fs. if fs = [''status'', ''phase''] then fst u else ''''),
     oe_NestedStringSlice = (\<lambda>u _. snd u),
     oe_NestedMap = (\<lambda>_ _. ([''command'' \<mapsto> GString ''date'', ''parallelism'' \<mapsto> GInt64 2], True, None)),
     oe_SetNestedField = (\<lambda>u v _. if json_value v then SetOK u else SetPanic),
     oe_Get = (\<lambda>_ _ n. (Inr ('''', []), n)), oe_UpdateStatus = (\<lambda>_ _ n. (None, n)),
     oe_master = \<lparr>svc_Submit = (\<lambda>_ n. (Inr \<lparr>sub_JobId = ''t''\<rparr>, Suc n)),
       svc_GetStatus = (\<lambda>i n. (Inr \<lparr>gs_JobId = i, gs_Status = st, gs_Output = [], gs_Error = '''',
         gs_ExitCode = 0, gs_CreatedAt = None, gs_StartedAt = None, gs_CompletedAt = None,
         gs_WorkerId = ''''\<rparr>, n)),
       svc_Cancel = (\<lambda>_ n. (Inr \<lparr>can_Cancelled = True, can_Message = ''''\<rparr>, n))\<rparr>,
     oe_Marshal = (\<lambda>_. Inr [1]), oe_ParseDuration = (\<lambda>_. Inr second), oe_Now = ''now''\<rparr>"

lemma sample_operator_spec:
  "oe_NestedString (sample_operator st) u [''status'', ''phase''] = fst u"
  "oe_NestedMap (sample_operator st) u [''spec''] =
     ([''command'' \<mapsto> GString ''date'', ''parallelism'' \<mapsto> GInt64 2], True, None)"
  "oe_Marshal (sample_operator st) p = Inr [1]"
  "spec_parallelism [''command'' \<mapsto> GString ''date'', ''parallelism'' \<mapsto> GInt64 2] = 2"
  "copies_json_only (sample_operator st)"
  by (simp_all add: sample_operator_def spec_parallelism_def spec_value_def copies_json_only_def
      wrap32_id in32_def)

theorem new_resource_crashes_controller_witness:
  "handle_events (sample_operator JOB_STATUS_PENDING) [Added (Some ('''', [])), Deleted None] 0 = (OpPanic, 2)"
proof -
  have "[0..1::int] = [0, 1]" by (simp add: upto_rec1)
  then show ?thesis
    by (intro new_resource_crashes_controller [OF sample_operator_spec(5) _ sample_operator_spec(2,3)])
       (simp_all only: sample_operator_spec, simp_all add: sample_operator_def)
qed

definition sample_recorder :: "(string \<times> string list, SubmitRequest list) OperatorEnv" where
  "sample_recorder = \<lparr>oe_Name = (\<lambda>_. ''job''), oe_Namespace = (\<lambda>_. ''default''),
     oe_NestedString = (\<lambda>u fs. if fs = [''status'', ''phase''] then fst u else ''''),
     oe_NestedStringSlice = (\<lambda>u _. snd u),
     oe_NestedMap = (\<lambda>_ _. ([''command'' \<mapsto> GString ''date'', ''parallelism'' \<mapsto> GInt64 2], True, None)),
     oe_SetNestedField = (\<lambda>u v _. if json_value v then SetOK u else SetPanic),
     oe_Get = (\<lambda>_ _ qs. (Inr ('''', []), qs)), oe_UpdateStatus = (\<lambda>_ _ qs. (None, qs)),
     oe_master = \<lparr>svc_Submit = (\<lambda>q qs. (Inr \<lparr>sub_JobId = ''t''\<rparr>, qs @ [q])),
       svc_GetStatus = (\<lambda>i qs. (Inl (GrpcError NotFound ''job''), qs)),
       svc_Cancel = (\<lambda>i qs. (Inr \<lparr>can_Cancelled = True, can_Message = ''''\<rparr>, qs))\<rparr>,
     oe_Marshal = (\<lambda>_. Inr [1]), oe_ParseDuration = (\<lambda>_. Inr second), oe_Now = ''now''\<rparr>"

theorem pending_job_requests_witness:
  "snd (reconcile sample_recorder (''Pending'', []) []) =
   [\<lparr>sub_TaskType = ''command'', sub_Payload = [1], sub_Timeout = Some second, sub_Priority = 0,
      sub_Metadata = [''distributedjob'' \<mapsto> ''job'', ''namespace'' \<mapsto> ''default'', ''task_index'' \<mapsto> ''0'']\<rparr>,
    \<lparr>sub_TaskType = ''command'', sub_Payload = [1], sub_Timeout = Some second, sub_Priority = 0,
      sub_Metadata = [''distributedjob'' \<mapsto> ''job'', ''namespace'' \<mapsto> ''default'', ''task_index'' \<mapsto> ''1'']\<rparr>]"
proof -
  have up: "[0..1::int] = [0, 1]" by (simp add: upto_rec1)
  have digits: "show_int 0 = ''0''" "show_int 1 = ''1''" by code_simp+
  have "\<And>n. wrap32 2 = 2" by (simp add: wrap32_id in32_def)
  with pending_job_requests [of sample_recorder "(''Pending'', [])"
      "[''command'' \<mapsto> GString ''date'', ''parallelism'' \<mapsto> GInt64 2]" "\<lambda>qs. qs" "[]"]
  show ?thesis by (simp add: sample_recorder_def Let_def up digits spec_value_def)
qed

theorem running_job_verdict_witness:
  "\<exists>message. checkJobStatus (sample_operator JOB_STATUS_CANCELLED) (''Running'', [''t'']) 0 =
   updateStatus (sample_operator JOB_STATUS_CANCELLED) ''default'' ''job'' ''Running'' 0 0 message (Some [''t'']) 0"
  using running_job_verdict [of "sample_operator JOB_STATUS_CANCELLED" "(''Running'', [''t''])" "[''t'']" 0]
  by (simp add: sample_operator_def)

text \<open>The start time is a field of the status that is rebuilt from nothing at each update, and is
  only put in when the resource has none: the second update as Running, and the final one, drop it.\<close>

theorem start_time_is_dropped:
  "map_of (status_value ''Running'' c f msg ids '''' now) ''startTime'' = Some (GString now) \<and>
   (start \<noteq> '''' \<longrightarrow> map_of (status_value ''Running'' c f msg ids start now) ''startTime'' = None) \<and>
   map_of (status_value ''Succeeded'' c f msg ids start now) ''startTime'' = None"
  by (simp add: status_value_def split: option.split)

end
