(* ===== verification/Commands.thy ===== *)
theory Commands
  imports Client Config
begin

text \<open>
  The programs under \<open>cmd\<close>: the command line tool \<open>distctl\<close>, whose commands are run as cobra
  calls them, and the settings that the main functions of master, worker and operator derive from
  their environment. Outside are cobra, the gRPC stub, the JSON encoder and the formatting of times.
\<close>

section \<open>Logging and the operator's settings\<close>

datatype log_level = DebugLevel | InfoLevel | WarnLevel | ErrorLevel

definition setupLogging :: "string \<Rightarrow> log_level" where
  "setupLogging level =
     (if level = ''debug'' then DebugLevel else if level = ''warn'' then WarnLevel
      else if level = ''error'' then ErrorLevel else InfoLevel)"

datatype kube_source = FromKubeconfig string | InCluster

record OperatorSettings =
  os_masterAddr :: string
  os_namespace :: string
  os_kube :: kube_source

text \<open>\<open>getenv\<close> yields the empty string for a variable that is not set.\<close>

definition operator_settings :: "(string \<Rightarrow> string) \<Rightarrow> OperatorSettings" where
  "operator_settings getenv =
     \<lparr>os_masterAddr = (if getenv ''MASTER_ADDRESS'' = '''' then ''master:50051'' else getenv ''MASTER_ADDRESS''),
      os_namespace = (if getenv ''WATCH_NAMESPACE'' = '''' then ''default'' else getenv ''WATCH_NAMESPACE''),
      os_kube = (if getenv ''KUBECONFIG'' \<noteq> '''' then FromKubeconfig (getenv ''KUBECONFIG'') else InCluster)\<rparr>"

section \<open>The tool's world\<close>

record 's MasterStub = "'s MasterServiceClient" +
  svc_ListJobs :: "ListJobsRequest \<Rightarrow> 's \<Rightarrow> (grpc_error + ListJobsResponse) \<times> 's"

datatype json_doc =
  DocJobId string | DocStatus GetStatusResponse | DocList ListJobsResponse | DocCancel CancelResponse

record 's CliEnv =
  ce_dial :: "string \<Rightarrow> string + 's MasterStub"
  ce_marshal :: "CommandPayload \<Rightarrow> string + bytes"
  ce_encode :: "json_doc \<Rightarrow> string + string"
  ce_rfc3339 :: "time \<Rightarrow> string"
  ce_text :: "bytes \<Rightarrow> string"
  ce_error :: "grpc_error \<Rightarrow> string"

record CliFlags =
  fl_masterAddr :: string
  fl_outputJSON :: bool
  fl_timeout :: duration

definition default_flags :: CliFlags where
  "default_flags = \<lparr>fl_masterAddr = ''localhost:50051'', fl_outputJSON = False, fl_timeout = 30 * second\<rparr>"

definition default_list_limit :: int where
  "default_list_limit = 10"

text \<open>A command writes to standard output and returns an error or nil.\<close>

type_synonym cli_result = "string \<times> string option"

abbreviation newline :: string where "newline \<equiv> [CHR 0x0A]"
abbreviation quote :: string where "quote \<equiv> [CHR 0x27]"

definition Cli_getClient :: "'s CliEnv \<Rightarrow> CliFlags \<Rightarrow> string + 's MasterStub" where
  "Cli_getClient env fl =
     (case ce_dial env (fl_masterAddr fl) of
        Inl err \<Rightarrow> Inl (''failed to connect: '' @ err) | Inr svc \<Rightarrow> Inr svc)"

definition emit_json :: "'s CliEnv \<Rightarrow> json_doc \<Rightarrow> cli_result" where
  "emit_json env doc = (case ce_encode env doc of Inl err \<Rightarrow> ('''', Some err) | Inr text \<Rightarrow> (text, None))"

section \<open>The commands\<close>

definition runCommand :: "'s CliEnv \<Rightarrow> CliFlags \<Rightarrow> string \<Rightarrow> string list \<Rightarrow> 's \<Rightarrow> cli_result \<times> 's" where
  "runCommand env fl command args s =
     (case Cli_getClient env fl of
        Inl err \<Rightarrow> (('''', Some err), s)
      | Inr svc \<Rightarrow>
          (case ce_marshal env (command_payload command args) of
             Inl err \<Rightarrow> (('''', Some (''failed to marshal payload: '' @ err)), s)
           | Inr payload \<Rightarrow>
               (case svc_Submit svc (command_request payload (fl_timeout fl)) s of
                  (Inl err, s') \<Rightarrow> (('''', Some (''submit failed: '' @ ce_error env err)), s')
                | (Inr resp, s') \<Rightarrow>
                    (if fl_outputJSON fl then emit_json env (DocJobId (sub_JobId resp))
                     else (''Job submitted: '' @ sub_JobId resp @ newline @
                           ''Use '' @ quote @ ''distctl status '' @ sub_JobId resp @ quote @ '' to check status'' @ newline,
                           None), s'))))"

definition status_text :: "'s CliEnv \<Rightarrow> GetStatusResponse \<Rightarrow> string" where
  "status_text env resp =
     ''Job ID:    '' @ gs_JobId resp @ newline @
     ''Status:    '' @ JobStatus_String (gs_Status resp) @ newline @
     (if gs_WorkerId resp \<noteq> '''' then ''Worker:    '' @ gs_WorkerId resp @ newline else '''') @
     (case gs_CreatedAt resp of None \<Rightarrow> '''' | Some t \<Rightarrow> ''Created:   '' @ ce_rfc3339 env t @ newline) @
     (case gs_CompletedAt resp of None \<Rightarrow> '''' | Some t \<Rightarrow> ''Completed: '' @ ce_rfc3339 env t @ newline) @
     (if 0 < length (gs_Output resp) then newline @ ''Output:'' @ newline @ ce_text env (gs_Output resp) else '''') @
     (if gs_Error resp \<noteq> '''' then newline @ ''Error: '' @ gs_Error resp @ newline else '''') @
     (if gs_ExitCode resp \<noteq> 0 then ''Exit Code: '' @ show_int (gs_ExitCode resp) @ newline else '''')"

definition getStatus :: "'s CliEnv \<Rightarrow> CliFlags \<Rightarrow> string \<Rightarrow> 's \<Rightarrow> cli_result \<times> 's" where
  "getStatus env fl jobID s =
     (case Cli_getClient env fl of
        Inl err \<Rightarrow> (('''', Some err), s)
      | Inr svc \<Rightarrow>
          (case svc_GetStatus svc jobID s of
             (Inl err, s') \<Rightarrow> (('''', Some (''get status failed: '' @ ce_error env err)), s')
           | (Inr resp, s') \<Rightarrow>
               (if fl_outputJSON fl then emit_json env (DocStatus resp)
                else (status_text env resp, None), s')))"

text \<open>\<open>%-ns\<close>: at least \<open>n\<close> characters, filled up with blanks on the right.\<close>

definition pad_right :: "nat \<Rightarrow> string \<Rightarrow> string" where
  "pad_right n s = s @ replicate (n - length s) (CHR '' '')"

definition list_row :: "string \<Rightarrow> string \<Rightarrow> string \<Rightarrow> string \<Rightarrow> string" where
  "list_row jobID taskType status created =
     pad_right 36 jobID @ ''  '' @ pad_right 10 taskType @ ''  '' @ pad_right 12 status @ ''  '' @ created @ newline"

definition job_row :: "'s CliEnv \<Rightarrow> JobSummary \<Rightarrow> string" where
  "job_row env job = list_row (js_JobId job) (js_TaskType job) (JobStatus_String (js_Status job))
     (case js_CreatedAt job of None \<Rightarrow> ''N/A'' | Some t \<Rightarrow> ce_rfc3339 env t)"

definition list_text :: "'s CliEnv \<Rightarrow> ListJobsResponse \<Rightarrow> string" where
  "list_text env resp =
     (if length (lj_Jobs resp) = 0 then ''No jobs found'' @ newline
      else list_row ''JOB ID'' ''TYPE'' ''STATUS'' ''CREATED'' @ replicate 85 (CHR ''-'') @ newline @
           concat (map (job_row env) (lj_Jobs resp)) @
           newline @ ''Total: '' @ show_int (lj_Total resp) @ newline)"

definition list_request :: "int \<Rightarrow> ListJobsRequest" where
  "list_request limit = \<lparr>lj_Limit = wrap32 limit, lj_Offset = 0, lj_StatusFilter = JOB_STATUS_UNSPECIFIED\<rparr>"

definition listJobs :: "'s CliEnv \<Rightarrow> CliFlags \<Rightarrow> int \<Rightarrow> 's \<Rightarrow> cli_result \<times> 's" where
  "listJobs env fl limit s =
     (case Cli_getClient env fl of
        Inl err \<Rightarrow> (('''', Some err), s)
      | Inr svc \<Rightarrow>
          (case svc_ListJobs svc (list_request limit) s of
             (Inl err, s') \<Rightarrow> (('''', Some (''list jobs failed: '' @ ce_error env err)), s')
           | (Inr resp, s') \<Rightarrow>
               (if fl_outputJSON fl then emit_json env (DocList resp)
                else (list_text env resp, None), s')))"

definition cancelJob :: "'s CliEnv \<Rightarrow> CliFlags \<Rightarrow> string \<Rightarrow> 's \<Rightarrow> cli_result \<times> 's" where
  "cancelJob env fl jobID s =
     (case Cli_getClient env fl of
        Inl err \<Rightarrow> (('''', Some err), s)
      | Inr svc \<Rightarrow>
          (case svc_Cancel svc jobID s of
             (Inl err, s') \<Rightarrow> (('''', Some (''cancel failed: '' @ ce_error env err)), s')
           | (Inr resp, s') \<Rightarrow>
               (if fl_outputJSON fl then emit_json env (DocCancel resp)
                else if can_Cancelled resp then (''Job '' @ jobID @ '' cancelled'' @ newline, None)
                else (''Could not cancel job: '' @ can_Message resp @ newline, None), s')))"

text \<open>A call as cobra has parsed it, and the exit code of the process.\<close>

datatype cli_call = CallRun string "string list" | CallStatus string | CallList int | CallCancel string

fun run_cli :: "'s CliEnv \<Rightarrow> CliFlags \<Rightarrow> cli_call \<Rightarrow> 's \<Rightarrow> cli_result \<times> 's" where
  "run_cli env fl (CallRun command args) s = runCommand env fl command args s"
| "run_cli env fl (CallStatus jobID) s = getStatus env fl jobID s"
| "run_cli env fl (CallList limit) s = listJobs env fl limit s"
| "run_cli env fl (CallCancel jobID) s = cancelJob env fl jobID s"

definition exit_status :: "cli_result \<Rightarrow> int" where
  "exit_status res = (case snd res of None \<Rightarrow> 0 | Some err \<Rightarrow> 1)"

section \<open>The command tree\<close>

text \<open>
  The commands as they are handed to cobra. \<open>cmd_Call\<close> is the function \<open>RunE\<close>, with \<open>None\<close> for an
  index out of range. Cobra itself is outside: \<open>parse\<close> yields its error for a command line, or the
  name of the command, its positional arguments and the values of the flags.
\<close>

datatype args_rule = MinimumNArgs nat | ExactArgs nat | AnyArgs

fun args_ok :: "args_rule \<Rightarrow> string list \<Rightarrow> bool" where
  "args_ok (MinimumNArgs n) args = (n \<le> length args)"
| "args_ok (ExactArgs n) args = (length args = n)"
| "args_ok AnyArgs args = True"

record CobraCommand =
  cmd_Use :: string
  cmd_Short :: string
  cmd_Args :: args_rule
  cmd_Call :: "string list \<Rightarrow> cli_call option"

definition runCmd :: CobraCommand where
  "runCmd = \<lparr>cmd_Use = ''run [command] [args...]'', cmd_Short = ''Submit a command for execution'',
     cmd_Args = MinimumNArgs 1,
     cmd_Call = (\<lambda>args. case args of [] \<Rightarrow> None | command # rest \<Rightarrow> Some (CallRun command rest))\<rparr>"

definition statusCmd :: CobraCommand where
  "statusCmd = \<lparr>cmd_Use = ''status [job-id]'', cmd_Short = ''Get status of a job'', cmd_Args = ExactArgs 1,
     cmd_Call = (\<lambda>args. case args of [] \<Rightarrow> None | jobID # rest \<Rightarrow> Some (CallStatus jobID))\<rparr>"

definition listCmd :: "int \<Rightarrow> CobraCommand" where
  "listCmd limit = \<lparr>cmd_Use = ''list'', cmd_Short = ''List recent jobs'', cmd_Args = AnyArgs,
     cmd_Call = (\<lambda>args. Some (CallList limit))\<rparr>"

definition cancelCmd :: CobraCommand where
  "cancelCmd = \<lparr>cmd_Use = ''cancel [job-id]'', cmd_Short = ''Cancel a job'', cmd_Args = ExactArgs 1,
     cmd_Call = (\<lambda>args. case args of [] \<Rightarrow> None | jobID # rest \<Rightarrow> Some (CallCancel jobID))\<rparr>"

text \<open>A command's name is the first word of its usage line.\<close>

definition cmd_name :: "CobraCommand \<Rightarrow> string" where
  "cmd_name c = takeWhile (\<lambda>x. x \<noteq> CHR '' '') (cmd_Use c)"

definition root_commands :: "int \<Rightarrow> CobraCommand list" where
  "root_commands limit = [runCmd, statusCmd, listCmd limit, cancelCmd]"

datatype cli_exit = CliExit int string | CliPanic

definition distctl_main ::
    "(string list \<Rightarrow> string + string \<times> string list \<times> CliFlags \<times> int) \<Rightarrow> 's CliEnv \<Rightarrow> string list \<Rightarrow> 's \<Rightarrow>
     cli_exit \<times> 's" where
  "distctl_main parse env argv s =
     (case parse argv of
        Inl err \<Rightarrow> (CliExit 1 '''', s)
      | Inr (name, args, fl, limit) \<Rightarrow>
          (case find (\<lambda>c. cmd_name c = name) (root_commands limit) of
             None \<Rightarrow> (CliExit 0 '''', s)
           | Some c \<Rightarrow>
               (case cmd_Call c args of
                  None \<Rightarrow> (CliPanic, s)
                | Some call \<Rightarrow> (case run_cli env fl call s of
                    (res, s') \<Rightarrow> (CliExit (exit_status res) (fst res), s')))))"

lemma cmd_names [simp]:
  "cmd_name runCmd = ''run''" "cmd_name statusCmd = ''status''" "cmd_name (listCmd limit) = ''list''"
  "cmd_name cancelCmd = ''cancel''"
  by (simp_all add: cmd_name_def runCmd_def statusCmd_def listCmd_def cancelCmd_def)

text \<open>What cobra promises of a command line that it accepts for a command: its arguments pass the
  command's rule.\<close>

definition validated :: "string \<times> string list \<times> CliFlags \<times> int \<Rightarrow> bool" where
  "validated = (\<lambda>(name, args, fl, limit).
     \<forall>c \<in> set (root_commands limit). cmd_name c = name \<longrightarrow> args_ok (cmd_Args c) args)"

lemma validated_call:
  assumes "validated (name, args, fl, limit)" and "find (\<lambda>c. cmd_name c = name) (root_commands limit) = Some c"
  shows "cmd_Call c args \<noteq> None"
proof -
  have c: "c \<in> set (root_commands limit)" "cmd_name c = name"
    using assms(2) by (auto simp: find_Some_iff)
  then have "args_ok (cmd_Args c) args" using assms(1) by (simp add: validated_def)
  moreover have "c = runCmd \<or> c = statusCmd \<or> c = listCmd limit \<or> c = cancelCmd"
    using c(1) by (simp add: root_commands_def)
  ultimately show ?thesis
    by (elim disjE; cases args) (simp_all add: runCmd_def statusCmd_def listCmd_def cancelCmd_def)
qed

text \<open>With arguments that cobra has validated, the tool never indexes beyond them, whatever the master
  answers; it exits with 1 exactly when cobra or the command reports an error.\<close>

theorem distctl_never_panics:
  assumes "\<And>call. parse argv = Inr call \<Longrightarrow> validated call"
  shows "\<exists>code out s'. distctl_main parse env argv s = (CliExit code out, s') \<and> code \<in> {0, 1}"
proof (cases "parse argv")
  case (Inl err)
  then show ?thesis by (simp add: distctl_main_def)
next
  case (Inr call)
  obtain name args fl limit where call: "call = (name, args, fl, limit)" by (cases call) blast
  show ?thesis
  proof (cases "find (\<lambda>c. cmd_name c = name) (root_commands limit)")
    case None
    with Inr call show ?thesis by (simp add: distctl_main_def)
  next
    case (Some c)
    from validated_call [OF _ Some] assms [OF Inr] call obtain k where "cmd_Call c args = Some k" by auto
    with Inr call Some show ?thesis by (simp add: distctl_main_def exit_status_def split: prod.split option.split)
  qed
qed

section \<open>The tool and the client library\<close>

definition library_error :: "'s CliEnv \<Rightarrow> client_error \<Rightarrow> string" where
  "library_error env e =
     (case e of MarshalFailed err \<Rightarrow> ''failed to marshal payload: '' @ err
      | SubmitFailed err \<Rightarrow> ''submit failed: '' @ ce_error env err
      | _ \<Rightarrow> '''')"

text \<open>\<open>distctl run\<close> asks the master for exactly what the client library asks for with the same
  timeout: the same calls, so the same state of the world, the same job and the same failures; it
  only words them differently.\<close>

theorem run_is_library_run:
  assumes "ce_dial env (fl_masterAddr fl) = Inr svc" and "\<not> fl_outputJSON fl"
    and "cl_master c = MasterServiceClient.truncate svc"
  shows "runCommand env fl command args s =
    (case RunCommandWithTimeout (ce_marshal env) c command (fl_timeout fl) args s of
       (Inl err, s') \<Rightarrow> (('''', Some (library_error env err)), s')
     | (Inr jobID, s') \<Rightarrow>
         ((''Job submitted: '' @ jobID @ newline @ ''Use '' @ quote @ ''distctl status '' @ jobID @
            quote @ '' to check status'' @ newline, None), s'))"
  using assms
  by (simp add: runCommand_def Cli_getClient_def RunCommandWithTimeout_def library_error_def
      MasterServiceClient.truncate_def split: sum.split prod.split)

text \<open>The exit code says whether the master answered, not what it answered: a job that
  could not be cancelled, and a failed job whose status is shown, both leave it at 0.\<close>

theorem exit_code_is_transport_only:
  assumes "ce_dial env (fl_masterAddr fl) = Inr svc" and "\<not> fl_outputJSON fl"
  shows "exit_status (fst (cancelJob env fl i s)) = (case fst (svc_Cancel svc i s) of Inl e \<Rightarrow> 1 | Inr r \<Rightarrow> 0) \<and>
    exit_status (fst (getStatus env fl i s)) = (case fst (svc_GetStatus svc i s) of Inl e \<Rightarrow> 1 | Inr r \<Rightarrow> 0)"
  using assms
  by (auto simp: exit_status_def cancelJob_def getStatus_def Cli_getClient_def split: sum.split prod.split)

text \<open>A world that counts the calls and cancels nothing.\<close>

definition sample_stub :: "nat MasterStub" where
  "sample_stub = \<lparr>svc_Submit = (\<lambda>_ n. (Inr \<lparr>sub_JobId = ''j''\<rparr>, Suc n)),
     svc_GetStatus = (\<lambda>_ n. (Inl (GrpcError NotFound ''no job''), Suc n)),
     svc_Cancel = (\<lambda>_ n. (Inr \<lparr>can_Cancelled = False, can_Message = ''done''\<rparr>, Suc n)),
     svc_ListJobs = (\<lambda>_ n. (Inr \<lparr>lj_Jobs = [], lj_Total = 0\<rparr>, Suc n))\<rparr>"

definition sample_cli :: "nat CliEnv" where
  "sample_cli = \<lparr>ce_dial = (\<lambda>_. Inr sample_stub), ce_marshal = (\<lambda>_. Inr [1]), ce_encode = (\<lambda>_. Inr ''{}''),
     ce_rfc3339 = show_int, ce_text = (\<lambda>_. ''''), ce_error = err_message\<rparr>"

lemma sample_cli_facts:
  "ce_dial sample_cli a = Inr sample_stub" "\<not> fl_outputJSON default_flags"
  by (simp_all add: sample_cli_def default_flags_def)

theorem run_is_library_run_witness:
  "snd (runCommand sample_cli default_flags ''date'' [] 0) = 1"
  using run_is_library_run [OF sample_cli_facts, of "\<lparr>cl_conn = (), cl_master = MasterServiceClient.truncate sample_stub\<rparr>"
      "''date''" "[]" 0]
  by (simp add: RunCommandWithTimeout_def sample_cli_def MasterServiceClient.truncate_def sample_stub_def)

theorem exit_code_is_transport_only_witness:
  "exit_status (fst (cancelJob sample_cli default_flags ''j'' 0)) = 0 \<and>
   exit_status (fst (getStatus sample_cli default_flags ''j'' 0)) = 1"
  using exit_code_is_transport_only [OF sample_cli_facts, of "''j''" 0] by (simp add: sample_stub_def)

end
