(* ===== verification/Mains.thy ===== *)
theory Mains
  imports MasterProcess WorkerSystem Operator Commands
begin

text \<open>
  The main functions of \<open>cmd/master\<close>, \<open>cmd/worker\<close> and \<open>cmd/operator\<close>: they load the settings, build
  a server or controller, run it until a signal, and turn the errors on this way into the end of the
  process. \<open>log.Fatal\<close> ends it with code 1, and a panic, which nothing recovers, with code 2.
\<close>

section \<open>How a process ends\<close>

datatype process_exit = ExitNormal | ExitFatal string string | ExitPanic

fun exit_code_of :: "process_exit \<Rightarrow> int" where
  "exit_code_of ExitNormal = 0"
| "exit_code_of (ExitFatal msg err) = 1"
| "exit_code_of ExitPanic = 2"

section \<open>The master\<close>

text \<open>
  Up to \<open>srv.Run\<close>: the log level and the process that starts, or the end of it. \<open>NewServer\<close> never
  returns an error.
\<close>

definition master_main_start ::
    "string + MasterConfig \<Rightarrow> string + 'k \<Rightarrow> ('k \<Rightarrow> string + ('c, 'x) K8s) \<Rightarrow> 'c \<Rightarrow>
     process_exit + log_level \<times> ('c, 'x, 'n) MasterProc" where
  "master_main_start processed in_cluster new_for_config cluster =
     (case LoadMaster processed of
        Inl err \<Rightarrow> Inl (ExitFatal ''failed to load config'' err)
      | Inr cfg \<Rightarrow> Inr (setupLogging (mc_LogLevel cfg),
          proc_boot (NewServer cfg in_cluster new_for_config cluster)))"

text \<open>After it: \<open>None\<close> while it runs.\<close>

definition master_main_end :: "('c, 'x, 'n) MasterProc \<Rightarrow> process_exit option" where
  "master_main_end p =
     (case mp_run p of
        Returned None \<Rightarrow> Some ExitNormal
      | Returned (Some err) \<Rightarrow> Some (ExitFatal ''server error'' err)
      | _ \<Rightarrow> None)"

text \<open>The main function of the master ends with code 0 only after a signal and a graceful stop, with
  no request in flight; an error of the listener or of the gRPC server is code 1.\<close>

theorem master_exit_code:
  assumes "master_main_start processed in_cluster new_for_config cluster = Inr (level, p)"
    and "reach (\<lambda>u. u = p) proc_step q" and "master_main_end q = Some e"
  shows "if exit_code_of e = 0
    then mp_run q = Returned None \<and> mp_ctx_done q \<and> \<not> srv_serving (mp_srv q) \<and>
      (\<forall>g pc. mp_go q g = Some pc \<longrightarrow> \<not> request_pc pc)
    else exit_code_of e = 1 \<and> (\<exists>err. mp_run q = Returned (Some err) \<and> e = ExitFatal ''server error'' err)"
proof -
  obtain cfg where "p = proc_boot (NewServer cfg in_cluster new_for_config cluster)"
    using assms(1) by (auto simp: master_main_start_def split: sum.splits)
  then have "reach proc_init proc_step p" by (simp add: reach_init NewServer_init)
  from reach_trans [OF this assms(2)] have q: "reach proc_init proc_step q" .
  note inv = proc_invD [OF process.reach_inva [OF q]]
  show ?thesis
  proof (cases "mp_run q = Returned None")
    case True
    then show ?thesis using assms(3) inv(3) inv(4) inv(5) by (auto simp: master_main_end_def)
  next
    case False
    then show ?thesis using assms(3) by (auto simp: master_main_end_def split: run_state.splits option.splits)
  qed
qed

section \<open>The worker\<close>

text \<open>The first arguments are those of \<open>worker_registry\<close>; \<open>m\<close> is the master that the worker finds.\<close>

definition worker_main_start ::
    "(bytes \<Rightarrow> string + CommandPayload) \<Rightarrow> string list \<Rightarrow> (metadata \<Rightarrow> string list) \<Rightarrow>
     (Cmd \<Rightarrow> 'w \<Rightarrow> RunOutcome \<times> 'w) \<Rightarrow> string \<Rightarrow> string + WorkerConfig \<Rightarrow> string list \<Rightarrow> 's \<Rightarrow>
     process_exit + log_level \<times> ('conn, 'w, 's) WorkerSys" where
  "worker_main_start unmarshal environ order run hostname processed ks m =
     (case LoadWorker hostname processed of
        Inl err \<Rightarrow> Inl (ExitFatal ''failed to load config'' err)
      | Inr cfg \<Rightarrow> Inr (setupLogging (wc_LogLevel cfg),
          \<lparr>ws_server = NewWorkerServer cfg ks (worker_registry unmarshal environ order run cfg), ws_calls = Map.empty, ws_beat = BeatNone,
           ws_main = MainListen, ws_master = m\<rparr>))"

definition worker_main_end :: "('conn, 'w, 's) WorkerSys \<Rightarrow> process_exit option" where
  "worker_main_end s =
     (case ws_main s of
        MainDone \<Rightarrow> Some ExitNormal
      | MainFailed err \<Rightarrow> Some (ExitFatal ''server error'' err)
      | _ \<Rightarrow> None)"

text \<open>The main function of the worker ends with code 0 only when nothing is in flight any more.\<close>

theorem worker_exit_code:
  assumes "worker_main_start unmarshal environ order run hostname processed ks m = Inr (level, s)"
    and "reach (\<lambda>u. u = s) (worker_step rpc own) t" and "worker_main_end t = Some ExitNormal"
  shows "ws_calls t = Map.empty \<and> tr_wg (wk_runner (ws_server t)) = 0 \<and> wk_grpc (ws_server t) = GrpcStopped"
proof -
  have "worker_init s"
    using assms(1) unfolding worker_init_def by (auto simp: worker_main_start_def split: sum.splits)
  from reach_trans [OF reach_init, of worker_init s "worker_step rpc own" t] this assms(2)
  have t: "reach worker_init (worker_step rpc own) t" by blast
  have "ws_main t = MainDone"
    using assms(3) by (auto simp: worker_main_end_def split: main_pc.splits)
  note inv = worker_invD(2,3) [OF worker.reach_inva [OF t] this]
  with idle_runner(3) [OF runner_view.reach_img [OF t]] show ?thesis by simp
qed

section \<open>The operator\<close>

text \<open>
  The clients of Kubernetes are outside: \<open>kube\<close> is \<open>BuildConfigFromFlags\<close> or \<open>InClusterConfig\<close> by the
  source of the configuration, \<open>dynamic_client\<close> is \<open>dynamic.NewForConfig\<close>.
\<close>

definition operator_main ::
    "(string \<Rightarrow> string) \<Rightarrow> (kube_source \<Rightarrow> string + 'cfg) \<Rightarrow> ('cfg \<Rightarrow> string + 'k) \<Rightarrow>
     (string \<Rightarrow> string + 'conn) \<Rightarrow> ('conn \<Rightarrow> ('u, 's) OperatorEnv) \<Rightarrow> bool \<Rightarrow> 'u op_event list \<Rightarrow> 's \<Rightarrow>
     process_exit \<times> 's" where
  "operator_main getenv kube dynamic_client dial env_of synced events s =
     (let settings = operator_settings getenv
      in case kube (os_kube settings) of
           Inl err \<Rightarrow> (ExitFatal ''failed to create k8s config'' err, s)
         | Inr config \<Rightarrow>
             (case dynamic_client config of
                Inl err \<Rightarrow> (ExitFatal ''failed to create dynamic client'' err, s)
              | Inr client \<Rightarrow>
                  (case Controller_Run dial env_of synced events
                          (NewController client (os_masterAddr settings) (os_namespace settings)) s of
                     (Inl err, c, s') \<Rightarrow> (ExitFatal ''controller error'' err, s')
                   | (Inr OpPanic, c, s') \<Rightarrow> (ExitPanic, s')
                   | (Inr OpDone, c, s') \<Rightarrow> (ExitNormal, s'))))"

text \<open>Without its environment the operator looks for the master at \<open>master:50051\<close>. Whatever goes wrong
  before the informer has synced, the process ends with code 1 and no resource is touched; after that
  its only abnormal end is the panic of a handler.\<close>

theorem operator_exit_code:
  assumes "\<not> synced \<or> dial (os_masterAddr (operator_settings getenv)) = Inl err"
  shows "\<exists>msg e. operator_main getenv kube dynamic_client dial env_of synced events s = (ExitFatal msg e, s)"
  using assms
  by (auto simp: operator_main_def Controller_Run_def NewController_def Let_def split: sum.split)

theorem operator_default_master:
  assumes "\<And>v. getenv v = ''''" and "kube InCluster = Inr config" and "dynamic_client config = Inr client"
    and "dial ''master:50051'' = Inr conn"
  shows "fst (operator_main getenv kube dynamic_client dial env_of True events s) =
    (case fst (handle_events (env_of conn) events s) of OpDone \<Rightarrow> ExitNormal | OpPanic \<Rightarrow> ExitPanic)"
  using assms
  by (simp add: operator_main_def operator_settings_def Controller_Run_def NewController_def Let_def
      split: prod.split op_outcome.split)

end
