(* ===== verification/Cluster.thy ===== *)
theory Cluster
  imports Service WorkerSystem Client
begin

text \<open>
  Master and worker together: the master is the registration service that a worker expects, so a
  worker's heartbeat heals a lost registration; and a dispatch whose call is answered by a worker
  of this repository carries the outcome of the command to the client of the master.
\<close>

section \<open>The master is a registration service\<close>

definition knows_worker :: "string \<Rightarrow> ('b, 'c, 'x, 'n) Master \<Rightarrow> bool" where
  "knows_worker i m \<longleftrightarrow> GetNode i (m_reg m) \<noteq> None"

lemma Server_Register_knows:
  "rq_WorkerId q \<noteq> [] \<Longrightarrow> rq_Address q \<noteq> [] \<Longrightarrow>
   \<exists>resp m'. Server_Register now q m = (Inr resp, m') \<and> rp_Accepted resp \<and> knows_worker (rq_WorkerId q) m'"
  by (simp add: Server_Register_def knows_worker_def GetNode_def Register_def register_node_def)

lemma Server_Heartbeat_knows:
  "hb_WorkerId h \<noteq> [] \<Longrightarrow>
   \<exists>act m'. Server_Heartbeat now h m =
       (Inr \<lparr>hb_Acknowledged = knows_worker (hb_WorkerId h) m, hb_Action = act\<rparr>, m') \<and>
     (\<forall>i. knows_worker i m' = knows_worker i m)"
  by (auto simp: Server_Heartbeat_def Heartbeat_def knows_worker_def GetNode_def split: option.split)

lemma Server_Deregister_forgets:
  "i \<noteq> [] \<Longrightarrow> \<exists>m'. Server_Deregister i m = (Inr True, m') \<and> \<not> knows_worker i m'"
  by (simp add: Server_Deregister_def knows_worker_def GetNode_def Deregister_def)

interpretation master_reg: registration_service "Server_Register now" Server_Deregister
  "Server_Heartbeat now" knows_worker for now
  by unfold_locales (simp_all add: Server_Register_knows Server_Heartbeat_knows Server_Deregister_forgets)

text \<open>The master as the other end of a worker's connection, its clock reading \<open>now\<close>.\<close>

definition master_rpc ::
    "(string \<Rightarrow> string + 'conn) \<Rightarrow> time \<Rightarrow> ('conn, ('b, 'c, 'x, 'n) Master) MasterRPC" where
  "master_rpc dial now = \<lparr>rpc_dial = dial, rpc_register = (\<lambda>_. Server_Register now),
     rpc_deregister = (\<lambda>_. Server_Deregister), rpc_heartbeat = (\<lambda>_. Server_Heartbeat now)\<rparr>"

text \<open>Claim C20: A worker that has registered once and that the master does not know, because the
  master restarted or dropped it as unhealthy, is known again after one heartbeat: the heartbeat is
  not acknowledged and the same tick registers the worker anew.\<close>

theorem forgotten_worker_returns:
  assumes "rg_registered (wk_registration s)" and "rg_client (wk_registration s) \<noteq> None"
    and "rg_workerID (wk_registration s) \<noteq> ''''" and "rg_address (wk_registration s) \<noteq> ''''"
  shows "\<exists>s' m'. worker_beat (master_rpc dial now) s m = (Some s', m') \<and>
    IsRegistered (wk_registration s') \<and> GetNode (rg_workerID (wk_registration s)) (m_reg m') \<noteq> None"
proof -
  have "client_ok (wk_registration s)" using assms(2) by (simp add: client_ok_def)
  from master_reg.tick_heals [OF assms(1) this assms(3,4), of dial now "ActiveCount (wk_runner s)" m]
  show ?thesis
    unfolding master_rpc_def [symmetric] by (auto simp: worker_beat_def IsRegistered_def knows_worker_def)
qed

text \<open>A worker joins, the master loses it, and the next heartbeat finds it again.\<close>

theorem forgotten_worker_returns_witness:
  "let (err, s, m) = worker_start (master_rpc (\<lambda>_. Inr ()) 0) None (sample_worker 2) (sample_master [] False);
       m1 = snd (Server_Deregister ''w'' m)
   in err = None \<and> GetNode ''w'' (m_reg m) \<noteq> None \<and> GetNode ''w'' (m_reg m1) = None \<and>
     (\<exists>s' m'. worker_beat (master_rpc (\<lambda>_. Inr ()) 9) s m1 = (Some s', m') \<and>
        GetNode ''w'' (m_reg m') \<noteq> None)"
proof -
  let ?start = "worker_start (master_rpc (\<lambda>_. Inr ()) 0) None (sample_worker 2) (sample_master [] False)"
  let ?s = "fst (snd ?start)" and ?m = "snd (snd ?start)"
  have start: "fst ?start = None" "rg_registered (wk_registration ?s)" "rg_client (wk_registration ?s) = Some ()"
      "rg_workerID (wk_registration ?s) = ''w''" "rg_address (wk_registration ?s) = '':50052''"
      "GetNode ''w'' (m_reg ?m) \<noteq> None"
    by (simp_all add: worker_start_def sample_worker_def NewWorkerServer_def NewRegistration_def
        worker_registration_config_def sample_worker_config_def Registration_Register_def Connect_def
        register_call_def master_rpc_def Server_Register_def register_request_def Register_def GetNode_def
        register_node_def)
  have "GetNode ''w'' (m_reg (snd (Server_Deregister ''w'' ?m))) = None"
    by (simp add: Server_Deregister_def GetNode_def Deregister_def)
  moreover from start(3-5) forgotten_worker_returns [OF start(2), of "\<lambda>_. Inr ()" 9
      "snd (Server_Deregister ''w'' ?m)"]
  have "\<exists>s' m'. worker_beat (master_rpc (\<lambda>_. Inr ()) 9) ?s (snd (Server_Deregister ''w'' ?m)) = (Some s', m') \<and>
      GetNode ''w'' (m_reg m') \<noteq> None"
    by auto
  ultimately show ?thesis using start(1,6) by (simp add: case_prod_beta Let_def)
qed

section \<open>From the command to the client of the master\<close>

text \<open>A worker at the other end of the dispatcher's call. \<open>text\<close> is how gRPC prints an error.\<close>

definition worker_call ::
    "(grpc_error \<Rightarrow> string) \<Rightarrow> ctx \<Rightarrow> duration \<Rightarrow> ('conn, 'w) WorkerServer \<Rightarrow> 'w \<Rightarrow>
     ExecuteRequest \<Rightarrow> string + ExecuteResponse" where
  "worker_call text ctx elapsed s w req =
     (case fst (Execute ctx elapsed req s w) of Inl err \<Rightarrow> Inl (text err) | Inr resp \<Rightarrow> Inr resp)"

lemma status_of_saved:
  assumes "GetJob (res_TaskID res) s = Some j"
  shows "GetJob (res_TaskID res) (SaveResult res s) =
    Some (j\<lparr>job_Result := Some res, job_Status := result_job_status res\<rparr>)"
  using assms by (simp add: store.get_save_result)

text \<open>Claim C19: A command task that the dispatcher sends to a worker with room runs under the task's
  timeout, or the deadline of the call if that is earlier, and its outcome is what the client reads
  from the master: COMPLETED exactly when the process ended with code 0 and FAILED otherwise, with
  the process's output, its exit code and the worker that ran it. The attempt is final: the task is
  out of the queue and its retries are untouched.\<close>

theorem command_outcome_reaches_client:
  assumes k: "known r (m_sched m)" and load: "sane_load (m_reg m)"
    and nodes: "dispatch_nodes env m \<noteq> []"
    and sel: "env_select env t (dispatch_nodes env m) (m_bal m) = (Inr node, b)"
    and cl: "getClient (env_dial env) node (m_pool m) = (Inr client, p)"
    and t: "t = sched_heap (m_sched m) r" "task_Type t = ''command''" "task_ID t \<noteq> ''''"
    and job: "GetJob (task_ID t) (m_store m) = Some j"
    and call: "env_exec env client = worker_call text ctx elapsed srv w"
    and room: "ActiveCount (wk_runner srv) < MaxTasks (wk_runner srv)"
    and reg: "wk_registry srv = worker_registry unmarshal environ order run cfg"
    and enabled: "cc_Enabled (xc_Command (wc_Executors cfg))"
    and parse: "unmarshal (task_Payload t) = Inr pl"
    and ran: "run (build_cmd (WithTimeout ctx (task_Timeout t)) environ (order (cp_Env pl)) pl) w = (out, w')"
    and exits: "\<And>c. ro_Err out = ExitError c \<Longrightarrow> c \<noteq> 0"
  shows "\<exists>resp. GetStatus (task_ID t) (dispatchTask env r m) = Inr resp \<and>
    gs_Status resp = (if ro_Err out = RunOK then JOB_STATUS_COMPLETED else JOB_STATUS_FAILED) \<and>
    gs_Output resp = ro_Stdout out \<and> gs_ExitCode resp = wrap32 (exit_code out) \<and>
    gs_WorkerId resp = node_ID node \<and>
    task_Status (sched_heap (m_sched (dispatchTask env r m)) r) = TaskStatusCompleted \<and>
    pending_refs (m_sched (dispatchTask env r m)) = pending_refs (m_sched m) \<and>
    task_Retries (sched_heap (m_sched (dispatchTask env r m)) r) = task_Retries t"
proof -
  let ?q = "execute_request t" and ?m' = "dispatchTask env r m"
  let ?resp = "execute_response ?q (build_result out) elapsed"
  let ?res = "response_result t node ?resp (env_now_replied env)"
  have acc: "accepts ?q srv" using t room by (simp add: accepts_def execute_request_def)
  have q: "unmarshal (ex_Payload ?q) = Inr pl"
    "run (build_cmd (WithTimeout ctx (execute_timeout ?q)) environ (order (cp_Env pl)) pl) w = (out, w')"
    using parse ran by (simp_all add: execute_request_def execute_timeout_def)
  from Execute_accepted [OF acc reg enabled q, of elapsed]
  have "env_exec env client ?q = Inr ?resp" by (auto simp: call worker_call_def)
  with dispatch_reply_effect [OF k load nodes _ cl, of b ?resp] sel t(1)
  have eff: "touched r (m_sched m) (m_sched ?m')" "task_Status (sched_heap (m_sched ?m') r) = TaskStatusCompleted"
    "m_store ?m' = SaveResult ?res (m_store m)" by auto
  from status_of_saved [of ?res, OF _] job
  have "GetJob (task_ID t) (m_store ?m') =
      Some (j\<lparr>job_Result := Some ?res, job_Status := result_job_status ?res\<rparr>)"
    by (simp add: eff(3))
  moreover have "res_Output ?res = ro_Stdout out" "wrap32 (res_ExitCode ?res) = wrap32 (exit_code out)"
    by (simp_all add: response_result_def execute_response_def exit_code_build_result)
  ultimately show ?thesis
    using eff(2) touchedD(1,6) [OF eff(1)] t
    by (simp add: GetStatus_def status_response_def result_job_status_response
        status_build_result [OF exits])
qed

text \<open>The master with one queued task, and its worker with a machine on which the command fails.\<close>

definition sample_cluster_env :: "(RoundRobinBalancer, string) Env" where
  "sample_cluster_env = (sample_env (Inl '''') [''w1''])
     \<lparr>env_exec := (\<lambda>_. worker_call err_message None 5 (sample_worker 2) [])\<rparr>"

lemma sample_cluster_env_simps:
  "env_order sample_cluster_env = [''w1'']" "env_select sample_cluster_env = rr_Select"
  "env_dial sample_cluster_env = Inr"
  "env_exec sample_cluster_env c = worker_call err_message None 5 (sample_worker 2) []"
  by (simp_all add: sample_cluster_env_def)

lemma sample_worker_facts:
  "ActiveCount (wk_runner (sample_worker 2)) < MaxTasks (wk_runner (sample_worker 2))"
  "wk_registry (sample_worker 2) =
     worker_registry (\<lambda>_. Inr sample_payload) [] (\<lambda>_. []) sample_run (sample_worker_config 2)"
  "cc_Enabled (xc_Command (wc_Executors (sample_worker_config 2)))"
  by (simp_all add: sample_worker_def NewWorkerServer_def ActiveCount_def MaxTasks_def
      NewTaskRunner_def sample_worker_config_def)

theorem command_outcome_reaches_client_witness:
  "\<exists>resp. GetStatus ''j1'' (dispatchTask sample_cluster_env 0 (sample_master [] True)) = Inr resp \<and>
    gs_Status resp = JOB_STATUS_FAILED \<and> gs_Output resp = [7] \<and> gs_ExitCode resp = 1 \<and>
    gs_WorkerId resp = ''w1''"
proof -
  let ?m = "sample_master [] True" and ?env = sample_cluster_env
  note env = sample_cluster_env_simps
  have sel: "env_select ?env (NewTask ''j1'' ''command'' [1] 0) (dispatch_nodes ?env ?m) (m_bal ?m) =
      (Inr sample_node, \<lparr>rr_counter = 1\<rparr>)" by (simp add: env)
  have cl: "getClient (env_dial ?env) sample_node (m_pool ?m) =
      (Inr (WorkerServiceClient ''10.0.0.1:50052''), snd (getClient Inr sample_node empty_pool))"
    by (simp add: env prod_eq_iff)
  have job: "GetJob ''j1'' (m_store ?m) \<noteq> None"
    by (simp add: sample_master_def SaveJob_def GetJob_def)
  from job obtain j where j: "GetJob ''j1'' (m_store ?m) = Some j" by blast
  have id: "task_ID (NewTask ''j1'' ''command'' [1] 0) = ''j1''" "task_Type (NewTask ''j1'' ''command'' [1] 0) = ''command''"
    by (simp_all add: NewTask_def)
  from command_outcome_reaches_client [OF _ _ _ sel cl _ id(2) _ _ env(4) sample_worker_facts, of 0 j sample_payload]
  show ?thesis by (simp add: env id j sample_run_def exit_code_def wrap32_id in32_def sample_node_def) blast
qed

section \<open>The client's round trip\<close>

text \<open>The master's handlers as the client's stub: \<open>jobID\<close>, \<open>now\<close> and \<open>now'\<close> are what
  \<open>Submit\<close> draws.\<close>

definition master_stub :: "string \<Rightarrow> time \<Rightarrow> time \<Rightarrow> ('b, 'c, 'x, 'n) Master MasterServiceClient" where
  "master_stub jobID now now' = \<lparr>svc_Submit = Submit jobID now now',
     svc_GetStatus = (\<lambda>i m. (GetStatus i m, m)), svc_Cancel = Cancel\<rparr>"

text \<open>Claim C2: \<open>RunAndWait\<close> on an idle master with a free worker returns the outcome of the command: the
  client's command runs on the selected worker under the default 30 seconds, and the status that
  comes back is a success exactly when the process ended with code 0, with its output, its exit code
  and the name of the worker. \<open>json\<close> is assumed to read back what it has written.\<close>

theorem run_and_wait_returns_outcome:
  assumes wf: "sched_wf (m_sched m)" and load: "sane_load (m_reg m)"
    and fresh: "sched_tasks (m_sched m) i = None" and i: "i \<noteq> ''''"
    and empty: "pending_refs (m_sched m) = []" and nodes: "dispatch_nodes env m \<noteq> []"
    and sel: "env_select env ((submit_task i now' (command_request payload (30 * second)))
      \<lparr>task_Status := TaskStatusPending\<rparr>) (dispatch_nodes env m) (m_bal m) = (Inr node, b)"
    and cl: "getClient (env_dial env) node (m_pool m) = (Inr client, p)"
    and call: "env_exec env client = worker_call text ctx elapsed srv w"
    and room: "ActiveCount (wk_runner srv) < MaxTasks (wk_runner srv)"
    and reg: "wk_registry srv = worker_registry unmarshal environ order run cfg"
    and enabled: "cc_Enabled (xc_Command (wc_Executors cfg))"
    and json: "marshal (command_payload command args) = Inr payload" "payload \<noteq> []"
      "unmarshal payload = Inr (command_payload command args)"
    and ran: "run (build_cmd (WithTimeout ctx (30 * second)) environ (order Map.empty)
      (command_payload command args)) w = (out, w')"
    and exits: "\<And>c. ro_Err out = ExitError c \<Longrightarrow> c \<noteq> 0"
    and stub: "cl_master c = master_stub i now now'"
  shows "\<exists>st. fst (RunAndWait marshal c command args [PollTick (run_rounds [env])] m) = Some (Inr st) \<and>
    cst_JobID st = i \<and> IsComplete st \<and> (Client_IsSuccess st \<longleftrightarrow> ro_Err out = RunOK) \<and>
    cst_Output st = ro_Stdout out \<and> cst_ExitCode st = wrap32 (exit_code out) \<and>
    cst_WorkerID st = node_ID node"
proof -
  let ?req = "command_request payload (30 * second)"
  let ?q = "\<lparr>ex_TaskId = i, ex_TaskType = sub_TaskType ?req, ex_Payload = sub_Payload ?req,
      ex_Timeout = Some (submit_timeout ?req), ex_Metadata = sub_Metadata ?req\<rparr>"
  let ?m1 = "snd (Submit i now now' ?req m)" and ?resp = "execute_response ?q (build_result out) elapsed"
  let ?m2 = "run_rounds [env] ?m1"
  have req: "well_formed_request ?req" using json(2) by (simp add: well_formed_request_def command_request_def)
  have acc: "accepts ?q srv" using i room by (simp add: accepts_def command_request_def)
  have q: "unmarshal (ex_Payload ?q) = Inr (command_payload command args)"
    "run (build_cmd (WithTimeout ctx (execute_timeout ?q)) environ (order (cp_Env (command_payload command args)))
       (command_payload command args)) w = (out, w')"
    using json(3) ran by (simp_all add: command_request_def execute_timeout_def submit_timeout_def command_payload_def)
  from Execute_accepted [OF acc reg enabled q, of elapsed]
  have "env_exec env client ?q = Inr ?resp" by (auto simp: call worker_call_def)
  note job = submit_dispatch_effect(1) [OF req wf load fresh i empty nodes sel cl this, of now]
  have room': "PendingCount (m_sched m) < queue_cap (m_sched m)"
    using wf empty by (simp add: sched_wf_def queue_ok_def PendingCount_def chan_len_def)
  have sub: "RunCommand marshal c command args m = (Inr i, ?m1)"
    using Submit_room(1) [OF req fresh room', of now now'] json(1)
    by (cases "Submit i now now' ?req m") (simp add: RunCommand_def RunCommandWithTimeout_def stub master_stub_def)
  obtain resp where resp: "GetStatus i ?m2 = Inr resp"
      "gs_Status resp = (if ro_Err out = RunOK then JOB_STATUS_COMPLETED else JOB_STATUS_FAILED)"
      "gs_JobId resp = i" "gs_Output resp = ro_Stdout out" "gs_ExitCode resp = wrap32 (exit_code out)"
      "gs_WorkerId resp = node_ID node"
    using i job
    by (simp add: GetStatus_store status_response_def status_build_result [OF exits] submit_job_def
        del: dispatcher_run.simps)
       (simp add: response_result_def execute_response_def exit_code_build_result)
  have "terminal_status (gs_Status resp)" by (simp add: resp(2) terminal_status_def)
  moreover have "svc_GetStatus (cl_master c) i (run_rounds [env] ?m1) = (Inr resp, ?m2)"
    using resp(1) by (simp only: stub master_stub_def MasterServiceClient.select_convs)
  ultimately have "fst (RunAndWait marshal c command args [PollTick (run_rounds [env])] m) =
      Some (Inr (client_status resp))"
    using Wait_terminal [of c i "run_rounds [env]" ?m1 resp ?m2 "[]"]
    by (simp add: RunAndWait_def sub del: dispatcher_run.simps WaitForCompletion.simps)
  moreover have "IsComplete (client_status resp)"
    using \<open>terminal_status _\<close> by (simp add: IsComplete_client_status)
  ultimately show ?thesis
    by (simp add: Client_IsSuccess_def client_status_def resp exit_code_def wrap32_id in32_def)
qed

theorem run_and_wait_returns_outcome_witness:
  "\<exists>st. fst (RunAndWait (\<lambda>_. Inr [1]) \<lparr>cl_conn = (), cl_master = master_stub ''j1'' 0 0\<rparr> ''false'' []
      [PollTick (run_rounds [sample_cluster_env])] sample_idle) = Some (Inr st) \<and>
    \<not> Client_IsSuccess st \<and> cst_Output st = [7] \<and> cst_ExitCode st = 1 \<and> cst_WorkerID st = ''w1''"
proof -
  let ?env = sample_cluster_env and ?m = sample_idle
  have sel: "env_select ?env ((submit_task ''j1'' 0 (command_request [1] (30 * second)))
      \<lparr>task_Status := TaskStatusPending\<rparr>) (dispatch_nodes ?env ?m) (m_bal ?m) =
      (Inr sample_node, \<lparr>rr_counter = 1\<rparr>)" by (simp add: sample_cluster_env_simps)
  have cl: "getClient (env_dial ?env) sample_node (m_pool ?m) =
      (Inr (WorkerServiceClient ''10.0.0.1:50052''), snd (getClient Inr sample_node empty_pool))"
    by (simp add: sample_cluster_env_simps prod_eq_iff)
  have p: "sample_payload = command_payload ''false'' []"
    by (simp add: sample_payload_def command_payload_def)
  from run_and_wait_returns_outcome [OF _ _ _ _ _ _ sel cl sample_cluster_env_simps(4) sample_worker_facts,
      of "\<lambda>_. Inr [1]" "''false''" "[]" _ _ "\<lparr>cl_conn = (), cl_master = master_stub ''j1'' 0 0\<rparr>" 0]
  show ?thesis
    by (simp add: sample_cluster_env_simps sched_wf_New p [symmetric] sample_run_def exit_code_def wrap32_id
        in32_def sample_node_def del: dispatcher_run.simps) blast
qed

text \<open>Claim C25: The client treats FAILED as final, but the master reports FAILED for a job whose attempt
  could not reach a worker even when it has queued the task again: a poll that falls between the two
  attempts ends the wait with a failure while the task is waiting in the queue to be run.\<close>

theorem client_gives_up_before_retry:
  assumes k: "known r (m_sched m)" and load: "sane_load (m_reg m)"
    and nodes: "dispatch_nodes env m \<noteq> []"
    and sel: "env_select env (sched_heap (m_sched m) r) (dispatch_nodes env m) (m_bal m) = (Inr node, b)"
    and fails: "send_fails env node (sched_heap (m_sched m) r) (m_pool m)"
    and i: "task_ID (sched_heap (m_sched m) r) = i" "i \<noteq> ''''" and job: "GetJob i (m_store m) = Some j"
    and left: "task_Retries (sched_heap (m_sched m) r) < task_MaxRetries (sched_heap (m_sched m) r)"
    and room: "PendingCount (m_sched m) < queue_cap (m_sched m)"
    and stub: "cl_master c = master_stub i' now now'"
  shows "\<exists>st m'. WaitForCompletion c i (PollTick (dispatchTask env r) # es) m = (Some (Inr st), m') \<and>
    cst_Status st = ''JOB_STATUS_FAILED'' \<and> pending_refs (m_sched m') = pending_refs (m_sched m) @ [r] \<and>
    task_Status (sched_heap (m_sched m') r) = TaskStatusPending"
proof -
  obtain s1 where s1: "touched r (m_sched m) s1"
    and store: "m_store (dispatchTask env r m) = UpdateJobStatus i TaskStatusFailed (m_store m)"
    and sched: "m_sched (dispatchTask env r m) = snd (Requeue r s1)"
    using dispatch_failure_effect [OF k load nodes sel fails] left i(1) by metis
  let ?m' = "dispatchTask env r m" and ?resp = "status_response (j\<lparr>job_Status := TaskStatusFailed\<rparr>)"
  have "GetStatus i ?m' = Inr ?resp"
    using i(2) job by (simp add: GetStatus_store store store.get_set_status)
  then have "svc_GetStatus (cl_master c) i (dispatchTask env r m) = (Inr ?resp, ?m')"
    by (simp only: stub master_stub_def MasterServiceClient.select_convs)
  with Wait_terminal [of c i "dispatchTask env r" m ?resp ?m' es]
  have "WaitForCompletion c i (PollTick (dispatchTask env r) # es) m = (Some (Inr (client_status ?resp)), ?m')"
    by (simp add: terminal_status_def)
  then show ?thesis
    using Requeue_touched [OF s1] room by (simp add: client_status_def sched)
qed

theorem client_gives_up_before_retry_witness:
  "let c = \<lparr>cl_conn = (), cl_master = master_stub ''j1'' 0 0\<rparr>;
       lost = sample_env (Inl ''connection refused'') [''w1'']
   in \<exists>st m'. WaitForCompletion c ''j1'' [PollTick (dispatchTask lost 0)] (sample_master [] True) =
        (Some (Inr st), m') \<and> cst_Status st = ''JOB_STATUS_FAILED'' \<and> pending_refs (m_sched m') = [0]"
proof -
  let ?m = "sample_master [] True" and ?env = "sample_env (Inl ''connection refused'') [''w1'']"
  have fails: "send_fails ?env sample_node (sched_heap (m_sched ?m) 0) (m_pool ?m)"
    by (simp add: send_fails_def split: sum.split)
  have "GetJob ''j1'' (m_store ?m) \<noteq> None" by (simp add: sample_master_def SaveJob_def GetJob_def)
  then obtain j where j: "GetJob ''j1'' (m_store ?m) = Some j" by blast
  have t: "task_ID (NewTask ''j1'' ''command'' [1] 0) = ''j1''"
    "task_Retries (NewTask ''j1'' ''command'' [1] 0) < task_MaxRetries (NewTask ''j1'' ''command'' [1] 0)"
    by (simp_all add: NewTask_def)
  from client_gives_up_before_retry [OF _ _ _ _ fails _ _ j, of "\<lparr>rr_counter = 1\<rparr>"
      "\<lparr>cl_conn = (), cl_master = master_stub ''j1'' 0 0\<rparr>" "''j1''" 0 0 "[]"]
  show ?thesis by (simp add: t PendingCount_def chan_len_def Let_def del: WaitForCompletion.simps) blast
qed


section \<open>A worker that is gone and still known\<close>







end
