(* ===== verification/Deployment.thy ===== *)
theory Deployment
  imports Cluster Operator
begin

text \<open>
  Operator and master together: the controller's submissions on the queue and the store of the master
  that answers them.
\<close>

section \<open>What a client may rely on\<close>

text \<open>
  The contract of the master service as its clients use it: an accepted job is PENDING, no submission
  changes what is reported of another job, and asking changes nothing. \<open>fit\<close> is what the service
  needs of its state.
\<close>

locale job_board =
  fixes svc :: "'s MasterServiceClient"
    and fit :: "'s \<Rightarrow> bool"
  assumes submit_fit: "fit s \<Longrightarrow> svc_Submit svc q s = (a, s') \<Longrightarrow> fit s'"
    and submit_known: "fit s \<Longrightarrow> svc_Submit svc q s = (Inr resp, s') \<Longrightarrow>
      \<exists>r. fst (svc_GetStatus svc (sub_JobId resp) s') = Inr r \<and> gs_Status r = JOB_STATUS_PENDING"
    and submit_keeps: "fit s \<Longrightarrow> svc_Submit svc q s = (a, s') \<Longrightarrow> fst (svc_GetStatus svc i s) = Inr r \<Longrightarrow>
      fst (svc_GetStatus svc i s') = Inr r"
    and status_pure: "snd (svc_GetStatus svc i s) = s"
begin

definition reported_pending :: "string \<Rightarrow> 's \<Rightarrow> bool" where
  "reported_pending i s \<longleftrightarrow> (\<exists>r. fst (svc_GetStatus svc i s) = Inr r \<and> gs_Status r = JOB_STATUS_PENDING)"

lemma pending_kept:
  "fit s \<Longrightarrow> svc_Submit svc q s = (a, s') \<Longrightarrow> reported_pending i s \<Longrightarrow> reported_pending i s'"
  using submit_keeps unfolding reported_pending_def by blast

lemma submit_each_keeps:
  "fit s \<Longrightarrow> submit_each svc qs s = (as, s') \<Longrightarrow> reported_pending i s \<Longrightarrow> reported_pending i s'"
proof (induction qs arbitrary: s as)
  case (Cons q qs)
  obtain a s1 where one: "svc_Submit svc q s = (a, s1)" by fastforce
  obtain bs where rest: "submit_each svc qs s1 = (bs, s')"
    using Cons.prems(2) one by (auto split: prod.splits)
  show ?case
    by (rule Cons.IH [OF submit_fit [OF Cons.prems(1) one] rest pending_kept [OF Cons.prems(1) one Cons.prems(3)]])
qed simp

lemma submit_each_pending:
  "fit s \<Longrightarrow> submit_each svc qs s = (as, s') \<Longrightarrow> i \<in> set (accepted as) \<Longrightarrow> reported_pending i s'"
proof (induction qs arbitrary: s as)
  case (Cons q qs)
  obtain a s1 where one: "svc_Submit svc q s = (a, s1)" by fastforce
  obtain bs where rest: "submit_each svc qs s1 = (bs, s')" and as: "as = a # bs"
    using Cons.prems(2) one by (auto split: prod.splits)
  note fit = submit_fit [OF Cons.prems(1) one]
  show ?case
  proof (cases "i \<in> set (accepted bs)")
    case True
    then show ?thesis by (rule Cons.IH [OF fit rest])
  next
    case False
    with Cons.prems(3) as obtain resp where a: "a = Inr resp" and i: "i = sub_JobId resp" by (cases a) auto
    have "reported_pending i s1"
      using submit_known [OF Cons.prems(1), of q resp s1] one unfolding a i reported_pending_def by blast
    then show ?thesis by (rule submit_each_keeps [OF fit rest])
  qed
qed simp

lemma status_each_pending:
  "(\<And>i. i \<in> set ids \<Longrightarrow> reported_pending i s) \<Longrightarrow>
   status_each svc ids s = (replicate (length ids) (Some JOB_STATUS_PENDING), s)"
proof (induction ids)
  case (Cons i ids)
  then obtain r where "fst (svc_GetStatus svc i s) = Inr r" "gs_Status r = JOB_STATUS_PENDING"
    unfolding reported_pending_def by (meson list.set_intros(1))
  then have "svc_GetStatus svc i s = (Inr r, s)" by (metis prod.collapse status_pure)
  with Cons \<open>gs_Status r = JOB_STATUS_PENDING\<close> show ?case by simp
qed simp

text \<open>A client that asks right after its submissions sees all accepted jobs PENDING.\<close>

lemma asked_at_once:
  assumes "fit s" and "submit_each svc qs s = (as, s')"
  shows "status_each svc (accepted as) s' = (replicate (length (accepted as)) (Some JOB_STATUS_PENDING), s')"
  by (rule status_each_pending) (rule submit_each_pending [OF assms])

end

section \<open>The master as a job board\<close>

text \<open>The master with its supply of UUIDs: \<open>uuid n\<close> is the \<open>n\<close>-th that is drawn.\<close>

definition uuid_stub ::
    "(nat \<Rightarrow> string) \<Rightarrow> time \<Rightarrow> time \<Rightarrow> (nat \<times> ('b, 'c, 'x, 'n) Master) MasterServiceClient" where
  "uuid_stub uuid now now' = \<lparr>
     svc_Submit = (\<lambda>req (n, m). case Submit (uuid n) now now' req m of (a, m') \<Rightarrow> (a, (Suc n, m'))),
     svc_GetStatus = (\<lambda>i (n, m). (GetStatus i m, (n, m))),
     svc_Cancel = (\<lambda>i (n, m). case Cancel i m of (a, m') \<Rightarrow> (a, (n, m')))\<rparr>"

definition fresh_from :: "(nat \<Rightarrow> string) \<Rightarrow> nat \<times> ('b, 'c, 'x, 'n) Master \<Rightarrow> bool" where
  "fresh_from uuid s \<longleftrightarrow> inj uuid \<and> (\<forall>j. uuid j \<noteq> '''') \<and> (\<forall>j \<ge> fst s. GetJob (uuid j) (m_store (snd s)) = None)"

lemma Submit_store:
  "m_store (snd (Submit i now now' req m)) =
     (if well_formed_request req then SaveJob (submit_job i now req) (m_store m) else m_store m)"
  using Submit_rejected [of req i now now' m] by (auto simp: Submit_wf)

lemma Submit_accepted: "fst (Submit i now now' req m) = Inr resp \<Longrightarrow> well_formed_request req \<and> sub_JobId resp = i"
  using Submit_rejected [of req i now now' m] by (cases "well_formed_request req") (auto simp: Submit_wf split: option.splits)

lemma fresh_from_Submit:
  assumes "fresh_from uuid (n, m)"
  shows "fresh_from uuid (Suc n, snd (Submit (uuid n) now now' req m))"
proof -
  have "uuid j \<noteq> uuid n" if "Suc n \<le> j" for j
    using assms that by (auto simp: fresh_from_def inj_eq)
  with assms show ?thesis by (auto simp: fresh_from_def Submit_store store.get_save)
qed

interpretation board: job_board "uuid_stub uuid now now'" "fresh_from uuid" for uuid now now'
proof unfold_locales
  fix s :: "nat \<times> ('a, 'b, 'c, 'd) Master" and q a s' i r resp
  obtain n m where s: "s = (n, m)" by (cases s)
  { assume "fresh_from uuid s" "svc_Submit (uuid_stub uuid now now') q s = (a, s')"
    then show "fresh_from uuid s'"
      using fresh_from_Submit [of uuid n m now now' q] by (auto simp: s uuid_stub_def split: prod.splits) }
  { assume "fresh_from uuid s" "svc_Submit (uuid_stub uuid now now') q s = (Inr resp, s')"
    then have "fst (Submit (uuid n) now now' q m) = Inr resp" "s' = (Suc n, snd (Submit (uuid n) now now' q m))"
      and u: "uuid n \<noteq> ''''"
      by (auto simp: s uuid_stub_def fresh_from_def split: prod.splits)
    with Submit_accepted [OF this(1)]
    show "\<exists>r. fst (svc_GetStatus (uuid_stub uuid now now') (sub_JobId resp) s') = Inr r \<and> gs_Status r = JOB_STATUS_PENDING"
      by (simp add: uuid_stub_def GetStatus_def Submit_store store.get_save status_response_def) }
  { assume a: "fresh_from uuid s" "svc_Submit (uuid_stub uuid now now') q s = (a, s')"
      "fst (svc_GetStatus (uuid_stub uuid now now') i s) = Inr r"
    then have s': "s' = (Suc n, snd (Submit (uuid n) now now' q m))" by (auto simp: s uuid_stub_def split: prod.splits)
    have "i \<noteq> uuid n" using a by (auto simp: s uuid_stub_def fresh_from_def GetStatus_def split: if_splits option.splits)
    then have "GetStatus i (snd (Submit (uuid n) now now' q m)) = GetStatus i m"
      by (simp add: GetStatus_def Submit_store store.get_save)
    with a(3) show "fst (svc_GetStatus (uuid_stub uuid now now') i s') = Inr r"
      by (simp add: s s' uuid_stub_def) }
  show "snd (svc_GetStatus (uuid_stub uuid now now') i s) = s" by (simp add: s uuid_stub_def)
qed


section \<open>A resource on the queue of the master\<close>

definition queue_IDs :: "Scheduler \<Rightarrow> string list" where
  "queue_IDs s = map (\<lambda>r. task_ID (sched_heap s r)) (pending_refs s)"

definition queue_room :: "Scheduler \<Rightarrow> nat" where
  "queue_room s = nat (queue_cap s - PendingCount s)"

text \<open>One submission, seen from the queue.\<close>

lemma Submit_queue:
  fixes m :: "('b, 'c, 'x, 'n) Master" and now now' :: time
  assumes wf: "sched_wf (m_sched m)" and req: "well_formed_request q" and new: "sched_tasks (m_sched m) i = None"
  defines "m' \<equiv> snd (Submit i now now' q m)"
  shows "sched_wf (m_sched m')" and "\<And>k. k \<noteq> i \<Longrightarrow> sched_tasks (m_sched m') k = sched_tasks (m_sched m) k"
    and "if queue_room (m_sched m) = 0
      then fst (Submit i now now' q m) = Inl (GrpcError ResourceExhausted ''queue full: task queue is full'') \<and>
        queue_IDs (m_sched m') = queue_IDs (m_sched m) \<and> queue_room (m_sched m') = 0 \<and> sched_tasks (m_sched m') i = None
      else fst (Submit i now now' q m) = Inr \<lparr>sub_JobId = i\<rparr> \<and> queue_IDs (m_sched m') = queue_IDs (m_sched m) @ [i] \<and>
        queue_room (m_sched m') = queue_room (m_sched m) - 1 \<and> sched_tasks (m_sched m') i \<noteq> None"
proof -
  have old: "r \<noteq> sched_next (m_sched m)" if "r \<in> set (pending_refs (m_sched m))" for r
    using known_allocated [OF wf sched_wf_pendingD [OF wf that]] by simp
  show "sched_wf (m_sched m')" unfolding m'_def by (rule Submit_sched_wf [OF wf])
  have "(\<forall>k. k \<noteq> i \<longrightarrow> sched_tasks (m_sched m') k = sched_tasks (m_sched m) k) \<and>
     (if queue_room (m_sched m) = 0
      then fst (Submit i now now' q m) = Inl (GrpcError ResourceExhausted ''queue full: task queue is full'') \<and>
        queue_IDs (m_sched m') = queue_IDs (m_sched m) \<and> queue_room (m_sched m') = 0 \<and> sched_tasks (m_sched m') i = None
      else fst (Submit i now now' q m) = Inr \<lparr>sub_JobId = i\<rparr> \<and> queue_IDs (m_sched m') = queue_IDs (m_sched m) @ [i] \<and>
        queue_room (m_sched m') = queue_room (m_sched m) - 1 \<and> sched_tasks (m_sched m') i \<noteq> None)"
  proof (cases "PendingCount (m_sched m) < queue_cap (m_sched m)")
    case True
    then have room: "queue_room (m_sched m) \<noteq> 0" by (simp add: queue_room_def)
    have "m_sched m' = snd (submitted_sched i now' q (m_sched m))" by (simp add: m'_def Submit_wf [OF req])
    then show ?thesis
      using old True room
      by (auto simp: Submit_wf [OF req] submitted_room [OF new True] queue_IDs_def queue_room_def PendingCount_def
          chan_len_def nat_diff_distrib)
  next
    case False
    then have full: "queue_cap (m_sched m) \<le> PendingCount (m_sched m)" by simp
    have "m_sched m' = snd (submitted_sched i now' q (m_sched m))" by (simp add: m'_def Submit_wf [OF req])
    then show ?thesis
      using old full new
      by (auto simp: Submit_wf [OF req] submitted_full [OF new full] queue_IDs_def queue_room_def PendingCount_def
          chan_len_def)
  qed
  then show "\<And>k. k \<noteq> i \<Longrightarrow> sched_tasks (m_sched m') k = sched_tasks (m_sched m) k"
    and "if queue_room (m_sched m) = 0
      then fst (Submit i now now' q m) = Inl (GrpcError ResourceExhausted ''queue full: task queue is full'') \<and>
        queue_IDs (m_sched m') = queue_IDs (m_sched m) \<and> queue_room (m_sched m') = 0 \<and> sched_tasks (m_sched m') i = None
      else fst (Submit i now now' q m) = Inr \<lparr>sub_JobId = i\<rparr> \<and> queue_IDs (m_sched m') = queue_IDs (m_sched m) @ [i] \<and>
        queue_room (m_sched m') = queue_room (m_sched m) - 1 \<and> sched_tasks (m_sched m') i \<noteq> None"
    by blast+
qed

lemma submit_each_uuid:
  "submit_each (uuid_stub uuid now now') (q # qs) (n, m) =
     (let (as, s) = submit_each (uuid_stub uuid now now') qs (Suc n, snd (Submit (uuid n) now now' q m))
      in (fst (Submit (uuid n) now now' q m) # as, s))"
  by (simp add: uuid_stub_def split_beta)

lemma drawn_Suc:
  "map f [n..<n + Suc k] = f n # map f [Suc n..<Suc n + k]"
  "f ` {n..<n + Suc k} = insert (f n) (f ` {Suc n..<Suc n + k})"
proof -
  show "map f [n..<n + Suc k] = f n # map f [Suc n..<Suc n + k]" by (subst upt_rec) simp
  have "{n..<n + Suc k} = insert n {Suc n..<Suc n + k}" by auto
  then show "f ` {n..<n + Suc k} = insert (f n) (f ` {Suc n..<Suc n + k})" by (simp only: image_insert)
qed

text \<open>A list of submissions: the first ones are queued, as many as there is room for.\<close>

lemma submit_each_queue:
  assumes "sched_wf (m_sched m)" and "\<And>q. q \<in> set qs \<Longrightarrow> well_formed_request q" and "inj uuid"
    and "\<And>j. n \<le> j \<Longrightarrow> sched_tasks (m_sched m) (uuid j) = None"
  shows "\<exists>as m'. submit_each (uuid_stub uuid now now') qs (n, m) = (as, (n + length qs, m')) \<and>
    (let k = min (length qs) (queue_room (m_sched m)) in
      accepted as = map uuid [n..<n + k] \<and> queue_IDs (m_sched m') = queue_IDs (m_sched m) @ map uuid [n..<n + k] \<and>
      (\<forall>i. i \<notin> uuid ` {n..<n + k} \<longrightarrow> sched_tasks (m_sched m') i = sched_tasks (m_sched m) i))"
  using assms(1,2,4)
proof (induction qs arbitrary: n m)
  case (Cons q qs)
  let ?m = "snd (Submit (uuid n) now now' q m)"
  have req: "well_formed_request q" and new: "sched_tasks (m_sched m) (uuid n) = None"
    using Cons.prems(2,3) by simp_all
  note one = Submit_queue [OF Cons.prems(1) req new, where now = now and now' = now']
  have later: "sched_tasks (m_sched ?m) (uuid j) = None" if "Suc n \<le> j" for j
    using one(2) [of "uuid j"] Cons.prems(3) [of j] that assms(3) by (auto simp: inj_eq)
  obtain k where k_def: "k = min (length qs) (queue_room (m_sched ?m))" by blast
  obtain as m' where rest: "submit_each (uuid_stub uuid now now') qs (Suc n, ?m) = (as, (Suc n + length qs, m'))"
    and k: "accepted as = map uuid [Suc n..<Suc n + k]"
      "queue_IDs (m_sched m') = queue_IDs (m_sched ?m) @ map uuid [Suc n..<Suc n + k]"
      "\<And>i. i \<notin> uuid ` {Suc n..<Suc n + k} \<Longrightarrow> sched_tasks (m_sched m') i = sched_tasks (m_sched ?m) i"
    using Cons.IH [OF one(1) _ later] Cons.prems(2) unfolding Let_def k_def by (metis list.set_intros(2))
  show ?case
  proof (cases "queue_room (m_sched m)")
    case 0
    then have "sched_tasks (m_sched ?m) i = sched_tasks (m_sched m) i" for i
      using one(2) [of i] one(3) new by (cases "i = uuid n") simp_all
    with 0 one(3) k k_def rest show ?thesis by (simp add: Let_def submit_each_uuid del: submit_each.simps)
  next
    case (Suc room)
    then have min: "min (length (q # qs)) (queue_room (m_sched m)) = Suc k" using one(3) by (simp add: k_def)
    have "sched_tasks (m_sched m') i = sched_tasks (m_sched m) i" if "i \<notin> uuid ` {n..<n + Suc k}" for i
      using that k(3) [of i] one(2) [of i] unfolding drawn_Suc(2) by simp
    with Suc one(3) k(1,2) rest show ?thesis
      unfolding Let_def min drawn_Suc(1) by (simp add: submit_each_uuid del: submit_each.simps)
  qed
qed (simp add: Let_def)


text \<open>Every submission leaves a PENDING job, queued or not.\<close>

lemma submit_each_saved:
  "fresh_from uuid (n, m) \<Longrightarrow> (\<And>q. q \<in> set qs \<Longrightarrow> well_formed_request q) \<Longrightarrow>
   submit_each (uuid_stub uuid now now') qs (n, m) = (as, s') \<Longrightarrow> j \<in> {n..<n + length qs} \<Longrightarrow>
   board.reported_pending uuid now now' (uuid j) s'"
proof (induction qs arbitrary: n m as)
  case (Cons q qs)
  let ?m = "snd (Submit (uuid n) now now' q m)"
  obtain bs where rest: "submit_each (uuid_stub uuid now now') qs (Suc n, ?m) = (bs, s')"
    using Cons.prems(3) unfolding submit_each_uuid by (auto split: prod.splits)
  note fresh = fresh_from_Submit [OF Cons.prems(1), of now now' q]
  show ?case
  proof (cases "j = n")
    case True
    have "uuid n \<noteq> ''''" using Cons.prems(1) by (simp add: fresh_from_def)
    then have "board.reported_pending uuid now now' (uuid n) (Suc n, ?m)"
      using Cons.prems(2) [of q] unfolding board.reported_pending_def
      by (simp add: uuid_stub_def GetStatus_def Submit_store store.get_save status_response_def)
    from board.submit_each_keeps [OF fresh rest this] True show ?thesis by simp
  next
    case False
    with Cons.prems(4) have "j \<in> {Suc n..<Suc n + length qs}" by auto
    with Cons.IH [OF fresh _ rest] Cons.prems(2) show ?thesis by simp
  qed
qed simp

lemma task_request_ok: "payload \<noteq> [] \<Longrightarrow> well_formed_request (task_request payload d name ns i)"
  by (simp add: well_formed_request_def task_request_def)

lemma reported_pending_iff:
  "board.reported_pending uuid now now' i (n, m) \<longleftrightarrow> map_sum id gs_Status (GetStatus i m) = Inr JOB_STATUS_PENDING"
  unfolding board.reported_pending_def by (cases "GetStatus i m") (simp_all add: uuid_stub_def)

lemma reconcile_pending:
  assumes "oe_NestedString env u [''status'', ''phase''] \<in> {'''', ''Pending''}"
    and "oe_NestedMap env u [''spec''] = (spec, True, None)"
    and "oe_Marshal env (command_payload (dyn_string (spec_value spec ''command''))
      (toStringSlice (spec_value spec ''args''))) = Inr payload"
    and "submit_each (oe_master env) (map (task_request payload (spec_timeout (oe_ParseDuration env) spec)
      (oe_Name env u) (oe_Namespace env u)) [0..spec_parallelism spec - 1]) s = (as, s')"
  shows "reconcile env u s =
    (if length (accepted as) = 0
     then updateStatus env (oe_Namespace env u) (oe_Name env u) ''Failed'' 0 (spec_parallelism spec)
       ''failed to submit any tasks'' None s'
     else updateStatus env (oe_Namespace env u) (oe_Name env u) ''Running'' 0 0
       (''submitted '' @ show_int (int (length (accepted as))) @ '' tasks'') (Some (accepted as)) s')"
proof -
  have loop: "submit_loop (oe_master env) (task_request payload (spec_timeout (oe_ParseDuration env) spec)
      (oe_Name env u) (oe_Namespace env u)) 0 (spec_parallelism spec) [] s = (accepted as, s')"
    using assms(4) by (simp add: submit_loop_each)
  have "reconcile env u s = startJobs env u (dyn_string (spec_value spec ''command''))
      (toStringSlice (spec_value spec ''args'')) (spec_parallelism spec) (spec_timeout (oe_ParseDuration env) spec) s"
    using assms(1,2) by (auto simp: reconcile_def)
  then show ?thesis by (simp only: startJobs_def Let_def assms(3) sum.case loop prod.case)
qed

text \<open>Claim C12: A new DistributedJob on the real master: of its \<open>parallelism\<close> tasks as many are queued
  as the queue has room for, in order behind what waits there, and exactly their IDs go into the
  status update. The others are refused, yet each has left a PENDING job at the master that no
  task belongs to and that the resource does not know; with no room at all the resource is Failed.\<close>

theorem operator_on_master:
  assumes phase: "oe_NestedString env u [''status'', ''phase''] \<in> {'''', ''Pending''}"
    and spec: "oe_NestedMap env u [''spec''] = (spec, True, None)"
    and marshal: "oe_Marshal env (command_payload (dyn_string (spec_value spec ''command''))
      (toStringSlice (spec_value spec ''args''))) = Inr payload" "payload \<noteq> []"
    and master: "oe_master env = uuid_stub uuid now now'"
    and wf: "sched_wf (m_sched m)" and fresh: "fresh_from uuid (n, m)"
    and new: "\<And>j. n \<le> j \<Longrightarrow> sched_tasks (m_sched m) (uuid j) = None"
  shows "let p = nat (spec_parallelism spec); k = min p (queue_room (m_sched m)); ids = map uuid [n..<n + k]
    in \<exists>m'. reconcile env u (n, m) =
        (if k = 0 then updateStatus env (oe_Namespace env u) (oe_Name env u) ''Failed'' 0 (spec_parallelism spec)
             ''failed to submit any tasks'' None (n + p, m')
         else updateStatus env (oe_Namespace env u) (oe_Name env u) ''Running'' 0 0
             (''submitted '' @ show_int (int k) @ '' tasks'') (Some ids) (n + p, m')) \<and>
      queue_IDs (m_sched m') = queue_IDs (m_sched m) @ ids \<and>
      (\<forall>j \<in> {n..<n + p}. map_sum id gs_Status (GetStatus (uuid j) m') = Inr JOB_STATUS_PENDING) \<and>
      (\<forall>j \<in> {n + k..<n + p}. sched_tasks (m_sched m') (uuid j) = None)"
proof -
  let ?d = "spec_timeout (oe_ParseDuration env) spec" and ?p = "spec_parallelism spec"
  let ?reqs = "map (task_request payload ?d (oe_Name env u) (oe_Namespace env u)) [0..?p - 1]"
  have len: "length ?reqs = nat ?p" by simp
  have ok: "well_formed_request q" if "q \<in> set ?reqs" for q using that task_request_ok [OF marshal(2)] by auto
  have inj: "inj uuid" using fresh by (simp add: fresh_from_def)
  have "\<exists>as m'. submit_each (uuid_stub uuid now now') ?reqs (n, m) = (as, (n + length ?reqs, m')) \<and>
      (let k = min (length ?reqs) (queue_room (m_sched m)) in
        accepted as = map uuid [n..<n + k] \<and> queue_IDs (m_sched m') = queue_IDs (m_sched m) @ map uuid [n..<n + k] \<and>
        (\<forall>i. i \<notin> uuid ` {n..<n + k} \<longrightarrow> sched_tasks (m_sched m') i = sched_tasks (m_sched m) i))"
    by (rule submit_each_queue [OF wf ok inj new])
  then obtain as m' where sub: "submit_each (uuid_stub uuid now now') ?reqs (n, m) = (as, (n + nat ?p, m'))"
    and k: "accepted as = map uuid [n..<n + min (nat ?p) (queue_room (m_sched m))]"
      "queue_IDs (m_sched m') = queue_IDs (m_sched m) @ map uuid [n..<n + min (nat ?p) (queue_room (m_sched m))]"
      "\<And>i. i \<notin> uuid ` {n..<n + min (nat ?p) (queue_room (m_sched m))} \<Longrightarrow> sched_tasks (m_sched m') i = sched_tasks (m_sched m) i"
    unfolding len Let_def by blast
  have "map_sum id gs_Status (GetStatus (uuid j) m') = Inr JOB_STATUS_PENDING" if "j \<in> {n..<n + nat ?p}" for j
    using submit_each_saved [OF fresh ok sub, of j] that unfolding len reported_pending_iff by blast
  moreover have "sched_tasks (m_sched m') (uuid j) = None"
    if "j \<in> {n + min (nat ?p) (queue_room (m_sched m))..<n + nat ?p}" for j
  proof -
    have "j \<notin> {n..<n + min (nat ?p) (queue_room (m_sched m))}" using that by simp
    then have "uuid j \<notin> uuid ` {n..<n + min (nat ?p) (queue_room (m_sched m))}"
      by (simp only: inj_image_mem_iff [OF inj] simp_thms)
    from k(3) [OF this] new [of j] that show ?thesis by simp
  qed
  moreover have "length (accepted as) = min (nat ?p) (queue_room (m_sched m))" by (simp add: k(1))
  ultimately show ?thesis
    using reconcile_pending [OF phase spec marshal(1), of "(n, m)" as "(n + nat ?p, m')"] sub k(2)
    unfolding Let_def master k(1) by (intro exI [of _ m'] conjI ballI) (simp_all only:)
qed


text \<open>A resource with parallelism 2 and a master whose queue has room for one task.\<close>

definition sample_uuid :: "nat \<Rightarrow> string" where
  "sample_uuid n = replicate (Suc n) (CHR ''u'')"

definition sample_fleet ::
    "(string \<times> string list, nat \<times> (RoundRobinBalancer, unit, unit, string) Master) OperatorEnv" where
  "sample_fleet = \<lparr>oe_Name = (\<lambda>_. ''job''), oe_Namespace = (\<lambda>_. ''default''),
     oe_NestedString = (\<lambda>u fs. if fs = [''status'', ''phase''] then fst u else ''''),
     oe_NestedStringSlice = (\<lambda>u _. snd u),
     oe_NestedMap = (\<lambda>_ _. ([''command'' \<mapsto> GString ''date'', ''parallelism'' \<mapsto> GInt64 2], True, None)),
     oe_SetNestedField = (\<lambda>u v _. if json_value v then SetOK u else SetPanic),
     oe_Get = (\<lambda>_ _ s. (Inr ('''', []), s)), oe_UpdateStatus = (\<lambda>_ _ s. (None, s)),
     oe_master = uuid_stub sample_uuid 0 0,
     oe_Marshal = (\<lambda>_. Inr [1]), oe_ParseDuration = (\<lambda>_. Inr second), oe_Now = ''now''\<rparr>"

lemma sample_fleet_fresh: "fresh_from sample_uuid (0, sample_idle)"
proof -
  have "inj sample_uuid"
  proof (rule injI)
    fix i j assume "sample_uuid i = sample_uuid j"
    then have "length (sample_uuid i) = length (sample_uuid j)" by simp
    then show "i = j" by (simp add: sample_uuid_def)
  qed
  then show ?thesis by (simp add: fresh_from_def GetJob_def NewStore_def) (simp add: sample_uuid_def)
qed

theorem operator_on_master_witness:
  "\<exists>m'. reconcile sample_fleet ('''', []) (0, sample_idle) =
     updateStatus sample_fleet ''default'' ''job'' ''Running'' 0 0 (''submitted '' @ show_int 1 @ '' tasks'')
       (Some [''u'']) (2, m') \<and> queue_IDs (m_sched m') = [''u''] \<and>
     map_sum id gs_Status (GetStatus ''uu'' m') = Inr JOB_STATUS_PENDING \<and> sched_tasks (m_sched m') ''uu'' = None"
proof -
  let ?spec = "[''command'' \<mapsto> GString ''date'', ''parallelism'' \<mapsto> GInt64 2]"
  have p: "spec_parallelism ?spec = 2"
    by (simp add: spec_parallelism_def spec_value_def wrap32_id in32_def)
  have room: "queue_room (NewScheduler 1) = 1" "queue_IDs (NewScheduler 1) = []"
    by (simp_all add: queue_room_def queue_IDs_def PendingCount_def chan_len_def)
  have u: "sample_uuid 0 = ''u''" "sample_uuid (Suc 0) = ''uu''" by (simp_all add: sample_uuid_def)
  have env: "oe_Name sample_fleet x = ''job''" "oe_Namespace sample_fleet x = ''default''"
    "oe_NestedString sample_fleet ('''', []) [''status'', ''phase''] \<in> {'''', ''Pending''}"
    "oe_NestedMap sample_fleet x [''spec''] = (?spec, True, None)"
    "oe_Marshal sample_fleet q = Inr [1]" "oe_master sample_fleet = uuid_stub sample_uuid 0 0" for x q
    by (simp_all add: sample_fleet_def)
  have "sched_wf (m_sched sample_idle)" "\<And>j. sched_tasks (m_sched sample_idle) (sample_uuid j) = None"
    by (simp_all add: sched_wf_New)
  note r = operator_on_master [OF env(3,4,5) _ env(6) this(1) sample_fleet_fresh this(2)]
  have two: "{0..<Suc (Suc 0)} = {0, Suc 0}" "{Suc 0..<Suc (Suc 0)} = {Suc 0}" by auto
  show ?thesis using r by (simp add: p room u env(1,2) Let_def two numeral_2_eq_2) blast
qed

end
