(* ===== verification/Spec2Isabelle.thy ===== *)
theory Spec2Isabelle
  imports MasterTypes Mains Deployment
begin

text \<open>
  A distributed command executor in Go: clients submit commands to a master, which queues them and
  sends each to one of the workers that have registered with it; a worker runs the command and
  replies. A Kubernetes operator turns DistributedJob resources into jobs of the master, and an
  auto-scaler changes the number of workers. This development models the Go code under
  \<open>cmd\<close>, \<open>internal\<close>, \<open>pkg\<close> and \<open>api\<close> and states what makes it correct, and where it
  does not do what it means to.

  \<^bold>\<open>How the parts interact.\<close> \<open>Submit\<close> of the master's server saves a job in the store and a task in
  the scheduler. The dispatcher's loop takes tasks from the scheduler and starts a goroutine for
  each, which asks the scaler for capacity, the registry for healthy nodes and the balancer for one
  of them, calls \<open>Execute\<close> on it over a pooled connection, and files the outcome in the store and
  the scheduler, or queues the task again. Workers register, send heartbeats and deregister; the
  registry's monitor marks silent nodes, removes them and closes their connections through a
  callback. On the worker, \<open>Execute\<close> goes through the task runner, which bounds and counts the tasks,
  to the executor that is registered for the task's type.

  \<^bold>\<open>Theories and code.\<close> Definitions keep the names of the code; where two packages use the same
  name, the component is put before it.

  \<^item> \<open>Prelude\<close>: sized integers (\<open>int\<close> with \<open>wrap64\<close> and \<open>wrap32\<close> where the code computes or
    converts), time, Go maps with the order of \<open>range\<close> as an argument, decimal printing; the
    reachable states of a transition system and the locale \<open>invariant_system\<close>.
  \<^item> \<open>Channels\<close>, \<open>Paging\<close>: buffered channels behind the locale \<open>bounded_queue\<close>; the loop that pages
    lists.
  \<^item> \<open>Types\<close>: \<open>pkg/types\<close>. \<open>Proto\<close>: the messages of \<open>proto/distexec/v1\<close>. \<open>Config\<close>:
    \<open>internal/config\<close>.
  \<^item> \<open>Scheduler\<close>, \<open>Store\<close>, \<open>NodeRegistry\<close>, \<open>Balancer\<close>, \<open>Scaler\<close>: the files of the same names under
    \<open>internal/master\<close>. Task objects are shared by pointer in the code, so the scheduler keeps them
    in a heap and its queue and table hold references. The four balancers are interpretations of
    \<open>load_balancer\<close>, the store of \<open>job_store\<close>, the registry of \<open>node_directory\<close> and \<open>node_load\<close>.
  \<^item> \<open>Dispatcher\<close>, \<open>Dispatch\<close>: \<open>dispatcher.go\<close>, its operations and what one dispatch, and a run of
    dispatches, does in every case. The record \<open>Master\<close> holds the components, \<open>Env\<close> what one dispatch
    depends on from outside.
  \<^item> \<open>MasterServer\<close>, \<open>Service\<close>: \<open>server.go\<close>, its handlers and their outcome on every branch.
  \<^item> \<open>MasterSystem\<close>, \<open>MasterInvariant\<close>: the master's goroutines interleaved. \<open>go_step\<close> is one critical
    section of a goroutine, \<open>sys_step\<close> the step relation of the whole master; \<open>sys_inv\<close> holds in
    every reachable state.
  \<^item> \<open>JobLifecycle\<close>: the abstract job service (\<open>JobService\<close>, \<open>spec_step\<close>: a status and a result per ID,
    the queue of IDs, those in work) and the simulation \<open>job_service\<close> from the interleaved master to it.
    \<open>MasterTypes\<close>: the ranges of the Go types as an invariant of the master.
  \<^item> \<open>MasterProcess\<close>: \<open>Run\<close> of \<open>server.go\<close> as a step relation over the interleaved master: listening, the
    loop, the monitor, the timer, the shutdown goroutine and the return.
  \<^item> \<open>Executor\<close>: \<open>pkg/executor\<close>. \<open>Runner\<close>, \<open>Registration\<close>, \<open>WorkerServer\<close>: the files of
    \<open>internal/worker\<close>, with the registry that \<open>cmd/worker/main.go\<close> builds. The runner is given as
    interleaved goroutines (\<open>run_step\<close>, \<open>runner_step\<close>) and as a sequential function that they refine.
    \<open>WorkerSystem\<close>: \<open>Run\<close>, \<open>Shutdown\<close> and the heartbeat loop beside the executions, with the master at
    the other end (\<open>worker_step\<close>).
  \<^item> \<open>Client\<close>: \<open>pkg/client\<close>. \<open>Operator\<close>: \<open>internal/operator\<close> with \<open>api/v1\<close>. \<open>Commands\<close>: \<open>cmd/distctl\<close>
    and the settings of the other main functions. \<open>Mains\<close>: the main functions of master, worker and
    operator, from the configuration to the exit code.
  \<^item> \<open>Cluster\<close>: master, worker and client together. The master is an interpretation of the contract
    \<open>registration_service\<close> on which the worker's registration relies.
  \<^item> \<open>Deployment\<close>: operator and master together. The master with its supply of UUIDs is an interpretation
    of the contract \<open>job_board\<close>, on which a client that submits and asks relies.

  \<^bold>\<open>What the lemmas show.\<close> For each data structure a well-formedness predicate and that every
  operation keeps it (\<open>sched_wf\<close>, \<open>store_wf\<close>, \<open>reg_wf\<close>, \<open>pool_wf\<close>, \<open>client_ok\<close>); for each operation
  its result on every branch; for the interleaved parts invariants by rule induction (interpretations of
  \<open>invariant_system\<close>: \<open>sys_inv\<close>, \<open>sys_live\<close>, \<open>spec_inv\<close>, \<open>sys_typed\<close>, \<open>proc_inv\<close>, \<open>runner_inv\<close>,
  \<open>worker_inv\<close>), the refinement of the sequential definitions by the goroutines, and simulations
  (interpretations of \<open>simulation\<close>) of the abstract job service by the master and of the runner by the
  worker; for loops their closed form
  (\<open>page_loop\<close>, \<open>health_scan\<close>, \<open>weight_loop\<close>, \<open>submit_loop\<close>, \<open>status_count_loop\<close>); round trips; bounds
  on replicas, queue, retries and pages. The theorems that go through several components are the way
  of a job from the client's call to the command and back (\<open>run_and_wait_returns_outcome\<close>,
  \<open>submit_dispatch_status\<close>, \<open>command_outcome_reaches_client\<close>), the return of a forgotten worker, and the
  wait of a client that ends before the retry. The theorems on whole processes say that a job gets at
  most one result and no execution after it, that master and worker can always stop, what a shutdown of
  the master abandons and that a worker leaves nothing behind, and what becomes of a resource when the
  queue of the master is full.

  \<^bold>\<open>Bounds and fuel.\<close> Only the refinement lemmas run goroutines with a number of steps: 13 for a
  dispatch, 5 for a submission and 9 for a run on a worker, the lengths of their longest paths; each
  lemma states that this many steps end the goroutine. Loops that wait for events (\<open>dispatcher_run\<close>,
  \<open>HeartbeatLoop\<close>, \<open>WaitForCompletion\<close>, \<open>MonitorHealth\<close>) are functions of the list of the events they
  see. The operator's submission loop is a function with a measure. Nothing else needs fuel.

  \<^bold>\<open>What is outside.\<close> Arguments of the definitions stand for code that is not in the repository: gRPC
  (dialling, the remote call, the text of an error), the Kubernetes client and the \<open>unstructured\<close>
  accessors, \<open>envconfig\<close>, UUIDs and cobra, and for the parts of the standard library that act on the
  world or are formats of their own: \<open>os/exec\<close>, \<open>encoding/json\<close>, \<open>time.ParseDuration\<close>, clocks. What
  a theorem needs of them is a hypothesis: that a process that exits with an error has a code other
  than 0, that decoding reads back what encoding wrote, that the deep copy of a value that is not
  JSON panics, that UUIDs are new and not empty.

  \<^bold>\<open>Abstractions.\<close> A read or write of a field of a shared job or task is atomic, as is each critical
  section; \<open>EnsureCapacity\<close>, which calls the cluster between two locked regions, is one step of the
  interleaved master. Of a context the model keeps the deadline and, in the runner, whether it was
  cancelled. Strings are lists of bytes; white space is trimmed as Unicode has it, on UTF-8
  encodings. A status query reads its job in one piece, and the code field by field. Logging is left out.

  A step relation says what may happen next, not that it does: statements that something can always
  end give a run in which it does. Whether listening succeeds, when a signal arrives and when the gRPC
  server fails are labels of the steps. \<open>GracefulStop\<close> is taken as documented: no new request, and it
  waits for those in flight.

  \<^bold>\<open>Not modelled.\<close> Sockets, the delivery of signals and the generated code; the Kubernetes manifests,
  scripts and specifications. The JSON text and the time format of \<open>distctl\<close> belong to the libraries that are arguments.
\<close>

end
